(* ===== verification/Prelude.thy ===== *)
theory Prelude
  imports Main "HOL-Library.Sublist" "HOL-Library.Word" "HOL-Library.Finite_Map"
begin

text \<open>
  Shared vocabulary of the development.  Go functions that return \<open>(T, error)\<close> are modelled by
  values of the sum type \<open>'e + 'a\<close>: \<open>Inl e\<close> is a non-nil error, \<open>Inr x\<close> the result next to a
  nil error.  The combinator \<open>rbind\<close> is the idiom \<open>x, err := f(); if err != nil \{ return err \}\<close>,
  \<open>rfold\<close> the loop that returns at its first error.  Go maps with a zero value for absent keys
  are finite maps read through \<open>fmget\<close>.
\<close>

named_theorems result_simps \<open>unfolding of the error-propagation combinators\<close>
named_theorems go_simps \<open>evaluation of the Go string and path functions on closed terms\<close>

section \<open>Fallible computations\<close>

type_synonym ('e, 'a) result = "'e + 'a"

fun rbind :: "('e, 'a) result \<Rightarrow> ('a \<Rightarrow> ('e, 'b) result) \<Rightarrow> ('e, 'b) result" where
  "rbind (Inl e) f = Inl e"
| "rbind (Inr x) f = f x"

text \<open>\<open>rguard c e k\<close>: the early return \<open>if c \{ return e \}\<close> followed by \<open>k\<close>.\<close>

definition rguard :: "bool \<Rightarrow> 'e \<Rightarrow> ('e, 'a) result \<Rightarrow> ('e, 'a) result" where
  "rguard c e k = (if c then Inl e else k)"

fun rfold :: "('x \<Rightarrow> 's \<Rightarrow> ('e, 's) result) \<Rightarrow> 'x list \<Rightarrow> 's \<Rightarrow> ('e, 's) result" where
  "rfold f [] s = Inr s"
| "rfold f (x # xs) s = rbind (f x s) (rfold f xs)"

definition is_ok :: "('e, 'a) result \<Rightarrow> bool" where
  "is_ok r = (case r of Inl _ \<Rightarrow> False | Inr _ \<Rightarrow> True)"

lemma is_ok_simps [simp]: "is_ok (Inr x)" "\<not> is_ok (Inl e)"
  by (simp_all add: is_ok_def)

lemma is_ok_iff: "is_ok r \<longleftrightarrow> (\<exists>x. r = Inr x)"
  by (cases r) simp_all

lemma rbind_Inr_iff [result_simps]: "rbind r f = Inr y \<longleftrightarrow> (\<exists>x. r = Inr x \<and> f x = Inr y)"
  by (cases r) simp_all

lemma rbind_Inl_iff: "rbind r f = Inl e \<longleftrightarrow> r = Inl e \<or> (\<exists>x. r = Inr x \<and> f x = Inl e)"
  by (cases r) simp_all

lemma rguard_Inr_iff [result_simps]: "rguard c e k = Inr y \<longleftrightarrow> \<not> c \<and> k = Inr y"
  by (simp add: rguard_def)

lemma rguard_Inl_iff: "rguard c e k = Inl e' \<longleftrightarrow> (c \<and> e' = e) \<or> (\<not> c \<and> k = Inl e')"
  by (auto simp: rguard_def)

lemma rguard_simps [simp]: "rguard True e k = Inl e" "rguard False e k = k"
  by (simp_all add: rguard_def)

lemma rbind_cong [fundef_cong]:
  "r = r' \<Longrightarrow> (\<And>x. r' = Inr x \<Longrightarrow> f x = f' x) \<Longrightarrow> rbind r f = rbind r' f'"
  by (cases r') simp_all

lemma rfold_append: "rfold f (xs @ ys) s = rbind (rfold f xs s) (rfold f ys)"
proof (induction xs arbitrary: s)
  case (Cons x xs)
  then show ?case by (cases "f x s") simp_all
qed simp

text \<open>An invariant kept by every successful step holds after a successful loop.\<close>

lemma rfold_invariant:
  assumes "rfold f xs s = Inr s'" and "I s"
    and "\<And>x s s'. x \<in> set xs \<Longrightarrow> I s \<Longrightarrow> f x s = Inr s' \<Longrightarrow> I s'"
  shows "I s'"
  using assms
proof (induction xs arbitrary: s)
  case (Cons x xs)
  from Cons.prems(1) obtain s1 where step: "f x s = Inr s1" and rest: "rfold f xs s1 = Inr s'"
    by (auto simp: rbind_Inr_iff)
  have "I s1" by (rule Cons.prems(3) [OF _ Cons.prems(2) step]) simp
  with rest show ?case by (rule Cons.IH) (use Cons.prems(3) in auto)
qed simp

section \<open>Finite maps with a default\<close>

definition fmget :: "'v \<Rightarrow> ('k, 'v) fmap \<Rightarrow> 'k \<Rightarrow> 'v" where
  "fmget d m k = (case fmlookup m k of None \<Rightarrow> d | Some v \<Rightarrow> v)"

lemma fmget_empty [simp]: "fmget d fmempty k = d"
  by (simp add: fmget_def)

lemma fmget_upd [simp]: "fmget d (fmupd k v m) k' = (if k = k' then v else fmget d m k')"
  by (simp add: fmget_def)

lemma fmget_drop [simp]: "fmget d (fmdrop k m) k' = (if k = k' then d else fmget d m k')"
  by (simp add: fmget_def)

section \<open>Lists\<close>

lemma sorted_list_of_fmap_set:
  "(k, v) \<in> set (sorted_list_of_fmap m) \<longleftrightarrow> fmlookup m k = Some v"
  by (auto simp: sorted_list_of_fmap_def sorted_list_of_fset.rep_eq fmlookup_dom_iff
      simp flip: fmlookup_dom_iff intro!: image_eqI [of _ _ k] dest: fmdomI)

lemma distinct_sorted_list_of_fmap: "distinct (map fst (sorted_list_of_fmap m))"
  by (simp add: sorted_list_of_fmap_def comp_def sorted_list_of_fset.rep_eq)

end
