(* ===== verification/Go_Strings.thy ===== *)
theory Go_Strings
  imports Prelude
begin

text \<open>
  The parts of Go's \<open>strings\<close>, \<open>bytes\<close>, \<open>bufio\<close> and \<open>strconv\<close> packages that the modelled sources
  call.  A Go string is its list of bytes (\<open>string\<close>); the functions below look only at ASCII bytes,
  so a multi-byte UTF-8 sequence is passed through unchanged (the non-ASCII Unicode spaces that
  \<open>TrimSpace\<close> also removes are outside this model).  Round-trip lemmas relate splitting with
  joining and printing with parsing.
\<close>

section \<open>Splitting and joining\<close>

fun splitp :: "(char \<Rightarrow> bool) \<Rightarrow> string \<Rightarrow> string list" where
  "splitp p [] = [[]]"
| "splitp p (c # cs) =
     (if p c then [] # splitp p cs
      else (case splitp p cs of [] \<Rightarrow> [[c]] | x # xs \<Rightarrow> (c # x) # xs))"

text \<open>\<open>strings.Split(s, sep)\<close> for a one-byte separator.\<close>

definition Split :: "char \<Rightarrow> string \<Rightarrow> string list" where
  "Split sep s = splitp (\<lambda>c. c = sep) s"

text \<open>\<open>strings.FieldsFunc\<close>: the maximal runs of bytes not satisfying the predicate.\<close>

definition FieldsFunc :: "(char \<Rightarrow> bool) \<Rightarrow> string \<Rightarrow> string list" where
  "FieldsFunc p s = filter (\<lambda>x. x \<noteq> []) (splitp p s)"

fun Join :: "char \<Rightarrow> string list \<Rightarrow> string" where
  "Join sep [] = []"
| "Join sep [x] = x"
| "Join sep (x # y # ys) = x @ sep # Join sep (y # ys)"

lemma splitp_nonempty [simp]: "splitp p s \<noteq> []"
  by (induction s) (auto split: list.splits)

lemma splitp_no_sep: "x \<in> set (splitp p s) \<Longrightarrow> c \<in> set x \<Longrightarrow> \<not> p c"
proof (induction s arbitrary: x)
  case (Cons d ds)
  then show ?case by (fastforce split: if_splits list.splits)
qed auto

lemma splitp_no_p: "(\<And>c. c \<in> set s \<Longrightarrow> \<not> p c) \<Longrightarrow> splitp p s = [s]"
  by (induction s) auto

lemma splitp_append_sep:
  "(\<And>c. c \<in> set x \<Longrightarrow> \<not> p c) \<Longrightarrow> p d \<Longrightarrow> splitp p (x @ d # y) = x # splitp p y"
  by (induction x) auto

lemma Split_nonempty [simp]: "Split sep s \<noteq> []"
  by (simp add: Split_def)

lemma Split_no_sep: "x \<in> set (Split sep s) \<Longrightarrow> sep \<notin> set x"
  using splitp_no_sep by (fastforce simp: Split_def)

lemma Split_single: "sep \<notin> set s \<Longrightarrow> Split sep s = [s]"
  unfolding Split_def by (rule splitp_no_p) auto

lemma Split_cons: "sep \<notin> set x \<Longrightarrow> Split sep (x @ sep # y) = x # Split sep y"
  unfolding Split_def by (rule splitp_append_sep) auto

lemma Split_Nil [simp]: "Split sep [] = [[]]"
  by (simp add: Split_def)

lemma Split_Cons: "Split sep (c # cs) =
  (if c = sep then [] # Split sep cs else (c # hd (Split sep cs)) # tl (Split sep cs))"
  by (auto simp: Split_def split: list.splits)

lemma Join_Cons: "xs \<noteq> [] \<Longrightarrow> Join sep (x # xs) = x @ sep # Join sep xs"
  by (cases xs) simp_all

lemma Split_Join:
  "xs \<noteq> [] \<Longrightarrow> \<forall>x \<in> set xs. sep \<notin> set x \<Longrightarrow> Split sep (Join sep xs) = xs"
proof (induction xs)
  case (Cons x xs)
  then show ?case by (cases "xs = []") (simp_all add: Split_single Split_cons Join_Cons)
qed simp

lemma Join_Split: "Join sep (Split sep s) = s"
proof (induction s)
  case (Cons c cs)
  show ?case
  proof (cases "Split sep cs")
    case (Cons x xs)
    with \<open>Join sep (Split sep cs) = cs\<close> show ?thesis
      by (cases xs) (auto simp: Split_Cons Join_Cons)
  qed simp
qed simp

section \<open>Prefixes and trimming\<close>

fun HasPrefix :: "string \<Rightarrow> string \<Rightarrow> bool" where
  "HasPrefix s [] = True"
| "HasPrefix [] (p # ps) = False"
| "HasPrefix (c # cs) (p # ps) = (c = p \<and> HasPrefix cs ps)"

definition TrimPrefix :: "string \<Rightarrow> string \<Rightarrow> string" where
  "TrimPrefix s p = (if HasPrefix s p then drop (length p) s else s)"

definition isSpace :: "char \<Rightarrow> bool" where
  "isSpace c \<longleftrightarrow> c \<in> {CHR '' '', CHR 0x09, CHR 0x0A, CHR 0x0B, CHR 0x0C, CHR 0x0D}"

definition TrimSpace :: "string \<Rightarrow> string" where
  "TrimSpace s = rev (dropWhile isSpace (rev (dropWhile isSpace s)))"

definition Fields :: "string \<Rightarrow> string list" where
  "Fields s = FieldsFunc isSpace s"

lemma HasPrefix_iff: "HasPrefix s p \<longleftrightarrow> (\<exists>t. s = p @ t)"
  by (induction s p rule: HasPrefix.induct) auto

lemma HasPrefix_append [simp]: "HasPrefix (p @ t) p"
  by (auto simp: HasPrefix_iff)

lemma TrimPrefix_append [simp]: "TrimPrefix (p @ t) p = t"
  by (simp add: TrimPrefix_def)

text \<open>\<open>strings.SplitN(s, sep, 2)\<close>: at most one cut, at the first separator.\<close>

definition SplitN2 :: "char \<Rightarrow> string \<Rightarrow> string list" where
  "SplitN2 sep s = (let k = takeWhile (\<lambda>c. c \<noteq> sep) s
     in if k = s then [s] else [k, drop (Suc (length k)) s])"

lemma SplitN2_sep: "sep \<notin> set k \<Longrightarrow> SplitN2 sep (k @ sep # v) = [k, v]"
proof -
  assume "sep \<notin> set k"
  then have "takeWhile (\<lambda>c. c \<noteq> sep) (k @ sep # v) = k"
    by (subst takeWhile_append2) auto
  then show ?thesis by (simp add: SplitN2_def)
qed

lemma SplitN2_none: "sep \<notin> set s \<Longrightarrow> SplitN2 sep s = [s]"
proof -
  assume "sep \<notin> set s"
  then have "takeWhile (\<lambda>c. c \<noteq> sep) s = s"
    by (subst takeWhile_eq_all_conv) auto
  then show ?thesis by (simp add: SplitN2_def)
qed

section \<open>Decimal numbers\<close>

definition isDigit :: "char \<Rightarrow> bool" where
  "isDigit c \<longleftrightarrow> 48 \<le> (of_char c :: nat) \<and> (of_char c :: nat) \<le> 57"

definition digitVal :: "char \<Rightarrow> nat" where
  "digitVal c = of_char c - 48"

definition digitChar :: "nat \<Rightarrow> char" where
  "digitChar d = char_of (48 + d)"

fun dec :: "nat \<Rightarrow> string" where
  "dec n = (if n < 10 then [digitChar n] else dec (n div 10) @ [digitChar (n mod 10)])"

declare dec.simps [simp del]

text \<open>\<open>strconv.Itoa\<close> and \<open>strconv.FormatInt(i, 10)\<close>.\<close>

definition Itoa :: "int \<Rightarrow> string" where
  "Itoa i = (if i < 0 then CHR ''-'' # dec (nat (- i)) else dec (nat i))"

datatype conv_error = ErrSyntax | ErrRange

text \<open>
  The digit loop of \<open>strconv.ParseUint(s, 10, bits)\<close>; \<open>mx\<close> is \<open>2^bits - 1\<close>.  The value is the one Go
  returns next to the error: 0 on a syntax error, the largest value on overflow.  Overflow is
  reported as soon as it happens, before the remaining bytes are looked at.
\<close>

fun parseDigits :: "nat \<Rightarrow> nat \<Rightarrow> string \<Rightarrow> nat \<times> conv_error option" where
  "parseDigits mx n [] = (n, None)"
| "parseDigits mx n (c # cs) =
     (if \<not> isDigit c then (0, Some ErrSyntax)
      else let n1 = 10 * n + digitVal c
           in if mx < n1 then (mx, Some ErrRange) else parseDigits mx n1 cs)"

definition ParseUint :: "nat \<Rightarrow> string \<Rightarrow> nat \<times> conv_error option" where
  "ParseUint bits s = (if s = [] then (0, Some ErrSyntax) else parseDigits (2 ^ bits - 1) 0 s)"

text \<open>\<open>strconv.ParseInt(s, 10, bits)\<close>; \<open>strconv.Atoi\<close> is the case of 64 bits.\<close>

definition ParseInt :: "nat \<Rightarrow> string \<Rightarrow> int \<times> conv_error option" where
  "ParseInt bits s =
     (if s = [] then (0, Some ErrSyntax)
      else let neg = (hd s = CHR ''-'');
               body = (if hd s = CHR ''+'' \<or> hd s = CHR ''-'' then tl s else s)
           in (case ParseUint bits body of
                 (un, Some ErrSyntax) \<Rightarrow> (0, Some ErrSyntax)
               | (un, _) \<Rightarrow>
                   (if \<not> neg \<and> 2 ^ (bits - 1) \<le> un then (2 ^ (bits - 1) - 1, Some ErrRange)
                    else if neg \<and> 2 ^ (bits - 1) < un then (- (2 ^ (bits - 1)), Some ErrRange)
                    else (if neg then - int un else int un, None))))"

definition Atoi :: "string \<Rightarrow> int \<times> conv_error option" where
  "Atoi s = ParseInt 64 s"

definition decVal :: "nat \<Rightarrow> string \<Rightarrow> nat" where
  "decVal n cs = foldl (\<lambda>a c. 10 * a + digitVal c) n cs"

lemma digitChar_props [simp]:
  assumes "d < 10"
  shows "isDigit (digitChar d)" "digitVal (digitChar d) = d"
  using assms by (simp_all add: isDigit_def digitVal_def digitChar_def)

lemma decVal_ge: "n \<le> decVal n cs"
proof (induction cs arbitrary: n)
  case (Cons c cs)
  have "n \<le> 10 * n + digitVal c" by simp
  also have "\<dots> \<le> decVal (10 * n + digitVal c) cs" by (rule Cons.IH)
  finally show ?case by (simp add: decVal_def)
qed (simp add: decVal_def)

lemma parseDigits_ok:
  "\<forall>c \<in> set cs. isDigit c \<Longrightarrow> decVal n cs \<le> mx \<Longrightarrow> parseDigits mx n cs = (decVal n cs, None)"
proof (induction cs arbitrary: n)
  case (Cons c cs)
  have "10 * n + digitVal c \<le> decVal (10 * n + digitVal c) cs" by (rule decVal_ge)
  also have "\<dots> \<le> mx" using Cons.prems(2) by (simp add: decVal_def)
  finally show ?case using Cons by (simp add: decVal_def Let_def)
qed (simp add: decVal_def)

lemma parseDigits_bound: "n \<le> mx \<Longrightarrow> fst (parseDigits mx n cs) \<le> mx"
  by (induction cs arbitrary: n) (auto simp: Let_def)

lemma dec_nonempty [simp]: "dec n \<noteq> []"
  by (subst dec.simps) simp

lemma dec_digits: "c \<in> set (dec n) \<Longrightarrow> isDigit c"
proof (induction n rule: dec.induct)
  case (1 n)
  then show ?case by (cases "n < 10") (auto simp: dec.simps [of n])
qed

lemma decVal_dec [simp]: "decVal 0 (dec n) = n"
proof (induction n rule: dec.induct)
  case (1 n)
  then show ?case by (cases "n < 10") (auto simp: dec.simps [of n] decVal_def)
qed

lemma ParseUint_bound: "fst (ParseUint bits s) \<le> 2 ^ bits - 1"
  by (simp add: ParseUint_def parseDigits_bound)

lemma ParseUint_dec: "n < 2 ^ bits \<Longrightarrow> ParseUint bits (dec n) = (n, None)"
  using parseDigits_ok [of "dec n" 0 "2 ^ bits - 1"]
  by (simp add: ParseUint_def dec_digits)

lemma dec_no_sign: "hd (dec n) \<noteq> CHR ''+''" "hd (dec n) \<noteq> CHR ''-''"
proof -
  have "isDigit (hd (dec n))" by (rule dec_digits [of _ n]) simp
  then show "hd (dec n) \<noteq> CHR ''+''" "hd (dec n) \<noteq> CHR ''-''"
    by (auto simp: isDigit_def)
qed

lemma ParseInt_Itoa:
  assumes "0 < bits" and "- (2 ^ (bits - 1)) \<le> i" and "i < 2 ^ (bits - 1)"
  shows "ParseInt bits (Itoa i) = (i, None)"
proof -
  have pow_nat: "(2::nat) ^ bits = 2 * 2 ^ (bits - 1)"
    using assms(1) by (cases bits) simp_all
  show ?thesis
  proof (cases "i < 0")
    case True
    have "nat (- i) \<le> 2 ^ (bits - 1)" using assms(2) by (simp add: nat_le_iff)
    moreover have "nat (- i) < 2 ^ bits"
    proof -
      have "(0::nat) < 2 ^ (bits - 1)" by simp
      with calculation pow_nat show ?thesis by linarith
    qed
    ultimately show ?thesis
      using True by (simp add: Itoa_def ParseInt_def ParseUint_dec Let_def)
  next
    case False
    have "nat i < 2 ^ (bits - 1)" using assms(3) False by (simp add: nat_less_iff)
    moreover have "nat i < 2 ^ bits" using calculation pow_nat by linarith
    ultimately show ?thesis
      using False by (simp add: Itoa_def ParseInt_def ParseUint_dec dec_no_sign Let_def)
  qed
qed

lemma Atoi_Itoa: "- (2 ^ 63) \<le> i \<Longrightarrow> i < 2 ^ 63 \<Longrightarrow> Atoi (Itoa i) = (i, None)"
  unfolding Atoi_def by (rule ParseInt_Itoa) simp_all

lemma Itoa_nonempty [simp]: "Itoa i \<noteq> []"
  by (simp add: Itoa_def)

lemma Itoa_chars: "c \<in> set (Itoa i) \<Longrightarrow> isDigit c \<or> c = CHR ''-''"
  by (auto simp: Itoa_def dest: dec_digits split: if_splits)

section \<open>Reading lines\<close>

definition dropCR :: "string \<Rightarrow> string" where
  "dropCR l = (if l \<noteq> [] \<and> last l = CHR 0x0D then butlast l else l)"

definition rawLines :: "string \<Rightarrow> string list" where
  "rawLines s = (let ls = Split (CHR 0x0A) s in if last ls = [] then butlast ls else ls)"

text \<open>
  \<open>bufio.Scanner\<close> with \<open>ScanLines\<close>: the tokens of successive \<open>Scan\<close> calls, and whether the scan stopped
  with \<open>ErrTooLong\<close> because a line does not fit the 64 KiB token buffer.
\<close>

definition maxTokenSize :: nat where
  "maxTokenSize = 65536"

definition scanLines :: "string \<Rightarrow> string list \<times> bool" where
  "scanLines s = (let ls = rawLines s; ok = takeWhile (\<lambda>l. length l < maxTokenSize) ls
     in (map dropCR ok, length ok < length ls))"

text \<open>Repeated \<open>bufio.Reader.ReadLine\<close>: no length limit, a final unterminated line is kept as it is.\<close>

definition readLines :: "string \<Rightarrow> string list" where
  "readLines s = (let ls = Split (CHR 0x0A) s
     in map dropCR (butlast ls) @ (if last ls = [] then [] else [last ls]))"

text \<open>The text made of terminated lines.\<close>

definition printLines :: "string list \<Rightarrow> string" where
  "printLines ls = concat (map (\<lambda>l. l @ [CHR 0x0A]) ls)"

lemma Split_printLines:
  "\<forall>l \<in> set ls. CHR 0x0A \<notin> set l \<Longrightarrow> Split (CHR 0x0A) (printLines ls) = ls @ [[]]"
  by (induction ls) (simp_all add: printLines_def Split_cons)

lemma scanLines_printLines:
  assumes "\<forall>l \<in> set ls. CHR 0x0A \<notin> set l \<and> CHR 0x0D \<notin> set l \<and> length l < maxTokenSize"
  shows "scanLines (printLines ls) = (ls, False)"
proof -
  have "rawLines (printLines ls) = ls"
    using assms by (simp add: rawLines_def Split_printLines)
  moreover have "takeWhile (\<lambda>l. length l < maxTokenSize) ls = ls"
    using assms by (simp add: takeWhile_eq_all_conv)
  moreover have "map dropCR ls = ls"
    using assms last_in_set by (intro map_idI) (fastforce simp: dropCR_def)
  ultimately show ?thesis unfolding scanLines_def Let_def by (simp only: less_irrefl)
qed

end
