(* ===== verification/Device.thy ===== *)
theory Device
  imports Go_Strings
begin

unbundle bit_operations_syntax

text \<open>
  \<open>libcontainer/devices/device.go\<close>: device types, the string-encoded permission sets and the device
  rules that every cgroup component exchanges.  The set operations on \<open>Permissions\<close> go through a bit
  mask (\<open>toSet\<close>, \<open>fromSet\<close>); the locale \<open>permission_algebra\<close> states what their clients rely on, the
  interpretation \<open>perms\<close> discharges it for the code's string representation.
\<close>

section \<open>Data and operations\<close>

text \<open>\<open>devices.Type\<close> is a rune; a rune is its code point.\<close>

type_synonym DevType = int

definition WildcardDevice :: DevType where
  "WildcardDevice = of_char CHR ''a''"

definition BlockDevice :: DevType where
  "BlockDevice = of_char CHR ''b''"

definition CharDevice :: DevType where
  "CharDevice = of_char CHR ''c''"

definition FifoDevice :: DevType where
  "FifoDevice = of_char CHR ''p''"

definition Wildcard :: int where
  "Wildcard = -1"

definition Type_IsValid :: "DevType \<Rightarrow> bool" where
  "Type_IsValid t \<longleftrightarrow> t \<in> {WildcardDevice, BlockDevice, CharDevice, FifoDevice}"

definition CanMknod :: "DevType \<Rightarrow> bool" where
  "CanMknod t \<longleftrightarrow> t \<in> {BlockDevice, CharDevice, FifoDevice}"

definition CanCgroup :: "DevType \<Rightarrow> bool" where
  "CanCgroup t \<longleftrightarrow> t \<in> {WildcardDevice, BlockDevice, CharDevice}"

type_synonym Permissions = string

definition deviceRead :: "64 word" where
  "deviceRead = push_bit 0 1"

definition deviceWrite :: "64 word" where
  "deviceWrite = push_bit 1 1"

definition deviceMknod :: "64 word" where
  "deviceMknod = push_bit 2 1"

definition toSetStep :: "64 word \<Rightarrow> char \<Rightarrow> 64 word" where
  "toSetStep bs perm =
     (if perm = CHR ''r'' then bs OR deviceRead
      else if perm = CHR ''w'' then bs OR deviceWrite
      else if perm = CHR ''m'' then bs OR deviceMknod
      else bs)"

definition toSet :: "Permissions \<Rightarrow> 64 word" where
  "toSet p = foldl toSetStep 0 p"

definition fromSet :: "64 word \<Rightarrow> Permissions" where
  "fromSet bs =
     (if bs AND deviceRead = deviceRead then ''r'' else '''') @
     (if bs AND deviceWrite = deviceWrite then ''w'' else '''') @
     (if bs AND deviceMknod = deviceMknod then ''m'' else '''')"

definition PermUnion :: "Permissions \<Rightarrow> Permissions \<Rightarrow> Permissions" where
  "PermUnion p q = fromSet (toSet p OR toSet q)"

definition PermDifference :: "Permissions \<Rightarrow> Permissions \<Rightarrow> Permissions" where
  "PermDifference p q = fromSet (toSet p AND NOT (toSet q))"

definition PermIntersection :: "Permissions \<Rightarrow> Permissions \<Rightarrow> Permissions" where
  "PermIntersection p q = fromSet (toSet p AND toSet q)"

definition IsEmpty :: "Permissions \<Rightarrow> bool" where
  "IsEmpty p \<longleftrightarrow> p = []"

definition IsValid :: "Permissions \<Rightarrow> bool" where
  "IsValid p \<longleftrightarrow> p = fromSet (toSet p)"

record Rule =
  Type :: DevType
  Major :: int
  Minor :: int
  Perms :: Permissions
  Allow :: bool

text \<open>\<open>fmt.Sprintf("%c", t)\<close> of an ASCII rune.\<close>

definition runeString :: "DevType \<Rightarrow> string" where
  "runeString t = [char_of t]"

definition CgroupString :: "Rule \<Rightarrow> string" where
  "CgroupString d =
     (let major = (if Major d = Wildcard then ''*'' else Itoa (Major d));
          minor = (if Minor d = Wildcard then ''*'' else Itoa (Minor d))
      in runeString (Type d) @ '' '' @ major @ '':'' @ minor @ '' '' @ Perms d)"

section \<open>The contract of permission sets\<close>

text \<open>
  \<open>abs\<close> reads a representation as a set of access modes.  The operations are the set operations
  under \<open>abs\<close>, their results are canonical, and canonical representations are determined by
  their set.
\<close>

locale permission_algebra =
  fixes canon :: "'p \<Rightarrow> bool"
    and abs :: "'p \<Rightarrow> 'm set"
    and union :: "'p \<Rightarrow> 'p \<Rightarrow> 'p"
    and difference :: "'p \<Rightarrow> 'p \<Rightarrow> 'p"
    and intersection :: "'p \<Rightarrow> 'p \<Rightarrow> 'p"
    and isEmpty :: "'p \<Rightarrow> bool"
  assumes abs_union: "abs (union p q) = abs p \<union> abs q"
    and abs_difference: "abs (difference p q) = abs p - abs q"
    and abs_intersection: "abs (intersection p q) = abs p \<inter> abs q"
    and canon_union: "canon (union p q)"
    and canon_difference: "canon (difference p q)"
    and canon_intersection: "canon (intersection p q)"
    and abs_inject: "canon p \<Longrightarrow> canon q \<Longrightarrow> abs p = abs q \<Longrightarrow> p = q"
    and isEmpty_iff: "canon p \<Longrightarrow> isEmpty p \<longleftrightarrow> abs p = {}"
begin

lemmas abs_simps = abs_union abs_difference abs_intersection
lemmas canon_intros = canon_union canon_difference canon_intersection

lemma canon_eqI: "canon p \<Longrightarrow> canon q \<Longrightarrow> (\<And>x. x \<in> abs p \<longleftrightarrow> x \<in> abs q) \<Longrightarrow> p = q"
  by (rule abs_inject) auto

lemma union_absorb: "canon p \<Longrightarrow> abs q \<subseteq> abs p \<Longrightarrow> union p q = p"
  by (rule canon_eqI) (auto simp: abs_simps canon_intros)

lemma difference_empty_iff: "isEmpty (difference p q) \<longleftrightarrow> abs p \<subseteq> abs q"
  by (simp add: isEmpty_iff canon_difference abs_difference Diff_eq_empty_iff)

lemma intersection_empty_iff: "isEmpty (intersection p q) \<longleftrightarrow> abs p \<inter> abs q = {}"
  by (simp add: isEmpty_iff canon_intersection abs_intersection)

text \<open>Dropping what is not wanted and adding what is missing reaches the wanted set.\<close>

lemma drop_then_gain:
  "canon new \<Longrightarrow>
   union (difference new old) (difference old (difference old new)) = new"
  by (rule canon_eqI) (auto simp: abs_simps canon_intros)

lemma gain_from_nothing: "canon new \<Longrightarrow> abs none = {} \<Longrightarrow> union (difference new none) none = new"
  by (rule canon_eqI) (auto simp: abs_simps canon_intros)

end

section \<open>The string representation meets the contract\<close>

definition permSet :: "Permissions \<Rightarrow> char set" where
  "permSet p = set p \<inter> {CHR ''r'', CHR ''w'', CHR ''m''}"

lemma bit_push1: "bit (push_bit k 1 :: 64 word) n \<longleftrightarrow> n = k \<and> k < 64"
  using bit_exp_iff [of k n, where 'a = "64 word"] by (auto simp: push_bit_of_1)

lemma bit_device:
  "bit deviceRead n \<longleftrightarrow> n = 0" "bit deviceWrite n \<longleftrightarrow> n = 1" "bit deviceMknod n \<longleftrightarrow> n = 2"
  unfolding deviceRead_def deviceWrite_def deviceMknod_def bit_push1 by simp_all

lemma and_eq_iff_bits: "(a::64 word) AND b = b \<longleftrightarrow> (\<forall>n. bit b n \<longrightarrow> bit a n)"
proof
  assume eq: "a AND b = b"
  show "\<forall>n. bit b n \<longrightarrow> bit a n"
  proof (intro allI impI)
    fix n assume "bit b n"
    then have "bit (a AND b) n" by (simp only: eq)
    then show "bit a n" by (simp add: bit_and_iff)
  qed
qed (auto intro!: bit_eqI simp: bit_and_iff)

lemma and_device_iff:
  "a AND deviceRead = deviceRead \<longleftrightarrow> bit a 0" "a AND deviceWrite = deviceWrite \<longleftrightarrow> bit a 1"
  "a AND deviceMknod = deviceMknod \<longleftrightarrow> bit a 2"
  unfolding and_eq_iff_bits bit_device by simp_all

lemma bit_toSetStep:
  "bit (toSetStep s c) n \<longleftrightarrow>
     bit s n \<or> (n = 0 \<and> c = CHR ''r'') \<or> (n = 1 \<and> c = CHR ''w'') \<or> (n = 2 \<and> c = CHR ''m'')"
  by (simp add: toSetStep_def bit_or_iff bit_device)

lemma toSet_foldl_bits:
  "bit (foldl toSetStep s p) n \<longleftrightarrow>
     bit s n \<or> (n = 0 \<and> CHR ''r'' \<in> set p) \<or> (n = 1 \<and> CHR ''w'' \<in> set p) \<or> (n = 2 \<and> CHR ''m'' \<in> set p)"
proof (induction p arbitrary: s)
  case (Cons c p)
  show ?case unfolding foldl_Cons Cons.IH bit_toSetStep set_simps by blast
qed simp

lemma bit_toSet:
  "bit (toSet p) n \<longleftrightarrow>
     (n = 0 \<and> CHR ''r'' \<in> set p) \<or> (n = 1 \<and> CHR ''w'' \<in> set p) \<or> (n = 2 \<and> CHR ''m'' \<in> set p)"
  by (simp add: toSet_def toSet_foldl_bits)

lemma fromSet_bits:
  "fromSet s =
     (if bit s 0 then ''r'' else '''') @ (if bit s 1 then ''w'' else '''') @
     (if bit s 2 then ''m'' else '''')"
  unfolding fromSet_def and_device_iff by (rule refl)

lemma set_fromSet:
  "set (fromSet s) = {c. (c = CHR ''r'' \<and> bit s 0) \<or> (c = CHR ''w'' \<and> bit s 1) \<or> (c = CHR ''m'' \<and> bit s 2)}"
  by (auto simp: fromSet_bits)

lemma bit_toSet_fromSet:
  "bit (toSet (fromSet s)) 0 = bit s 0" "bit (toSet (fromSet s)) 1 = bit s 1"
  "bit (toSet (fromSet s)) 2 = bit s 2"
  unfolding bit_toSet set_fromSet by simp_all

lemma IsValid_fromSet: "IsValid (fromSet s)"
  unfolding IsValid_def fromSet_bits [of "toSet (fromSet s)"] bit_toSet_fromSet
  by (rule fromSet_bits)

lemma permSet_alt:
  "permSet p =
     {c. (c = CHR ''r'' \<and> CHR ''r'' \<in> set p) \<or> (c = CHR ''w'' \<and> CHR ''w'' \<in> set p) \<or>
         (c = CHR ''m'' \<and> CHR ''m'' \<in> set p)}"
  unfolding permSet_def by auto

lemma permSet_fromSet:
  "permSet (fromSet s) =
     {c. (c = CHR ''r'' \<and> bit s 0) \<or> (c = CHR ''w'' \<and> bit s 1) \<or> (c = CHR ''m'' \<and> bit s 2)}"
  unfolding permSet_def set_fromSet by blast

lemma permSet_inject: "IsValid p \<Longrightarrow> IsValid q \<Longrightarrow> permSet p = permSet q \<Longrightarrow> p = q"
proof -
  assume v: "IsValid p" "IsValid q" and eq: "permSet p = permSet q"
  have "CHR ''r'' \<in> set p \<longleftrightarrow> CHR ''r'' \<in> set q" "CHR ''w'' \<in> set p \<longleftrightarrow> CHR ''w'' \<in> set q"
    "CHR ''m'' \<in> set p \<longleftrightarrow> CHR ''m'' \<in> set q"
    using arg_cong [OF eq, of "\<lambda>S. CHR ''r'' \<in> S"] arg_cong [OF eq, of "\<lambda>S. CHR ''w'' \<in> S"]
      arg_cong [OF eq, of "\<lambda>S. CHR ''m'' \<in> S"] by (simp_all add: permSet_def)
  then have "fromSet (toSet p) = fromSet (toSet q)"
    by (simp add: fromSet_bits bit_toSet)
  with v show ?thesis by (simp add: IsValid_def)
qed

lemma IsEmpty_permSet: "IsValid p \<Longrightarrow> IsEmpty p \<longleftrightarrow> permSet p = {}"
proof -
  assume "IsValid p"
  then have p: "p = fromSet (toSet p)" by (simp add: IsValid_def)
  have "permSet (fromSet (toSet p)) = set (fromSet (toSet p))"
    by (simp only: permSet_fromSet set_fromSet)
  with p have "permSet p = set p" by simp
  then show ?thesis by (simp add: IsEmpty_def)
qed

interpretation perms: permission_algebra IsValid permSet PermUnion PermDifference PermIntersection IsEmpty
proof
  fix p q :: Permissions
  show "permSet (PermUnion p q) = permSet p \<union> permSet q"
    unfolding PermUnion_def permSet_fromSet bit_or_iff bit_toSet
    unfolding permSet_alt by auto
  show "permSet (PermDifference p q) = permSet p - permSet q"
    unfolding PermDifference_def permSet_fromSet bit_and_iff bit_not_iff bit_toSet
    unfolding permSet_alt by auto
  show "permSet (PermIntersection p q) = permSet p \<inter> permSet q"
    unfolding PermIntersection_def permSet_fromSet bit_and_iff bit_toSet
    unfolding permSet_alt by auto
  show "IsValid (PermUnion p q)" "IsValid (PermDifference p q)" "IsValid (PermIntersection p q)"
    by (simp_all add: PermUnion_def PermDifference_def PermIntersection_def IsValid_fromSet)
  show "IsValid p \<Longrightarrow> IsValid q \<Longrightarrow> permSet p = permSet q \<Longrightarrow> p = q" by (rule permSet_inject)
  show "IsValid p \<Longrightarrow> IsEmpty p \<longleftrightarrow> permSet p = {}" by (rule IsEmpty_permSet)
qed

lemma permSet_Nil [simp]: "permSet [] = {}"
  by (simp add: permSet_def)

lemma IsValid_Nil [simp]: "IsValid []"
  by (simp add: IsValid_def fromSet_bits bit_toSet)

lemma IsValid_set: "IsValid p \<Longrightarrow> set p \<subseteq> {CHR ''r'', CHR ''w'', CHR ''m''}"
proof -
  assume "IsValid p"
  then have "set p = set (fromSet (toSet p))" by (simp add: IsValid_def)
  then show ?thesis by (auto simp: set_fromSet)
qed

lemma permSet_valid: "IsValid p \<Longrightarrow> permSet p = set p"
  using IsValid_set by (auto simp: permSet_def)

end
