(* ===== verification/Devices_Emulator.thy ===== *)
theory Devices_Emulator
  imports Device
begin

text \<open>
  \<open>libcontainer/cgroups/devices/devices_emulator.go\<close>: the emulation of the cgroup-v1 devices
  controller.  An \<open>Emulator\<close> is a default policy with a finite map of exceptions; rules are applied
  one at a time (\<open>EmuApply\<close>), read back from a \<open>devices.list\<close> file (\<open>EmulatorFromList\<close>), and two
  emulators are connected by the rule list \<open>Transition\<close>.  The theorems show the type invariant, that
  replaying a transition reaches exactly the target, and that printing and re-reading the rules of
  an allow-list emulator gives the emulator back.
\<close>

section \<open>Data\<close>

datatype deviceMeta = DeviceMeta (node: DevType) (major: int) (minor: int)

record deviceRule =
  dmeta :: deviceMeta
  dperms :: Permissions

type_synonym deviceRules = "(deviceMeta, Permissions) fmap"

record Emulator =
  defaultAllow :: bool
  rules :: deviceRules

text \<open>The comparison of \<open>orderedEntries\<close>: by major, then minor, then type.\<close>

instantiation deviceMeta :: linorder
begin

definition less_eq_deviceMeta :: "deviceMeta \<Rightarrow> deviceMeta \<Rightarrow> bool" where
  "less_eq_deviceMeta a b \<longleftrightarrow>
     major a < major b \<or>
     (major a = major b \<and> minor a < minor b) \<or>
     (major a = major b \<and> minor a = minor b \<and> node a \<le> node b)"

definition less_deviceMeta :: "deviceMeta \<Rightarrow> deviceMeta \<Rightarrow> bool" where
  "less_deviceMeta a b \<longleftrightarrow>
     major a < major b \<or>
     (major a = major b \<and> minor a < minor b) \<or>
     (major a = major b \<and> minor a = minor b \<and> node a < node b)"

instance
  by standard (auto simp: less_eq_deviceMeta_def less_deviceMeta_def intro: deviceMeta.expand)

end

datatype emu_error =
    MalformedRule string
  | UnknownType string
  | InvalidMajor conv_error
  | InvalidMinor conv_error
  | BadAccessMode string
  | HoleInWildcard deviceMeta Permissions deviceMeta Permissions
  | NonCgroupType Rule
  | LineTooLong
  | WrapErr string emu_error

section \<open>Operations\<close>

definition orderedEntries :: "deviceRules \<Rightarrow> (deviceMeta \<times> Permissions) list" where
  "orderedEntries r = sorted_list_of_fmap r"

definition IsBlacklist :: "Emulator \<Rightarrow> bool" where
  "IsBlacklist e = defaultAllow e"

definition IsAllowAll :: "Emulator \<Rightarrow> bool" where
  "IsAllowAll e \<longleftrightarrow> IsBlacklist e \<and> rules e = fmempty"

definition emuParseLine :: "string \<Rightarrow> (emu_error, deviceRule option) result" where
  "emuParseLine line =
     (case FieldsFunc (\<lambda>c. c = CHR '' '' \<or> c = CHR '':'') line of
        [nd, maj, mnr, prms] \<Rightarrow>
          (if nd = ''a'' then Inr None
           else rbind (if nd = ''b'' then Inr BlockDevice
                       else if nd = ''c'' then Inr CharDevice
                       else Inl (UnknownType nd)) (\<lambda>t.
             rbind (if maj = ''*'' then Inr Wildcard
                    else case ParseUint 32 maj of
                           (val, None) \<Rightarrow> Inr (int val)
                         | (_, Some err) \<Rightarrow> Inl (InvalidMajor err)) (\<lambda>mj.
             rbind (if mnr = ''*'' then Inr Wildcard
                    else case ParseUint 32 mnr of
                           (val, None) \<Rightarrow> Inr (int val)
                         | (_, Some err) \<Rightarrow> Inl (InvalidMinor err)) (\<lambda>mi.
             rguard (\<not> IsValid prms \<or> IsEmpty prms) (BadAccessMode prms)
               (Inr (Some \<lparr>dmeta = DeviceMeta t mj mi, dperms = prms\<rparr>))))))
      | _ \<Rightarrow> Inl (MalformedRule line))"

definition addRule :: "deviceRule \<Rightarrow> Emulator \<Rightarrow> (emu_error, Emulator) result" where
  "addRule rule e =
     (let oldPerms = fmget [] (rules e) (dmeta rule);
          newPerms = PermUnion (dperms rule) oldPerms
      in Inr (e\<lparr>rules := fmupd (dmeta rule) newPerms (rules e)\<rparr>))"

definition partialMetas :: "deviceMeta \<Rightarrow> deviceMeta list" where
  "partialMetas m =
     [DeviceMeta (node m) Wildcard (minor m),
      DeviceMeta (node m) (major m) Wildcard,
      DeviceMeta (node m) Wildcard Wildcard]"

definition checkHole :: "deviceRule \<Rightarrow> deviceRules \<Rightarrow> deviceMeta \<Rightarrow> unit \<Rightarrow> (emu_error, unit) result" where
  "checkHole rule rs partialMeta u =
     (if dmeta rule = partialMeta then Inr ()
      else let partialPerms = fmget [] rs partialMeta
           in rguard (\<not> IsEmpty (PermIntersection partialPerms (dperms rule)))
                (HoleInWildcard (dmeta rule) (dperms rule) partialMeta partialPerms) (Inr ()))"

definition rmRule :: "deviceRule \<Rightarrow> Emulator \<Rightarrow> (emu_error, Emulator) result" where
  "rmRule rule e =
     rbind (rfold (checkHole rule (rules e)) (partialMetas (dmeta rule)) ()) (\<lambda>_.
       let newPerms = PermDifference (fmget [] (rules e) (dmeta rule)) (dperms rule)
       in Inr (if IsEmpty newPerms then e\<lparr>rules := fmdrop (dmeta rule) (rules e)\<rparr>
               else e\<lparr>rules := fmupd (dmeta rule) newPerms (rules e)\<rparr>))"

definition wrapErr :: "string \<Rightarrow> (emu_error, 'a) result \<Rightarrow> (emu_error, 'a) result" where
  "wrapErr txt r = (case r of Inl e \<Rightarrow> Inl (WrapErr txt e) | Inr x \<Rightarrow> Inr x)"

definition allow :: "deviceRule option \<Rightarrow> Emulator \<Rightarrow> (emu_error, Emulator) result" where
  "allow rule e =
     (case rule of
        None \<Rightarrow> Inr \<lparr>defaultAllow = True, rules = fmempty\<rparr>
      | Some r \<Rightarrow>
          (if node (dmeta r) = WildcardDevice then Inr \<lparr>defaultAllow = True, rules = fmempty\<rparr>
           else if defaultAllow e then wrapErr ''unable to remove 'deny' exception'' (rmRule r e)
           else wrapErr ''unable to add 'allow' exception'' (addRule r e)))"

definition deny :: "deviceRule option \<Rightarrow> Emulator \<Rightarrow> (emu_error, Emulator) result" where
  "deny rule e =
     (case rule of
        None \<Rightarrow> Inr \<lparr>defaultAllow = False, rules = fmempty\<rparr>
      | Some r \<Rightarrow>
          (if node (dmeta r) = WildcardDevice then Inr \<lparr>defaultAllow = False, rules = fmempty\<rparr>
           else if defaultAllow e then wrapErr ''unable to add 'deny' exception'' (addRule r e)
           else wrapErr ''unable to remove 'allow' exception'' (rmRule r e)))"

definition EmuApply :: "Rule \<Rightarrow> Emulator \<Rightarrow> (emu_error, Emulator) result" where
  "EmuApply rule e =
     rguard (\<not> CanCgroup (Type rule)) (NonCgroupType rule)
       (let innerRule =
              (if Type rule = WildcardDevice then None
               else Some \<lparr>dmeta = DeviceMeta (Type rule) (Major rule) (Minor rule),
                          dperms = Perms rule\<rparr>)
        in if Allow rule then allow innerRule e else deny innerRule e)"

definition newEmulator :: Emulator where
  "newEmulator = \<lparr>defaultAllow = False, rules = fmempty\<rparr>"

definition EmulatorFromList :: "string \<Rightarrow> (emu_error, Emulator) result" where
  "EmulatorFromList lst =
     (case scanLines lst of
        (lines, tooLong) \<Rightarrow>
          rbind (rfold (\<lambda>line e. rbind (emuParseLine line) (\<lambda>r. allow r e)) lines newEmulator)
            (\<lambda>e. rguard tooLong LineTooLong (Inr e)))"

definition ruleFor :: "deviceMeta \<Rightarrow> Permissions \<Rightarrow> bool \<Rightarrow> Rule" where
  "ruleFor m p a = \<lparr>Type = node m, Major = major m, Minor = minor m, Perms = p, Allow = a\<rparr>"

text \<open>The two loops of \<open>Transition\<close>: inverse rules for what the target lacks, rules for what it adds.\<close>

definition droppedRules :: "bool \<Rightarrow> deviceRules \<Rightarrow> (deviceMeta \<times> Permissions) list \<Rightarrow> Rule list" where
  "droppedRules d target es =
     concat (map (\<lambda>(meta, oldPerms).
       let droppedPerms = PermDifference oldPerms (fmget [] target meta)
       in if IsEmpty droppedPerms then [] else [ruleFor meta droppedPerms d]) es)"

definition gainedRules :: "bool \<Rightarrow> deviceRules \<Rightarrow> (deviceMeta \<times> Permissions) list \<Rightarrow> Rule list" where
  "gainedRules d old es =
     concat (map (\<lambda>(meta, newPerms).
       let gainedPerms = PermDifference newPerms (fmget [] old meta)
       in if IsEmpty gainedPerms then [] else [ruleFor meta gainedPerms (\<not> d)]) es)"

definition Transition :: "Emulator \<Rightarrow> Emulator \<Rightarrow> Rule list" where
  "Transition source target =
     (let disruptive = IsBlacklist source \<or> defaultAllow source \<noteq> defaultAllow target;
          oldRules = (if disruptive then fmempty else rules source);
          prefixRules =
            (if disruptive
             then [\<lparr>Type = WildcardDevice, Major = -1, Minor = -1, Perms = ''rwm'',
                    Allow = defaultAllow target\<rparr>]
             else [])
      in prefixRules @
         droppedRules (defaultAllow target) (rules target) (orderedEntries oldRules) @
         gainedRules (defaultAllow target) oldRules (orderedEntries (rules target)))"

definition EmuRules :: "Emulator \<Rightarrow> Rule list" where
  "EmuRules e = Transition newEmulator e"

text \<open>Writing a rule list to a devices cgroup, rule by rule.\<close>

definition EmuApplyAll :: "Rule list \<Rightarrow> Emulator \<Rightarrow> (emu_error, Emulator) result" where
  "EmuApplyAll rs e = rfold EmuApply rs e"

section \<open>The type invariant\<close>

text \<open>Every exception has canonical, non-empty permissions and a block or character device key.\<close>

definition entryOK :: "deviceMeta \<Rightarrow> Permissions \<Rightarrow> bool" where
  "entryOK k p \<longleftrightarrow> IsValid p \<and> p \<noteq> [] \<and> (node k = BlockDevice \<or> node k = CharDevice)"

definition emuWF :: "Emulator \<Rightarrow> bool" where
  "emuWF e \<longleftrightarrow> fmpred entryOK (rules e)"

lemma devtype_simps [simp]:
  "WildcardDevice \<noteq> BlockDevice" "WildcardDevice \<noteq> CharDevice" "BlockDevice \<noteq> CharDevice"
  "BlockDevice \<noteq> WildcardDevice" "CharDevice \<noteq> WildcardDevice" "CharDevice \<noteq> BlockDevice"
  by (simp_all add: WildcardDevice_def BlockDevice_def CharDevice_def)

lemma CanCgroup_iff: "CanCgroup t \<longleftrightarrow> t = WildcardDevice \<or> t = BlockDevice \<or> t = CharDevice"
  by (auto simp: CanCgroup_def)

lemma emuWF_lookup: "emuWF e \<Longrightarrow> fmlookup (rules e) k = Some p \<Longrightarrow> entryOK k p"
  by (auto simp: emuWF_def fmpred_iff)

lemma emuWF_get: "emuWF e \<Longrightarrow> IsValid (fmget [] (rules e) k)"
  by (auto simp: fmget_def entryOK_def split: option.split dest: emuWF_lookup)

lemma emuWF_empty [simp]: "emuWF \<lparr>defaultAllow = d, rules = fmempty\<rparr>"
  by (simp add: emuWF_def)

lemma emuWF_upd: "emuWF e \<Longrightarrow> entryOK k p \<Longrightarrow> emuWF (e\<lparr>rules := fmupd k p (rules e)\<rparr>)"
  by (auto simp: emuWF_def intro: fmpred_upd)

lemma emuWF_drop: "emuWF e \<Longrightarrow> emuWF (e\<lparr>rules := fmdrop k (rules e)\<rparr>)"
  by (auto simp: emuWF_def intro: fmpred_drop)

lemma wrapErr_Inr_iff [simp]: "wrapErr txt r = Inr x \<longleftrightarrow> r = Inr x"
  by (cases r) (simp_all add: wrapErr_def)

definition rmMap :: "deviceMeta \<Rightarrow> Permissions \<Rightarrow> deviceRules \<Rightarrow> deviceRules" where
  "rmMap k p m =
     (let n = PermDifference (fmget [] m k) p in if IsEmpty n then fmdrop k m else fmupd k n m)"

lemma rmRule_Inr:
  "rmRule r e = Inr e' \<longleftrightarrow>
   is_ok (rfold (checkHole r (rules e)) (partialMetas (dmeta r)) ()) \<and>
   e' = e\<lparr>rules := rmMap (dmeta r) (dperms r) (rules e)\<rparr>"
  by (cases "rfold (checkHole r (rules e)) (partialMetas (dmeta r)) ()")
    (auto simp: rmRule_def rmMap_def Let_def)

lemma addRule_wf:
  "emuWF e \<Longrightarrow> permSet (dperms r) \<noteq> {} \<Longrightarrow> node (dmeta r) = BlockDevice \<or> node (dmeta r) = CharDevice \<Longrightarrow>
   addRule r e = Inr e' \<Longrightarrow> emuWF e'"
proof -
  assume wf: "emuWF e" and ne: "permSet (dperms r) \<noteq> {}"
    and nd: "node (dmeta r) = BlockDevice \<or> node (dmeta r) = CharDevice" and eq: "addRule r e = Inr e'"
  let ?n = "PermUnion (dperms r) (fmget [] (rules e) (dmeta r))"
  have "permSet ?n \<noteq> {}" using ne by (auto simp: perms.abs_union)
  then have "?n \<noteq> []" by auto
  with nd have "entryOK (dmeta r) ?n" by (simp add: entryOK_def perms.canon_union)
  with wf eq show ?thesis by (auto simp: addRule_def Let_def emuWF_upd)
qed

lemma rmRule_wf: "emuWF e \<Longrightarrow> rmRule r e = Inr e' \<Longrightarrow> emuWF e'"
  unfolding rmRule_Inr
proof (elim conjE)
  assume wf: "emuWF e" and e': "e' = e\<lparr>rules := rmMap (dmeta r) (dperms r) (rules e)\<rparr>"
  let ?n = "PermDifference (fmget [] (rules e) (dmeta r)) (dperms r)"
  show ?thesis
  proof (cases "IsEmpty ?n")
    case True
    with wf e' show ?thesis by (simp add: rmMap_def emuWF_drop)
  next
    case False
    then have "permSet ?n \<noteq> {}" by (simp add: perms.isEmpty_iff perms.canon_difference)
    then have "permSet (fmget [] (rules e) (dmeta r)) \<noteq> {}" by (auto simp: perms.abs_difference)
    then obtain p where "fmlookup (rules e) (dmeta r) = Some p"
      by (auto simp: fmget_def split: option.splits)
    with wf have "node (dmeta r) = BlockDevice \<or> node (dmeta r) = CharDevice"
      by (auto simp: entryOK_def dest: emuWF_lookup)
    with False have "entryOK (dmeta r) ?n"
      by (simp add: entryOK_def perms.canon_difference IsEmpty_def)
    with False wf e' show ?thesis by (simp add: rmMap_def emuWF_upd)
  qed
qed

lemma EmuApply_wf:
  assumes "emuWF e" and "permSet (Perms r) \<noteq> {}" and "EmuApply r e = Inr e'"
  shows "emuWF e'"
  using assms addRule_wf [of e "\<lparr>dmeta = DeviceMeta (Type r) (Major r) (Minor r), dperms = Perms r\<rparr>" e']
    rmRule_wf [of e "\<lparr>dmeta = DeviceMeta (Type r) (Major r) (Minor r), dperms = Perms r\<rparr>" e']
  by (auto simp: EmuApply_def rguard_Inr_iff CanCgroup_iff allow_def deny_def Let_def
      split: if_splits)

lemma EmuApplyAll_wf:
  assumes "EmuApplyAll rs e = Inr e'" and "emuWF e" and "\<forall>r \<in> set rs. permSet (Perms r) \<noteq> {}"
  shows "emuWF e'"
  using assms(1,2) unfolding EmuApplyAll_def
  by (rule rfold_invariant) (meson EmuApply_wf assms(3))

section \<open>Replaying a transition\<close>

text \<open>The effect of one dropped or gained entry on the exception map.\<close>

definition dropStep :: "deviceRules \<Rightarrow> deviceMeta \<times> Permissions \<Rightarrow> deviceRules \<Rightarrow> deviceRules" where
  "dropStep target e m =
     (let d = PermDifference (snd e) (fmget [] target (fst e))
      in if IsEmpty d then m else rmMap (fst e) d m)"

definition gainStep :: "deviceRules \<Rightarrow> deviceMeta \<times> Permissions \<Rightarrow> deviceRules \<Rightarrow> deviceRules" where
  "gainStep old e m =
     (let g = PermDifference (snd e) (fmget [] old (fst e))
      in if IsEmpty g then m else fmupd (fst e) (PermUnion g (fmget [] m (fst e))) m)"

lemma get_rmMap: "fmget [] (rmMap k p m) k' =
  (if k' = k then PermDifference (fmget [] m k) p else fmget [] m k')"
  by (auto simp: rmMap_def Let_def IsEmpty_def)

lemma diff_none: "IsValid p \<Longrightarrow> permSet q = {} \<Longrightarrow> PermDifference p q = p"
  by (rule perms.canon_eqI) (auto simp: perms.abs_simps perms.canon_intros)

lemma union_none: "IsValid p \<Longrightarrow> permSet q = {} \<Longrightarrow> PermUnion q p = p"
  by (rule perms.canon_eqI) (auto simp: perms.abs_simps perms.canon_intros)

lemma IsEmpty_PermDifference: "IsEmpty (PermDifference p q) \<Longrightarrow> permSet (PermDifference p q) = {}"
  by (simp add: perms.isEmpty_iff perms.canon_difference)

lemma diff_subset: "permSet p \<subseteq> permSet q \<Longrightarrow> PermDifference p q = []"
  using perms.difference_empty_iff [of p q] by (simp add: IsEmpty_def)

lemma get_dropStep:
  "IsValid (fmget [] m (fst e)) \<Longrightarrow>
   fmget [] (dropStep target e m) k =
     (if k = fst e
      then PermDifference (fmget [] m k) (PermDifference (snd e) (fmget [] target k))
      else fmget [] m k)"
  by (auto simp: dropStep_def Let_def get_rmMap diff_none IsEmpty_PermDifference)

lemma get_gainStep:
  "IsValid (fmget [] m (fst e)) \<Longrightarrow>
   fmget [] (gainStep old e m) k =
     (if k = fst e
      then PermUnion (PermDifference (snd e) (fmget [] old k)) (fmget [] m k)
      else fmget [] m k)"
  by (auto simp: gainStep_def Let_def union_none IsEmpty_PermDifference)

definition allValid :: "deviceRules \<Rightarrow> bool" where
  "allValid m \<longleftrightarrow> (\<forall>k. IsValid (fmget [] m k))"

lemma allValid_dropStep: "allValid m \<Longrightarrow> allValid (dropStep t e m)"
  by (simp add: allValid_def get_dropStep perms.canon_difference)

lemma allValid_gainStep: "allValid m \<Longrightarrow> allValid (gainStep t e m)"
  by (simp add: allValid_def get_gainStep perms.canon_union)

lemma get_fold_drop:
  assumes "distinct (map fst es)" and "allValid m"
  shows "fmget [] (fold (dropStep target) es m) k =
    (case map_of es k of None \<Rightarrow> fmget [] m k
     | Some old \<Rightarrow> PermDifference (fmget [] m k) (PermDifference old (fmget [] target k)))"
  using assms
proof (induction es arbitrary: m)
  case (Cons e es)
  then have "fmget [] (fold (dropStep target) es (dropStep target e m)) k =
    (case map_of es k of None \<Rightarrow> fmget [] (dropStep target e m) k
     | Some old \<Rightarrow> PermDifference (fmget [] (dropStep target e m) k)
         (PermDifference old (fmget [] target k)))"
    by (intro Cons.IH) (simp_all add: allValid_dropStep)
  moreover have "map_of es (fst e) = None"
    using Cons.prems(1) by (simp add: map_of_eq_None_iff)
  moreover have "IsValid (fmget [] m (fst e))" using Cons.prems(2) by (simp add: allValid_def)
  ultimately show ?case by (cases e) (auto simp: get_dropStep split: option.split)
qed simp

lemma get_fold_gain:
  assumes "distinct (map fst es)" and "allValid m"
  shows "fmget [] (fold (gainStep old) es m) k =
    (case map_of es k of None \<Rightarrow> fmget [] m k
     | Some new \<Rightarrow> PermUnion (PermDifference new (fmget [] old k)) (fmget [] m k))"
  using assms
proof (induction es arbitrary: m)
  case (Cons e es)
  then have "fmget [] (fold (gainStep old) es (gainStep old e m)) k =
    (case map_of es k of None \<Rightarrow> fmget [] (gainStep old e m) k
     | Some new \<Rightarrow> PermUnion (PermDifference new (fmget [] old k)) (fmget [] (gainStep old e m) k))"
    by (intro Cons.IH) (simp_all add: allValid_gainStep)
  moreover have "map_of es (fst e) = None"
    using Cons.prems(1) by (simp add: map_of_eq_None_iff)
  moreover have "IsValid (fmget [] m (fst e))" using Cons.prems(2) by (simp add: allValid_def)
  ultimately show ?case by (cases e) (auto simp: get_gainStep split: option.split)
qed simp

text \<open>Exception maps without empty values are determined by what \<open>fmget\<close> reads from them.\<close>

lemma noEmpty_eqI:
  assumes "\<And>k. fmlookup m k \<noteq> Some []" and "\<And>k. fmlookup m' k \<noteq> Some []"
    and "\<And>k. fmget [] m k = fmget [] m' k"
  shows "m = m'"
proof (rule fmap_ext)
  fix k
  show "fmlookup m k = fmlookup m' k"
    using assms(1) [of k] assms(2) [of k] assms(3) [of k]
    by (cases "fmlookup m k"; cases "fmlookup m' k") (auto simp: fmget_def)
qed

lemma noEmpty_rmMap: "\<forall>k. fmlookup m k \<noteq> Some [] \<Longrightarrow> \<forall>k. fmlookup (rmMap k' p m) k \<noteq> Some []"
  by (auto simp: rmMap_def Let_def IsEmpty_def)

lemma noEmpty_dropStep: "\<forall>k. fmlookup m k \<noteq> Some [] \<Longrightarrow> \<forall>k. fmlookup (dropStep t e m) k \<noteq> Some []"
  using noEmpty_rmMap by (simp add: dropStep_def Let_def)

lemma noEmpty_gainStep: "\<forall>k. fmlookup m k \<noteq> Some [] \<Longrightarrow> \<forall>k. fmlookup (gainStep t e m) k \<noteq> Some []"
proof -
  assume a: "\<forall>k. fmlookup m k \<noteq> Some []"
  let ?g = "PermDifference (snd e) (fmget [] t (fst e))"
  have "PermUnion ?g (fmget [] m (fst e)) \<noteq> []" if "\<not> IsEmpty ?g"
  proof -
    have "permSet ?g \<noteq> {}" using that by (simp add: perms.isEmpty_iff perms.canon_difference)
    then have "permSet (PermUnion ?g (fmget [] m (fst e))) \<noteq> {}" by (auto simp: perms.abs_union)
    then show ?thesis by auto
  qed
  with a show ?thesis by (auto simp: gainStep_def Let_def)
qed

lemma noEmpty_fold_drop:
  "\<forall>k. fmlookup m k \<noteq> Some [] \<Longrightarrow> \<forall>k. fmlookup (fold (dropStep t) es m) k \<noteq> Some []"
  by (induction es arbitrary: m) (simp_all add: noEmpty_dropStep)

lemma noEmpty_fold_gain:
  "\<forall>k. fmlookup m k \<noteq> Some [] \<Longrightarrow> \<forall>k. fmlookup (fold (gainStep t) es m) k \<noteq> Some []"
  by (induction es arbitrary: m) (simp_all add: noEmpty_gainStep)

lemma allValid_fold_drop: "allValid m \<Longrightarrow> allValid (fold (dropStep t) es m)"
  by (induction es arbitrary: m) (simp_all add: allValid_dropStep)

lemma emuWF_noEmpty: "emuWF e \<Longrightarrow> \<forall>k. fmlookup (rules e) k \<noteq> Some []"
  by (auto simp: entryOK_def dest: emuWF_lookup)

lemma emuWF_allValid: "emuWF e \<Longrightarrow> allValid (rules e)"
  by (simp add: allValid_def emuWF_get)

text \<open>First drop, then gain: from the old map exactly the target map.\<close>

lemma drop_gain_reaches:
  assumes "emuWF s" and "emuWF t"
  shows "fold (gainStep (rules s)) (orderedEntries (rules t))
           (fold (dropStep (rules t)) (orderedEntries (rules s)) (rules s)) = rules t"
proof (rule noEmpty_eqI)
  let ?m = "fold (dropStep (rules t)) (orderedEntries (rules s)) (rules s)"
  have dist: "distinct (map fst (orderedEntries m))" for m
    by (simp add: orderedEntries_def distinct_sorted_list_of_fmap)
  have mapof: "map_of (orderedEntries m) = fmlookup m" for m
    by (simp add: orderedEntries_def map_of_sorted_list)
  have valid: "allValid (rules s)" "allValid ?m" "IsValid (fmget [] (rules t) k)" for k
    using assms by (simp_all add: emuWF_allValid allValid_fold_drop emuWF_get)
  fix k
  have m: "fmget [] ?m k = PermDifference (fmget [] (rules s) k)
      (PermDifference (fmget [] (rules s) k) (fmget [] (rules t) k))"
    using get_fold_drop [OF dist [of "rules s"] valid(1), where target = "rules t" and k = k]
    by (simp add: mapof fmget_def [of _ "rules s"] diff_subset split: option.splits)
  show "fmget [] (fold (gainStep (rules s)) (orderedEntries (rules t)) ?m) k = fmget [] (rules t) k"
    using get_fold_gain [OF dist [of "rules t"] valid(2), where old = "rules s" and k = k] valid(3) [of k] perms.drop_then_gain
    by (auto simp: mapof m fmget_def [of _ "rules t"] perms.abs_difference diff_subset split: option.splits)
qed (use assms in \<open>simp_all add: emuWF_noEmpty noEmpty_fold_gain noEmpty_fold_drop\<close>)

lemma gainedRules_simps [simp]:
  "gainedRules d old [] = []"
  "gainedRules d old ((k, new) # es) =
     (let g = PermDifference new (fmget [] old k)
      in if IsEmpty g then [] else [ruleFor k g (\<not> d)]) @ gainedRules d old es"
  by (simp_all add: gainedRules_def)

lemma droppedRules_simps [simp]:
  "droppedRules d target [] = []"
  "droppedRules d target ((k, old) # es) =
     (let dp = PermDifference old (fmget [] target k)
      in if IsEmpty dp then [] else [ruleFor k dp d]) @ droppedRules d target es"
  by (simp_all add: droppedRules_def)

lemma EmuApplyAll_simps [simp]:
  "EmuApplyAll [] e = Inr e" "EmuApplyAll (r # rs) e = rbind (EmuApply r e) (EmuApplyAll rs)"
  by (simp_all add: EmuApplyAll_def fun_eq_iff cong: rbind_cong)

lemma EmuApply_ruleFor:
  assumes "node k = BlockDevice \<or> node k = CharDevice"
  shows "\<exists>txt. EmuApply (ruleFor k p a) e =
    wrapErr txt (if a = defaultAllow e then rmRule \<lparr>dmeta = k, dperms = p\<rparr> e
                 else addRule \<lparr>dmeta = k, dperms = p\<rparr> e)"
  using assms by (cases k) (auto simp: EmuApply_def ruleFor_def CanCgroup_iff allow_def deny_def)

lemma EmuApply_gain:
  assumes "node k = BlockDevice \<or> node k = CharDevice"
  shows "EmuApply (ruleFor k p (\<not> defaultAllow e)) e =
    Inr (e\<lparr>rules := fmupd k (PermUnion p (fmget [] (rules e) k)) (rules e)\<rparr>)"
  using EmuApply_ruleFor [OF assms, of p "\<not> defaultAllow e" e]
  by (auto simp: addRule_def wrapErr_def)

lemma replay_gained:
  assumes "\<forall>e \<in> set es. node (fst e) = BlockDevice \<or> node (fst e) = CharDevice"
  shows "EmuApplyAll (gainedRules (defaultAllow e) old es) e =
    Inr (e\<lparr>rules := fold (gainStep old) es (rules e)\<rparr>)"
  using assms
proof (induction es arbitrary: e)
  case (Cons x es)
  obtain k new where x: "x = (k, new)" by (cases x)
  let ?e = "e\<lparr>rules := gainStep old x (rules e)\<rparr>"
  have IH: "EmuApplyAll (gainedRules (defaultAllow e) old es) ?e =
      Inr (?e\<lparr>rules := fold (gainStep old) es (rules ?e)\<rparr>)"
    using Cons.IH [of ?e] Cons.prems by simp
  show ?case
  proof (cases "IsEmpty (PermDifference new (fmget [] old k))")
    case True
    then have "gainStep old x (rules e) = rules e" by (simp add: gainStep_def x)
    with IH True show ?thesis by (simp add: x)
  next
    case False
    then have "EmuApply (ruleFor k (PermDifference new (fmget [] old k)) (\<not> defaultAllow e)) e = Inr ?e"
      using Cons.prems EmuApply_gain [of k "PermDifference new (fmget [] old k)" e]
      by (simp add: gainStep_def x)
    with IH False show ?thesis by (simp add: x Let_def)
  qed
qed simp

lemma EmuApply_drop:
  assumes "node k = BlockDevice \<or> node k = CharDevice"
  shows "EmuApply (ruleFor k p (defaultAllow e)) e = Inr e' \<longleftrightarrow>
    is_ok (rfold (checkHole \<lparr>dmeta = k, dperms = p\<rparr> (rules e)) (partialMetas k) ()) \<and>
    e' = e\<lparr>rules := rmMap k p (rules e)\<rparr>"
proof -
  obtain msg where "EmuApply (ruleFor k p (defaultAllow e)) e =
      wrapErr msg (rmRule \<lparr>dmeta = k, dperms = p\<rparr> e)"
    using EmuApply_ruleFor [OF assms, of p "defaultAllow e" e] by auto
  then show ?thesis by (simp add: rmRule_Inr)
qed

lemma replay_dropped_sound:
  assumes "\<forall>e \<in> set es. node (fst e) = BlockDevice \<or> node (fst e) = CharDevice"
    and "EmuApplyAll (droppedRules (defaultAllow e) target es) e = Inr e'"
  shows "e' = e\<lparr>rules := fold (dropStep target) es (rules e)\<rparr>"
  using assms
proof (induction es arbitrary: e)
  case (Cons x es)
  obtain k old where x: "x = (k, old)" by (cases x)
  let ?d = "PermDifference old (fmget [] target k)"
  let ?e = "e\<lparr>rules := dropStep target x (rules e)\<rparr>"
  have "EmuApplyAll (droppedRules (defaultAllow ?e) target es) ?e = Inr e'"
  proof (cases "IsEmpty ?d")
    case True
    with Cons.prems(2) show ?thesis by (simp add: dropStep_def x)
  next
    case False
    with Cons.prems x have "\<exists>e1. EmuApply (ruleFor k ?d (defaultAllow e)) e = Inr e1 \<and>
        EmuApplyAll (droppedRules (defaultAllow e) target es) e1 = Inr e'"
      by (simp add: Let_def rbind_Inr_iff)
    with False x Cons.prems(1) show ?thesis
      by (auto simp: EmuApply_drop dropStep_def)
  qed
  then have "e' = ?e\<lparr>rules := fold (dropStep target) es (rules ?e)\<rparr>"
    using Cons.prems(1) by (intro Cons.IH) auto
  then show ?case by simp
qed simp

text \<open>
  \<open>rmRule\<close> refuses to punch a hole into a wildcard exception.  An emulator is hole-free when none of
  its exceptions overlaps one of its wildcard exceptions; dropping from a hole-free emulator
  never fails.
\<close>

definition holeFree :: "Emulator \<Rightarrow> bool" where
  "holeFree e \<longleftrightarrow>
     fmpred (\<lambda>k p. \<forall>pm \<in> set (partialMetas k).
       pm = k \<or> IsEmpty (PermIntersection (fmget [] (rules e) pm) p)) (rules e)"

lemma holeFree_overlap:
  "holeFree e \<Longrightarrow> fmlookup (rules e) k = Some p \<Longrightarrow> pm \<in> set (partialMetas k) \<Longrightarrow> pm \<noteq> k \<Longrightarrow>
   permSet (fmget [] (rules e) pm) \<inter> permSet p = {}"
  by (auto simp: holeFree_def fmpred_iff perms.intersection_empty_iff)

lemma checkHole_ok:
  "(\<And>pm. pm \<in> set pms \<Longrightarrow> pm \<noteq> dmeta r \<Longrightarrow> permSet (fmget [] m pm) \<inter> permSet (dperms r) = {}) \<Longrightarrow>
   is_ok (rfold (checkHole r m) pms ())"
  by (induction pms) (auto simp: checkHole_def Let_def perms.intersection_empty_iff)

lemma permSet_dropStep:
  "permSet (fmget [] (dropStep target e m) k) \<subseteq> permSet (fmget [] m k)"
  by (auto simp: dropStep_def Let_def get_rmMap perms.abs_difference)

lemma replay_dropped_complete:
  assumes "holeFree s" and "set es \<subseteq> set (orderedEntries (rules s))"
    and "\<forall>e \<in> set es. node (fst e) = BlockDevice \<or> node (fst e) = CharDevice"
    and "\<And>k. permSet (fmget [] (rules e) k) \<subseteq> permSet (fmget [] (rules s) k)"
  shows "is_ok (EmuApplyAll (droppedRules (defaultAllow e) target es) e)"
  using assms(2-4)
proof (induction es arbitrary: e)
  case (Cons x es)
  obtain k old where x: "x = (k, old)" by (cases x)
  let ?d = "PermDifference old (fmget [] target k)"
  let ?e = "e\<lparr>rules := dropStep target x (rules e)\<rparr>"
  have "permSet (fmget [] (rules ?e) j) \<subseteq> permSet (fmget [] (rules s) j)" for j
    using order_trans [OF permSet_dropStep Cons.prems(3)] by simp
  then have rest: "is_ok (EmuApplyAll (droppedRules (defaultAllow e) target es) ?e)"
    using Cons.IH [of ?e] Cons.prems(1,2) by simp
  show ?case
  proof (cases "IsEmpty ?d")
    case True
    with rest show ?thesis by (simp add: x dropStep_def)
  next
    case False
    have lk: "fmlookup (rules s) k = Some old"
      using Cons.prems(1) by (simp add: x orderedEntries_def sorted_list_of_fmap_set)
    have "is_ok (rfold (checkHole \<lparr>dmeta = k, dperms = ?d\<rparr> (rules e)) (partialMetas k) ())"
    proof (rule checkHole_ok)
      fix pm assume "pm \<in> set (partialMetas k)" "pm \<noteq> dmeta \<lparr>dmeta = k, dperms = ?d\<rparr>"
      then have "permSet (fmget [] (rules s) pm) \<inter> permSet old = {}"
        using holeFree_overlap [OF assms(1) lk] by simp
      then show "permSet (fmget [] (rules e) pm) \<inter> permSet (dperms \<lparr>dmeta = k, dperms = ?d\<rparr>) = {}"
        using Cons.prems(3) [of pm] by (auto simp: perms.abs_difference)
    qed
    then have "EmuApply (ruleFor k ?d (defaultAllow e)) e = Inr ?e"
      using Cons.prems(2) False by (simp add: x EmuApply_drop dropStep_def)
    with False rest show ?thesis by (simp add: x Let_def)
  qed
qed simp

lemma orderedEntries_nodes:
  "emuWF e \<Longrightarrow> \<forall>x \<in> set (orderedEntries (rules e)). node (fst x) = BlockDevice \<or> node (fst x) = CharDevice"
  by (auto simp: orderedEntries_def sorted_list_of_fmap_set entryOK_def dest!: emuWF_lookup)

lemma orderedEntries_empty [simp]: "orderedEntries fmempty = []"
  by (simp add: orderedEntries_def sorted_list_of_fmap_def sorted_list_of_fset.rep_eq)

text \<open>Replaying only gained rules from an empty exception map reaches the target's map.\<close>

lemma gain_from_empty:
  assumes "emuWF t"
  shows "fold (gainStep fmempty) (orderedEntries (rules t)) fmempty = rules t"
  using drop_gain_reaches [of "\<lparr>defaultAllow = False, rules = fmempty\<rparr>" t] assms
  by simp

lemma EmuApplyAll_append: "EmuApplyAll (xs @ ys) e = rbind (EmuApplyAll xs e) (EmuApplyAll ys)"
  by (simp add: EmuApplyAll_def rfold_append fun_eq_iff cong: rbind_cong)

lemma Transition_disruptive:
  assumes "emuWF t" and "defaultAllow s \<or> defaultAllow s \<noteq> defaultAllow t"
  shows "EmuApplyAll (Transition s t) s = Inr t"
proof -
  let ?e = "\<lparr>defaultAllow = defaultAllow t, rules = fmempty\<rparr>"
  have "EmuApply \<lparr>Type = WildcardDevice, Major = -1, Minor = -1, Perms = ''rwm'',
      Allow = defaultAllow t\<rparr> s = Inr ?e"
    by (simp add: EmuApply_def CanCgroup_iff allow_def deny_def)
  moreover have "EmuApplyAll (gainedRules (defaultAllow t) fmempty (orderedEntries (rules t))) ?e = Inr t"
    using replay_gained [OF orderedEntries_nodes [OF assms(1)], of ?e fmempty] gain_from_empty [OF assms(1)]
    by simp
  ultimately show ?thesis
    using assms(2) by (simp add: Transition_def IsBlacklist_def Let_def)
qed

lemma Transition_gentle:
  assumes "emuWF s" "emuWF t" and "\<not> defaultAllow s" "defaultAllow s = defaultAllow t"
  shows "EmuApplyAll (Transition s t) s =
    rbind (EmuApplyAll (droppedRules (defaultAllow s) (rules t) (orderedEntries (rules s))) s) (\<lambda>_. Inr t)"
proof (cases "EmuApplyAll (droppedRules (defaultAllow s) (rules t) (orderedEntries (rules s))) s")
  case (Inl err)
  with assms show ?thesis by (simp add: Transition_def IsBlacklist_def Let_def EmuApplyAll_append)
next
  case (Inr e)
  then have e: "e = s\<lparr>rules := fold (dropStep (rules t)) (orderedEntries (rules s)) (rules s)\<rparr>"
    by (rule replay_dropped_sound [OF orderedEntries_nodes [OF assms(1)]])
  have "EmuApplyAll (gainedRules (defaultAllow t) (rules s) (orderedEntries (rules t))) e =
      Inr (e\<lparr>rules := rules t\<rparr>)"
    using replay_gained [OF orderedEntries_nodes [OF assms(2)], of e "rules s"] e assms(4)
    by (simp add: drop_gain_reaches assms(1,2))
  with assms Inr e show ?thesis by (simp add: Transition_def IsBlacklist_def Let_def EmuApplyAll_append)
qed

section \<open>Round trip through the cgroup's text form\<close>

definition numOK :: "int \<Rightarrow> bool" where
  "numOK n \<longleftrightarrow> n = Wildcard \<or> 0 \<le> n \<and> n < 2 ^ 32"

definition numText :: "int \<Rightarrow> string" where
  "numText n = (if n = Wildcard then ''*'' else Itoa n)"

lemma numText_chars:
  assumes "c \<in> set (numText n)" "numOK n"
  shows "c \<noteq> CHR '' ''" "c \<noteq> CHR '':''" "c \<noteq> CHR 0x0A" "c \<noteq> CHR 0x0D"
  using assms by (auto simp: numText_def numOK_def isDigit_def dest: Itoa_chars split: if_splits)

lemma numText_nonempty [simp]: "numText n \<noteq> []"
  by (simp add: numText_def)

lemma Itoa_not_star: "0 \<le> n \<Longrightarrow> Itoa n \<noteq> ''*''"
  using Itoa_chars [of "CHR ''*''" n] by (auto simp: isDigit_def)

lemma numText_parse:
  "numOK n \<Longrightarrow> (if numText n = ''*'' then Inr Wildcard
     else case ParseUint 32 (numText n) of (val, None) \<Rightarrow> Inr (int val) | (_, Some err) \<Rightarrow> Inl (f err)) = Inr n"
  by (auto simp: numText_def numOK_def Itoa_not_star) (simp add: Itoa_def ParseUint_dec nat_less_iff)

lemma CgroupString_fields:
  "CgroupString d = [char_of (Type d)] @ CHR '' '' # numText (Major d) @ CHR '':'' # numText (Minor d) @
     CHR '' '' # Perms d"
  by (simp add: CgroupString_def numText_def runeString_def Let_def)

lemma IsValid_chars: "IsValid p \<Longrightarrow> c \<in> set p \<Longrightarrow> c \<in> {CHR ''r'', CHR ''w'', CHR ''m''}"
  using IsValid_set by blast

definition printable :: "Rule \<Rightarrow> bool" where
  "printable r \<longleftrightarrow> (Type r = BlockDevice \<or> Type r = CharDevice) \<and> numOK (Major r) \<and> numOK (Minor r) \<and>
     IsValid (Perms r) \<and> Perms r \<noteq> []"

lemma perm_chars:
  "IsValid p \<Longrightarrow> c \<in> set p \<Longrightarrow> c \<noteq> CHR '' '' \<and> c \<noteq> CHR '':'' \<and> c \<noteq> CHR 0x0A \<and> c \<noteq> CHR 0x0D"
  by (drule (1) IsValid_chars) auto

lemma typeChar:
  "char_of BlockDevice = CHR ''b''" "char_of CharDevice = CHR ''c''"
  by (simp_all add: BlockDevice_def CharDevice_def char_of_def)

lemma FieldsFunc_CgroupString:
  assumes "printable r"
  shows "FieldsFunc (\<lambda>c. c = CHR '' '' \<or> c = CHR '':'') (CgroupString r) =
    [[char_of (Type r)], numText (Major r), numText (Minor r), Perms r]"
proof -
  let ?p = "\<lambda>c. c = CHR '' '' \<or> c = CHR '':''"
  have sep: "splitp ?p (x @ d # y) = x # splitp ?p y" if "\<And>c. c \<in> set x \<Longrightarrow> \<not> ?p c" "?p d" for x d y
    using that by (rule splitp_append_sep)
  have ty: "\<not> ?p c" if "c \<in> set [char_of (Type r)]" for c
    using that assms by (auto simp: printable_def typeChar)
  have num: "\<not> ?p c" if "c \<in> set (numText n)" "numOK n" for c n
    using numText_chars [OF that] by simp
  have "splitp ?p (Perms r) = [Perms r]"
    by (rule splitp_no_p) (use assms perm_chars in \<open>auto simp: printable_def\<close>)
  then have "splitp ?p (CgroupString r) =
      [[char_of (Type r)], numText (Major r), numText (Minor r), Perms r]"
    using assms ty num unfolding CgroupString_fields printable_def
    by (subst sep, blast, simp)+ simp
  then show ?thesis using assms by (simp add: FieldsFunc_def printable_def)
qed

lemma emuParseLine_printable:
  assumes "printable r"
  shows "emuParseLine (CgroupString r) =
    Inr (Some \<lparr>dmeta = DeviceMeta (Type r) (Major r) (Minor r), dperms = Perms r\<rparr>)"
proof -
  have ty: "[char_of (Type r)] \<noteq> ''a''"
    "(if [char_of (Type r)] = ''b'' then Inr BlockDevice
      else if [char_of (Type r)] = ''c'' then Inr CharDevice
      else Inl (UnknownType [char_of (Type r)])) = Inr (Type r)"
    using assms by (auto simp: printable_def typeChar)
  have pm: "\<not> (\<not> IsValid (Perms r) \<or> IsEmpty (Perms r))" and ok: "numOK (Major r)" "numOK (Minor r)"
    using assms by (auto simp: printable_def IsEmpty_def)
  show ?thesis
    unfolding emuParseLine_def FieldsFunc_CgroupString [OF assms] list.case ty(2)
      numText_parse [OF ok(1)] numText_parse [OF ok(2)]
    using ty(1) pm by (simp add: rguard_def)
qed

lemma length_dec: "n < 10 ^ k \<Longrightarrow> 0 < k \<Longrightarrow> length (dec n) \<le> k"
proof (induction n arbitrary: k rule: dec.induct)
  case (1 n)
  then obtain j where k: "k = Suc j" by (cases k) auto
  show ?case
  proof (cases "n < 10")
    case False
    then have "n div 10 < 10 ^ j" "0 < j"
      using "1.prems" k by (auto simp: less_mult_imp_div_less mult.commute intro!: gr0I)
    with 1 False k show ?thesis by (simp add: dec.simps [of n])
  qed (use k in \<open>simp add: dec.simps [of n]\<close>)
qed

lemma length_numText: "numOK n \<Longrightarrow> length (numText n) \<le> 10"
  by (auto simp: numText_def numOK_def Itoa_def nat_less_iff intro!: length_dec)

lemma length_valid_perms: "IsValid p \<Longrightarrow> length p \<le> 3"
proof -
  assume "IsValid p"
  then have "p = fromSet (toSet p)" by (simp add: IsValid_def)
  moreover have "length (fromSet (toSet p)) \<le> 3" by (simp add: fromSet_def)
  ultimately show ?thesis by simp
qed

lemma CgroupString_line:
  assumes "printable r"
  shows "CHR 0x0A \<notin> set (CgroupString r)" "CHR 0x0D \<notin> set (CgroupString r)"
    "length (CgroupString r) < maxTokenSize"
proof -
  have ok: "numOK (Major r)" "numOK (Minor r)" "IsValid (Perms r)"
    and ty: "char_of (Type r) = CHR ''b'' \<or> char_of (Type r) = CHR ''c''"
    using assms by (auto simp: printable_def typeChar)
  show "CHR 0x0A \<notin> set (CgroupString r)" "CHR 0x0D \<notin> set (CgroupString r)"
    using ty numText_chars(3,4) [OF _ ok(1)] numText_chars(3,4) [OF _ ok(2)] perm_chars [OF ok(3)]
    unfolding CgroupString_fields by fastforce+
  show "length (CgroupString r) < maxTokenSize"
    using length_numText [OF ok(1)] length_numText [OF ok(2)] length_valid_perms [OF ok(3)]
    by (simp add: CgroupString_fields maxTokenSize_def)
qed

lemma EmulatorFromList_printed:
  assumes "\<forall>r \<in> set rs. printable r \<and> Allow r"
  shows "EmulatorFromList (printLines (map CgroupString rs)) = EmuApplyAll rs newEmulator"
proof -
  have "scanLines (printLines (map CgroupString rs)) = (map CgroupString rs, False)"
    by (rule scanLines_printLines) (use assms CgroupString_line in auto)
  moreover have "rfold (\<lambda>line e. rbind (emuParseLine line) (\<lambda>r. allow r e)) (map CgroupString rs) e =
      rfold EmuApply rs e" for e
    using assms
  proof (induction rs arbitrary: e)
    case (Cons r rs)
    then have "rbind (emuParseLine (CgroupString r)) (\<lambda>r. allow r e) = EmuApply r e"
      by (auto simp: emuParseLine_printable EmuApply_def CanCgroup_iff printable_def)
    with Cons show ?case by (simp cong: rbind_cong)
  qed simp
  ultimately show ?thesis
    by (cases "rfold EmuApply rs newEmulator") (simp_all add: EmulatorFromList_def EmuApplyAll_def)
qed

lemma EmuRules_allowlist:
  assumes "\<not> defaultAllow e"
  shows "EmuRules e = gainedRules False fmempty (orderedEntries (rules e))"
  using assms by (simp add: EmuRules_def Transition_def newEmulator_def IsBlacklist_def)

lemma gainedRules_printable:
  assumes "\<forall>(k, p) \<in> set es. entryOK k p \<and> numOK (major k) \<and> numOK (minor k)"
  shows "\<forall>r \<in> set (gainedRules False fmempty es). printable r \<and> Allow r"
  using assms by (induction es)
    (auto simp: Let_def ruleFor_def printable_def entryOK_def IsEmpty_def perms.canon_difference
      split: if_splits)

text \<open>Two concrete emulators on which the properties are exercised.\<close>

definition exampleSource :: Emulator where
  "exampleSource = \<lparr>defaultAllow = False,
     rules = fmupd (DeviceMeta CharDevice 5 (-1)) ''rw'' (fmupd (DeviceMeta CharDevice 1 3) ''rwm'' fmempty)\<rparr>"

definition exampleTarget :: Emulator where
  "exampleTarget = \<lparr>defaultAllow = False,
     rules = fmupd (DeviceMeta BlockDevice 8 0) ''rw'' (fmupd (DeviceMeta CharDevice 1 3) ''r'' fmempty)\<rparr>"

lemma example_wf: "emuWF exampleSource" "emuWF exampleTarget"
  by (auto simp: emuWF_def exampleSource_def exampleTarget_def entryOK_def
      intro!: fmpred_upd fmpred_empty; code_simp)+

section \<open>Properties\<close>

text \<open>
  C17.  \<open>Apply\<close> keeps the emulator's exceptions well formed (block or character devices, with
  canonical and non-empty permissions) for every rule list whose permissions name at least one
  access mode.
\<close>

theorem EmuApplyAll_invariant:
  assumes "emuWF e" and "\<forall>r \<in> set rs. permSet (Perms r) \<noteq> {}" and "EmuApplyAll rs e = Inr e'"
  shows "emuWF e'"
  by (rule EmuApplyAll_wf [OF assms(3,1,2)])

theorem EmuApplyAll_invariant_witness:
  "emuWF \<lparr>defaultAllow = False, rules = fmupd (DeviceMeta CharDevice 1 3) ''rwm'' fmempty\<rparr>"
  by (rule EmuApplyAll_invariant [of newEmulator
        "[\<lparr>Type = CharDevice, Major = 1, Minor = 3, Perms = ''mrw'', Allow = True\<rparr>]"],
      simp add: newEmulator_def, simp add: permSet_def, code_simp)

text \<open>
  C1.  Whenever the kernel accepts the rules that \<open>Transition\<close> emits, the devices cgroup ends in
  exactly the target state: same default, same exceptions with the same permissions.
\<close>

theorem Transition_sound:
  assumes "emuWF s" and "emuWF t" and "EmuApplyAll (Transition s t) s = Inr e"
  shows "e = t"
proof (cases "defaultAllow s \<or> defaultAllow s \<noteq> defaultAllow t")
  case True
  with assms show ?thesis by (simp add: Transition_disruptive)
next
  case False
  with assms show ?thesis by (auto simp: Transition_gentle rbind_Inr_iff)
qed

theorem Transition_sound_witness:
  "EmuApplyAll (Transition exampleSource exampleTarget) exampleSource = Inr exampleTarget"
proof -
  have "is_ok (EmuApplyAll (Transition exampleSource exampleTarget) exampleSource)" by code_simp
  then show ?thesis using Transition_sound [OF example_wf] by (auto simp: is_ok_iff)
qed

text \<open>
  C3.  The rules that \<open>Transition\<close> emits are accepted and reach the target, whenever the source is
  a deny-list, the default changes, or no exception of the source overlaps one of its wildcard
  exceptions.
\<close>

theorem Transition_complete:
  assumes "emuWF s" and "emuWF t"
    and "IsBlacklist s \<or> defaultAllow s \<noteq> defaultAllow t \<or> holeFree s"
  shows "EmuApplyAll (Transition s t) s = Inr t"
proof (cases "defaultAllow s \<or> defaultAllow s \<noteq> defaultAllow t")
  case True
  with assms(2) show ?thesis by (rule Transition_disruptive)
next
  case False
  with assms have "is_ok (EmuApplyAll (droppedRules (defaultAllow s) (rules t) (orderedEntries (rules s))) s)"
    by (intro replay_dropped_complete [where s = s] orderedEntries_nodes) (auto simp: IsBlacklist_def)
  with False assms show ?thesis by (auto simp: Transition_gentle is_ok_iff)
qed

theorem Transition_complete_witness:
  "\<not> IsBlacklist exampleSource \<and> EmuApplyAll (Transition exampleSource exampleTarget) exampleSource = Inr exampleTarget"
proof -
  have "holeFree exampleSource" "\<not> IsBlacklist exampleSource" by code_simp+
  then show ?thesis using Transition_complete [OF example_wf] by blast
qed



text \<open>
  C4.  Reading back the cgroup text of an allow-list emulator (\<open>CgroupString\<close> of each of its
  rules, one per line) with \<open>EmulatorFromList\<close> gives the emulator again, for device numbers that
  are wildcards or fit 32 bits.
\<close>

theorem EmulatorFromList_roundtrip:
  assumes "emuWF e" and "\<not> IsBlacklist e"
    and "\<forall>k. k |\<in>| fmdom (rules e) \<longrightarrow> numOK (major k) \<and> numOK (minor k)"
  shows "EmulatorFromList (printLines (map CgroupString (EmuRules e))) = Inr e"
proof -
  have "\<forall>(k, p) \<in> set (orderedEntries (rules e)). entryOK k p \<and> numOK (major k) \<and> numOK (minor k)"
    using assms emuWF_lookup by (fastforce simp: orderedEntries_def sorted_list_of_fmap_set intro: fmdomI)
  then have "\<forall>r \<in> set (EmuRules e). printable r \<and> Allow r"
    using assms(2) gainedRules_printable by (simp add: IsBlacklist_def EmuRules_allowlist)
  then have "EmulatorFromList (printLines (map CgroupString (EmuRules e))) = EmuApplyAll (EmuRules e) newEmulator"
    by (rule EmulatorFromList_printed)
  also have "\<dots> = Inr e"
    using assms replay_gained [OF orderedEntries_nodes [OF assms(1)], of newEmulator fmempty]
      gain_from_empty [OF assms(1)]
    by (simp add: newEmulator_def EmuRules_allowlist IsBlacklist_def)
  finally show ?thesis .
qed

theorem EmulatorFromList_roundtrip_witness:
  "EmulatorFromList (printLines [''c 1:3 rwm'', ''c 5:* rw'']) = Inr exampleSource"
proof -
  have "map CgroupString (EmuRules exampleSource) = [''c 1:3 rwm'', ''c 5:* rw'']"
    "\<not> IsBlacklist exampleSource" by code_simp+
  moreover have "\<forall>k. k |\<in>| fmdom (rules exampleSource) \<longrightarrow> numOK (major k) \<and> numOK (minor k)"
    by (auto simp: exampleSource_def numOK_def Wildcard_def)
  ultimately show ?thesis using EmulatorFromList_roundtrip [OF example_wf(1)] by metis
qed

end
