(* ===== verification/Device_Filter.thy ===== *)
theory Device_Filter
  imports Devices_Emulator
begin

text \<open>
  \<open>libcontainer/cgroups/ebpf/devicefilter/devicefilter.go\<close>: the compiler from device rules to the
  eBPF program that filters device accesses on cgroup v2.  The instruction datatype has the
  instructions the compiler emits through the vendored assembler (\<open>cilium/ebpf/asm\<close>), \<open>bpf_run\<close> is
  their meaning on 64-bit registers.  The main theorem says that the compiled program decides every
  access as the emulated rule set does; two further theorems show where the encoding departs from
  it.
\<close>

section \<open>Instructions and their meaning\<close>

datatype bpf_reg = R0 | R1 | R2 | R3 | R4 | R5

text \<open>
  \<open>LoadMem\<close> is the \<open>asm.Word\<close> (32 bit) load; the \<open>32\<close> operations work on the lower halves and clear
  the upper ones; \<open>JNE\<close> compares 64 bits, an immediate being sign-extended.
\<close>

datatype bpf_op =
    LoadMem bpf_reg bpf_reg int
  | AndImm32 bpf_reg "32 word"
  | RShImm32 bpf_reg nat
  | MovReg32 bpf_reg bpf_reg
  | MovImm32 bpf_reg "32 word"
  | JNEImm bpf_reg "32 word" string
  | JNEReg bpf_reg bpf_reg string
  | Return

type_synonym bpf_insn = "string option \<times> bpf_op"

definition Sym :: "bpf_insn \<Rightarrow> string \<Rightarrow> bpf_insn" where
  "Sym i l = (Some l, snd i)"

type_synonym bpf_regs = "bpf_reg \<Rightarrow> 64 word"
type_synonym bpf_mem = "64 word \<Rightarrow> 32 word"

text \<open>
  A jump continues at the instruction that carries the symbol.  The kernel only accepts programs
  that jump forward; a symbol that is not ahead, or running off the end, is \<open>None\<close>.
\<close>

definition jumpTo :: "string \<Rightarrow> bpf_insn list \<Rightarrow> bpf_insn list" where
  "jumpTo l is = dropWhile (\<lambda>i. fst i \<noteq> Some l) is"

lemma length_jumpTo: "length (jumpTo l is) \<le> length is"
  by (simp add: jumpTo_def length_dropWhile_le)

function bpf_run :: "bpf_mem \<Rightarrow> bpf_insn list \<Rightarrow> bpf_regs \<Rightarrow> (64 word) option" where
  "bpf_run m [] r = None"
| "bpf_run m ((_, op) # is) r =
     (case op of
        LoadMem d s off \<Rightarrow> bpf_run m is (r(d := ucast (m (r s + of_int off))))
      | AndImm32 d v \<Rightarrow> bpf_run m is (r(d := ucast (ucast (r d) AND v)))
      | RShImm32 d n \<Rightarrow> bpf_run m is (r(d := ucast (drop_bit n (ucast (r d) :: 32 word))))
      | MovReg32 d s \<Rightarrow> bpf_run m is (r(d := ucast (ucast (r s) :: 32 word)))
      | MovImm32 d v \<Rightarrow> bpf_run m is (r(d := ucast v))
      | JNEImm d v l \<Rightarrow> bpf_run m (if r d \<noteq> scast v then jumpTo l is else is) r
      | JNEReg d s l \<Rightarrow> bpf_run m (if r d \<noteq> r s then jumpTo l is else is) r
      | Return \<Rightarrow> Some (r R0))"
  by pat_completeness auto
termination
  by (relation "measure (\<lambda>(m, is, r). length is)") (auto simp: le_imp_less_Suc length_jumpTo)

section \<open>The compiler\<close>

definition BPF_DEVCG_ACC_MKNOD :: "32 word" where "BPF_DEVCG_ACC_MKNOD = 1"
definition BPF_DEVCG_ACC_READ :: "32 word" where "BPF_DEVCG_ACC_READ = 2"
definition BPF_DEVCG_ACC_WRITE :: "32 word" where "BPF_DEVCG_ACC_WRITE = 4"
definition BPF_DEVCG_DEV_BLOCK :: "32 word" where "BPF_DEVCG_DEV_BLOCK = 1"
definition BPF_DEVCG_DEV_CHAR :: "32 word" where "BPF_DEVCG_DEV_CHAR = 2"

datatype filter_error =
    EmulatorError emu_error
  | BadWildcard nat string
  | NoOpRule nat string
  | ProgramFinalized
  | InvalidType DevType
  | FilterInvalidMajor int
  | FilterInvalidMinor int
  | UnknownAccess char

record program =
  insts :: "bpf_insn list"
  pdefaultAllow :: bool
  blockID :: int

definition blockName :: "int \<Rightarrow> string" where
  "blockName i = ''block-'' @ Itoa i"

definition plain :: "bpf_op \<Rightarrow> bpf_insn" where
  "plain op = (None, op)"

definition prog_init :: "program \<Rightarrow> program" where
  "prog_init p = p\<lparr>insts := insts p @
     [plain (LoadMem R2 R1 0), plain (AndImm32 R2 0xFFFF),
      plain (LoadMem R3 R1 0), plain (RShImm32 R3 16),
      plain (LoadMem R4 R1 4),
      plain (LoadMem R5 R1 8)]\<rparr>"

definition acceptBlock :: "bool \<Rightarrow> bpf_insn list" where
  "acceptBlock accept = [plain (MovImm32 R0 (if accept then 1 else 0)), plain Return]"

definition bpfTypeOf :: "DevType \<Rightarrow> (filter_error, 32 word) result" where
  "bpfTypeOf t =
     (if t = CharDevice then Inr BPF_DEVCG_DEV_CHAR
      else if t = BlockDevice then Inr BPF_DEVCG_DEV_BLOCK
      else Inl (InvalidType t))"

definition accessStep :: "char \<Rightarrow> 32 word \<Rightarrow> (filter_error, 32 word) result" where
  "accessStep c a =
     (if c = CHR ''r'' then Inr (a OR BPF_DEVCG_ACC_READ)
      else if c = CHR ''w'' then Inr (a OR BPF_DEVCG_ACC_WRITE)
      else if c = CHR ''m'' then Inr (a OR BPF_DEVCG_ACC_MKNOD)
      else Inl (UnknownAccess c))"

definition maxUint32 :: int where
  "maxUint32 = 2 ^ 32 - 1"

definition appendRule :: "Rule \<Rightarrow> program \<Rightarrow> (filter_error, program) result" where
  "appendRule rule p =
     rguard (blockID p < 0) ProgramFinalized
     (rbind (bpfTypeOf (Type rule)) (\<lambda>bpfType.
      rguard (Major rule > maxUint32) (FilterInvalidMajor (Major rule))
      (rguard (Minor rule > maxUint32) (FilterInvalidMinor (Major rule))
      (let hasMajor = Major rule \<ge> 0; hasMinor = Minor rule \<ge> 0
       in rbind (rfold accessStep (Perms rule) 0) (\<lambda>bpfAccess.
          let hasAccess =
                (bpfAccess \<noteq> (BPF_DEVCG_ACC_READ OR BPF_DEVCG_ACC_WRITE OR BPF_DEVCG_ACC_MKNOD));
              blockSym = blockName (blockID p);
              nextBlockSym = blockName (blockID p + 1);
              first = length (insts p);
              code = insts p @
                [plain (JNEImm R2 bpfType nextBlockSym)] @
                (if hasAccess
                 then [plain (MovReg32 R1 R3), plain (AndImm32 R1 bpfAccess),
                       plain (JNEReg R1 R3 nextBlockSym)]
                 else []) @
                (if hasMajor then [plain (JNEImm R4 (of_int (Major rule)) nextBlockSym)] else []) @
                (if hasMinor then [plain (JNEImm R5 (of_int (Minor rule)) nextBlockSym)] else []) @
                acceptBlock (Allow rule)
          in Inr (p\<lparr>insts := code[first := Sym (code ! first) blockSym], blockID := blockID p + 1\<rparr>))))))"

definition finalize :: "program \<Rightarrow> bpf_insn list" where
  "finalize p =
     insts p @ [Sym (plain (MovImm32 R0 (if pdefaultAllow p then 1 else 0))) (blockName (blockID p)),
                plain Return]"

definition license :: string where
  "license = ''Apache''"

definition filterStep :: "bool \<Rightarrow> nat \<times> Rule \<Rightarrow> program \<Rightarrow> (filter_error, program) result" where
  "filterStep blacklist ir p =
     (case ir of (idx, rule) \<Rightarrow>
        if Type rule = WildcardDevice
        then rguard (idx \<noteq> 0 \<or> Allow rule \<noteq> blacklist) (BadWildcard idx (CgroupString rule)) (Inr p)
        else rguard (Allow rule = pdefaultAllow p) (NoOpRule idx (CgroupString rule)) (appendRule rule p))"

definition DeviceFilter :: "Rule list \<Rightarrow> (filter_error, bpf_insn list \<times> string) result" where
  "DeviceFilter rs =
     rbind (case EmuApplyAll rs newEmulator of Inl e \<Rightarrow> Inl (EmulatorError e) | Inr e \<Rightarrow> Inr e) (\<lambda>emu.
       let cleanRules = EmuRules emu;
           p = prog_init \<lparr>insts = [], pdefaultAllow = IsBlacklist emu, blockID = 0\<rparr>
       in rbind (rfold (filterStep (IsBlacklist emu)) (enumerate 0 cleanRules) p) (\<lambda>p.
            Inr (finalize p, license)))"

section \<open>The decision the program has to make\<close>

text \<open>An access request, and the \<open>bpf_cgroup_dev_ctx\<close> structure the kernel passes for it.\<close>

record dev_request =
  req_type :: DevType
  req_access :: Permissions
  req_major :: "32 word"
  req_minor :: "32 word"

definition typeBits :: "DevType \<Rightarrow> 32 word" where
  "typeBits t = (if t = CharDevice then BPF_DEVCG_DEV_CHAR else BPF_DEVCG_DEV_BLOCK)"

definition accessBits :: "Permissions \<Rightarrow> 32 word" where
  "accessBits a =
     (if CHR ''m'' \<in> set a then 1 else 0) OR (if CHR ''r'' \<in> set a then 2 else 0) OR
     (if CHR ''w'' \<in> set a then 4 else 0)"

definition devCtx :: "64 word \<Rightarrow> dev_request \<Rightarrow> bpf_mem" where
  "devCtx base q a =
     (if a = base then typeBits (req_type q) OR push_bit 16 (accessBits (req_access q))
      else if a = base + 4 then req_major q
      else if a = base + 8 then req_minor q else 0)"

definition validRequest :: "dev_request \<Rightarrow> bool" where
  "validRequest q \<longleftrightarrow> (req_type q = CharDevice \<or> req_type q = BlockDevice)"

definition numMatches :: "int \<Rightarrow> 32 word \<Rightarrow> bool" where
  "numMatches n w \<longleftrightarrow> n < 0 \<or> n = uint w"

definition excMatches :: "dev_request \<Rightarrow> deviceMeta \<times> Permissions \<Rightarrow> bool" where
  "excMatches q e \<longleftrightarrow>
     node (fst e) = req_type q \<and> permSet (req_access q) \<subseteq> permSet (snd e) \<and>
     numMatches (major (fst e)) (req_major q) \<and> numMatches (minor (fst e)) (req_minor q)"

text \<open>The policy of an emulator: the default, inverted for requests covered by an exception.\<close>

definition emuDecides :: "Emulator \<Rightarrow> dev_request \<Rightarrow> bool" where
  "emuDecides e q = (defaultAllow e \<noteq> list_ex (excMatches q) (orderedEntries (rules e)))"

section \<open>Correctness of the compiled blocks\<close>

definition regsFor :: "dev_request \<Rightarrow> bpf_regs \<Rightarrow> bool" where
  "regsFor q r \<longleftrightarrow>
     r R2 = ucast (typeBits (req_type q)) \<and> r R3 = ucast (accessBits (req_access q)) \<and>
     r R4 = ucast (req_major q) \<and> r R5 = ucast (req_minor q)"

definition ruleBlock :: "int \<Rightarrow> 32 word \<Rightarrow> 32 word \<Rightarrow> Rule \<Rightarrow> bpf_insn list" where
  "ruleBlock i ty acc rule =
     (Some (blockName i), JNEImm R2 ty (blockName (i + 1))) #
     (if acc \<noteq> 7
      then [plain (MovReg32 R1 R3), plain (AndImm32 R1 acc), plain (JNEReg R1 R3 (blockName (i + 1)))]
      else []) @
     (if Major rule \<ge> 0 then [plain (JNEImm R4 (of_int (Major rule)) (blockName (i + 1)))] else []) @
     (if Minor rule \<ge> 0 then [plain (JNEImm R5 (of_int (Minor rule)) (blockName (i + 1)))] else []) @
     acceptBlock (Allow rule)"

definition ruleMatches :: "dev_request \<Rightarrow> 32 word \<Rightarrow> 32 word \<Rightarrow> Rule \<Rightarrow> bool" where
  "ruleMatches q ty acc rule \<longleftrightarrow>
     typeBits (req_type q) = ty \<and> accessBits (req_access q) AND acc = accessBits (req_access q) \<and>
     (Major rule \<ge> 0 \<longrightarrow> (ucast (req_major q) :: 64 word) = scast (of_int (Major rule) :: 32 word)) \<and>
     (Minor rule \<ge> 0 \<longrightarrow> (ucast (req_minor q) :: 64 word) = scast (of_int (Minor rule) :: 32 word))"

lemma jumpTo_simps [simp]:
  "jumpTo l ((Some l, op) # is) = (Some l, op) # is"
  "jumpTo l ((None, op) # is) = jumpTo l is"
  by (simp_all add: jumpTo_def)

declare plain_def [simp]

lemma bpf_run_ops [simp]:
  "bpf_run m ((s, LoadMem d s' off) # is) r = bpf_run m is (r(d := ucast (m (r s' + of_int off))))"
  "bpf_run m ((s, AndImm32 d v) # is) r = bpf_run m is (r(d := ucast (ucast (r d) AND v)))"
  "bpf_run m ((s, RShImm32 d n) # is) r = bpf_run m is (r(d := ucast (drop_bit n (ucast (r d) :: 32 word))))"
  "bpf_run m ((s, MovReg32 d s') # is) r = bpf_run m is (r(d := ucast (ucast (r s') :: 32 word)))"
  "bpf_run m ((s, MovImm32 d v) # is) r = bpf_run m is (r(d := ucast v))"
  "bpf_run m ((s, JNEImm d v l) # is) r = bpf_run m (if r d \<noteq> scast v then jumpTo l is else is) r"
  "bpf_run m ((s, JNEReg d s' l) # is) r = bpf_run m (if r d \<noteq> r s' then jumpTo l is else is) r"
  "bpf_run m ((s, Return) # is) r = Some (r R0)"
  by simp_all

declare bpf_run.simps(2) [simp del]

lemma accessBits_and_7: "accessBits a AND 7 = accessBits a"
  by (auto simp: accessBits_def)

lemma ucast_ucast_32: "(ucast (ucast (x :: 32 word) :: 64 word) :: 32 word) = x"
  by (simp add: ucast_down_ucast_id is_down)

lemma ucast_inj_32: "(ucast (x :: 32 word) :: 64 word) = ucast y \<longleftrightarrow> x = y"
  by (metis ucast_ucast_32)

lemma scast_small:
  assumes "0 \<le> n" "n < 2 ^ 31"
  shows "(ucast (w :: 32 word) :: 64 word) = scast (of_int n :: 32 word) \<longleftrightarrow> n = uint w"
proof -
  have "sint (of_int n :: 32 word) = n"
    using assms unfolding signed_of_int by (simp add: signed_take_bit_int_eq_self)
  then have s: "(scast (of_int n :: 32 word) :: 64 word) = of_int n"
    by (metis scast_eq)
  have u: "uint (ucast w :: 64 word) = uint w" by (simp add: uint_up_ucast is_up)
  have "uint (word_of_int n :: 64 word) = n"
    using assms by (simp add: uint_word_of_int take_bit_int_eq_self)
  with u s show ?thesis by (auto simp: word_uint_eq_iff)
qed

lemma ucast_eq_scast_small:
  assumes "uint (v :: 32 word) < 2 ^ 31"
  shows "(ucast (w :: 32 word) :: 64 word) = scast v \<longleftrightarrow> w = v"
  using scast_small [of "uint v" w] assms by (auto simp: word_uint_eq_iff)

lemma ruleBlock_run:
  assumes "regsFor q r" and "rest = (Some (blockName (i + 1)), op) # rest'"
    and "\<And>r. regsFor q r \<Longrightarrow> bpf_run m rest r = X" and "uint ty < 2 ^ 31"
  shows "bpf_run m (ruleBlock i ty acc rule @ rest) r =
    (if ruleMatches q ty acc rule then Some (if Allow rule then 1 else 0) else X)"
proof -
  have "regsFor q (r(R1 := w))" for w using assms(1) by (simp add: regsFor_def)
  then have X: "bpf_run m ((Some (blockName (i + 1)), op) # rest') r = X"
    "bpf_run m ((Some (blockName (i + 1)), op) # rest') (r(R1 := w)) = X" for w
    using assms(1,3) by (simp_all only: assms(2))
  have R: "r R2 = ucast (typeBits (req_type q))" "r R3 = ucast (accessBits (req_access q))"
    "r R4 = ucast (req_major q)" "r R5 = ucast (req_minor q)"
    using assms(1) by (simp_all add: regsFor_def)
  have ty: "(ucast (typeBits (req_type q)) :: 64 word) = scast ty \<longleftrightarrow> typeBits (req_type q) = ty"
    using assms(4) by (rule ucast_eq_scast_small)
  show ?thesis
    by (cases "acc = 7"; cases "Major rule \<ge> 0"; cases "Minor rule \<ge> 0")
      (simp_all add: ruleBlock_def ruleMatches_def acceptBlock_def assms(2) R X ty ucast_ucast_32 ucast_inj_32
        accessBits_and_7)
qed

lemma accessBits_set:
  "accessBits a AND accessBits p = accessBits a \<longleftrightarrow> permSet a \<subseteq> permSet p"
  by (auto simp: accessBits_def permSet_def split: if_splits)

lemma accessBits_simps:
  "accessBits [] = 0"
  "accessBits (CHR ''r'' # p) = 2 OR accessBits p"
  "accessBits (CHR ''w'' # p) = 4 OR accessBits p"
  "accessBits (CHR ''m'' # p) = 1 OR accessBits p"
  by (auto simp: accessBits_def)

lemma accessFold:
  "set p \<subseteq> {CHR ''r'', CHR ''w'', CHR ''m''} \<Longrightarrow> rfold accessStep p a = Inr (a OR accessBits p)"
proof (induction p arbitrary: a)
  case (Cons c p)
  then show ?case
    by (auto simp: accessStep_def accessBits_simps or.assoc BPF_DEVCG_ACC_READ_def BPF_DEVCG_ACC_WRITE_def
        BPF_DEVCG_ACC_MKNOD_def)
qed (simp add: accessBits_simps)


section \<open>Correctness of the compiler\<close>

definition compilable :: "Rule \<Rightarrow> bool" where
  "compilable r \<longleftrightarrow> (Type r = CharDevice \<or> Type r = BlockDevice) \<and> IsValid (Perms r) \<and>
     Major r \<le> maxUint32 \<and> Minor r \<le> maxUint32"

lemma appendRule_block:
  assumes "compilable r" and "0 \<le> blockID p"
  shows "appendRule r p = Inr (p\<lparr>insts := insts p @
      ruleBlock (blockID p) (typeBits (Type r)) (accessBits (Perms r)) r, blockID := blockID p + 1\<rparr>)"
proof -
  have "rfold accessStep (Perms r) 0 = Inr (accessBits (Perms r))"
    using assms(1) IsValid_set [of "Perms r"] by (simp add: accessFold compilable_def)
  moreover have "bpfTypeOf (Type r) = Inr (typeBits (Type r))"
    using assms(1) by (auto simp: compilable_def bpfTypeOf_def typeBits_def)
  moreover have "BPF_DEVCG_ACC_READ OR BPF_DEVCG_ACC_WRITE OR BPF_DEVCG_ACC_MKNOD = 7"
    by (simp add: BPF_DEVCG_ACC_READ_def BPF_DEVCG_ACC_WRITE_def BPF_DEVCG_ACC_MKNOD_def)
  ultimately show ?thesis
    using assms by (simp add: appendRule_def compilable_def rguard_def Let_def ruleBlock_def Sym_def)
qed

fun blocksCode :: "int \<Rightarrow> Rule list \<Rightarrow> bpf_insn list" where
  "blocksCode i [] = []"
| "blocksCode i (r # rs) =
     ruleBlock i (typeBits (Type r)) (accessBits (Perms r)) r @ blocksCode (i + 1) rs"

lemma filterLoop_blocks:
  assumes "\<forall>r \<in> set rs. compilable r \<and> Allow r \<noteq> pdefaultAllow p" and "0 \<le> blockID p"
  shows "rfold (filterStep b) (enumerate k rs) p =
    Inr (p\<lparr>insts := insts p @ blocksCode (blockID p) rs, blockID := blockID p + int (length rs)\<rparr>)"
  using assms
proof (induction rs arbitrary: k p)
  case (Cons r rs)
  let ?p = "p\<lparr>insts := insts p @ ruleBlock (blockID p) (typeBits (Type r)) (accessBits (Perms r)) r,
    blockID := blockID p + 1\<rparr>"
  have "filterStep b (k, r) p = Inr ?p"
    using Cons.prems appendRule_block [of r p] by (auto simp: filterStep_def compilable_def)
  moreover have "rfold (filterStep b) (enumerate (Suc k) rs) ?p =
      Inr (?p\<lparr>insts := insts ?p @ blocksCode (blockID ?p) rs, blockID := blockID ?p + int (length rs)\<rparr>)"
    using Cons.prems by (intro Cons.IH) auto
  ultimately show ?case by (simp add: algebra_simps)
qed simp

lemma blocksCode_run:
  assumes "regsFor q r"
    and "fin = (Some (blockName (i + int (length rs))), MovImm32 R0 v) # (None, Return) # []"
    and "\<forall>x \<in> set rs. Allow x = a"
  shows "bpf_run m (blocksCode i rs @ fin) r =
      Some (if list_ex (\<lambda>x. ruleMatches q (typeBits (Type x)) (accessBits (Perms x)) x) rs
            then (if a then 1 else 0) else ucast v)"
  using assms
proof (induction rs arbitrary: i r)
  case (Cons x xs)
  have "\<exists>op tail. blocksCode (i + 1) xs @ fin = (Some (blockName (i + 1)), op) # tail"
    using Cons.prems(2) by (cases xs) (auto simp: ruleBlock_def)
  then obtain op tail where rest: "blocksCode (i + 1) xs @ fin = (Some (blockName (i + 1)), op) # tail"
    by blast
  have small: "uint (typeBits (Type x)) < 2 ^ 31"
    by (simp add: typeBits_def BPF_DEVCG_DEV_CHAR_def BPF_DEVCG_DEV_BLOCK_def)
  have IH: "bpf_run m (blocksCode (i + 1) xs @ fin) r' =
      Some (if list_ex (\<lambda>x. ruleMatches q (typeBits (Type x)) (accessBits (Perms x)) x) xs
            then (if a then 1 else 0) else ucast v)" if "regsFor q r'" for r'
    using Cons.prems by (intro Cons.IH that) (auto simp: algebra_simps)
  have "Allow x = a" using Cons.prems(3) by simp
  then show ?case
    using ruleBlock_run [OF Cons.prems(1) rest IH small] by simp
qed simp

lemma init_regs:
  assumes "r R1 = base"
  obtains r' where "regsFor q r'"
    "\<And>is. bpf_run (devCtx base q) (insts (prog_init \<lparr>insts = [], pdefaultAllow = d, blockID = b\<rparr>) @ is) r =
       bpf_run (devCtx base q) is r'"
proof
  let ?ctx = "typeBits (req_type q) OR push_bit 16 (accessBits (req_access q))"
  let ?r = "r(R2 := ucast (?ctx AND 0xFFFF), R3 := ucast (drop_bit 16 ?ctx),
    R4 := ucast (req_major q), R5 := ucast (req_minor q))"
  have "?ctx AND 0xFFFF = typeBits (req_type q)" "drop_bit 16 ?ctx = accessBits (req_access q)"
    by (auto simp: typeBits_def accessBits_def BPF_DEVCG_DEV_CHAR_def BPF_DEVCG_DEV_BLOCK_def)
  then show "regsFor q ?r" by (simp add: regsFor_def)
  fix "is"
  show "bpf_run (devCtx base q) (insts (prog_init \<lparr>insts = [], pdefaultAllow = d, blockID = b\<rparr>) @ is) r =
       bpf_run (devCtx base q) is ?r"
    using assms by (simp add: prog_init_def devCtx_def ucast_ucast_32)
qed

lemma gainedRules_all:
  assumes "\<forall>(k, p) \<in> set es. entryOK k p"
  shows "gainedRules d fmempty es = map (\<lambda>(k, p). ruleFor k p (\<not> d)) es"
  using assms
proof (induction es)
  case (Cons x es)
  obtain k p where x: "x = (k, p)" by (cases x)
  then have "IsValid p" "p \<noteq> []" using Cons.prems by (auto simp: entryOK_def)
  then have "PermDifference p [] = p"
    by (intro perms.canon_eqI perms.canon_difference) (simp_all add: perms.abs_difference)
  with Cons x \<open>p \<noteq> []\<close> show ?case by (simp add: IsEmpty_def)
qed simp

definition exceptionRules :: "Emulator \<Rightarrow> Rule list" where
  "exceptionRules e = map (\<lambda>(k, p). ruleFor k p (\<not> defaultAllow e)) (orderedEntries (rules e))"

lemma orderedEntries_OK: "emuWF e \<Longrightarrow> \<forall>(k, p) \<in> set (orderedEntries (rules e)). entryOK k p"
  by (auto simp: orderedEntries_def sorted_list_of_fmap_set dest: emuWF_lookup)

lemma EmuRules_exceptions:
  assumes "emuWF e"
  shows "EmuRules e = (if defaultAllow e then [\<lparr>Type = WildcardDevice, Major = -1, Minor = -1,
      Perms = ''rwm'', Allow = True\<rparr>] else []) @ exceptionRules e"
  using gainedRules_all [OF orderedEntries_OK [OF assms]]
  by (simp add: EmuRules_def Transition_def newEmulator_def IsBlacklist_def exceptionRules_def)

definition numBound :: "int \<Rightarrow> Emulator \<Rightarrow> bool" where
  "numBound b e \<longleftrightarrow> (\<forall>k. k |\<in>| fmdom (rules e) \<longrightarrow> major k < b \<and> minor k < b)"

lemma numBound_upd: "numBound b e \<Longrightarrow> major k < b \<Longrightarrow> minor k < b \<Longrightarrow> numBound b (e\<lparr>rules := fmupd k p (rules e)\<rparr>)"
  by (auto simp: numBound_def)

lemma numBound_step:
  assumes "numBound b e" and "Major r < b" "Minor r < b" and "EmuApply r e = Inr e'"
  shows "numBound b e'"
  using assms unfolding EmuApply_def
  by (auto simp: rguard_Inr_iff allow_def deny_def Let_def addRule_def rmRule_Inr rmMap_def numBound_def
      split: if_splits)

lemma numBound_all:
  assumes "EmuApplyAll rs newEmulator = Inr e" and "\<forall>r \<in> set rs. Major r < b \<and> Minor r < b"
  shows "numBound b e"
proof -
  have "numBound b newEmulator" by (simp add: numBound_def newEmulator_def)
  with assms(1) show ?thesis unfolding EmuApplyAll_def
    by (rule rfold_invariant) (meson numBound_step assms(2))
qed

lemma exceptionRules_compilable:
  assumes "emuWF e" and "numBound (2 ^ 32) e"
  shows "\<forall>r \<in> set (exceptionRules e). compilable r \<and> Allow r = (\<not> defaultAllow e)"
  using assms emuWF_lookup
  by (fastforce simp: exceptionRules_def compilable_def ruleFor_def entryOK_def maxUint32_def numBound_def
      orderedEntries_def sorted_list_of_fmap_set fmdom_notD intro: fmdomI)

lemma ruleMatches_exception:
  assumes "validRequest q" and "entryOK k p" and "major k < 2 ^ 31" "minor k < 2 ^ 31"
  shows "ruleMatches q (typeBits (node k)) (accessBits p) (ruleFor k p a) \<longleftrightarrow> excMatches q (k, p)"
proof -
  have "typeBits (req_type q) = typeBits (node k) \<longleftrightarrow> node k = req_type q"
    using assms(1,2)
    by (auto simp: validRequest_def entryOK_def typeBits_def BPF_DEVCG_DEV_CHAR_def BPF_DEVCG_DEV_BLOCK_def)
  moreover have "(n \<ge> 0 \<longrightarrow> (ucast w :: 64 word) = scast (of_int n :: 32 word)) \<longleftrightarrow> numMatches n w"
    if "n < 2 ^ 31" for n and w :: "32 word"
    using scast_small [of n w] that by (auto simp: numMatches_def)
  ultimately show ?thesis
    using assms(3,4) by (simp add: ruleMatches_def excMatches_def ruleFor_def accessBits_set)
qed

definition filterCode :: "Emulator \<Rightarrow> bpf_insn list" where
  "filterCode e =
     insts (prog_init \<lparr>insts = [], pdefaultAllow = IsBlacklist e, blockID = 0\<rparr>) @
     blocksCode 0 (exceptionRules e) @
     [(Some (blockName (int (length (exceptionRules e)))), MovImm32 R0 (if defaultAllow e then 1 else 0)),
      (None, Return)]"

lemma DeviceFilter_code:
  assumes "EmuApplyAll rs newEmulator = Inr e" and "emuWF e" and "numBound (2 ^ 32) e"
  shows "DeviceFilter rs = Inr (filterCode e, license)"
proof -
  let ?p = "prog_init \<lparr>insts = [], pdefaultAllow = IsBlacklist e, blockID = 0\<rparr>"
  have p: "pdefaultAllow ?p = defaultAllow e" "blockID ?p = 0"
    by (simp_all add: prog_init_def IsBlacklist_def)
  have loop: "rfold (filterStep (defaultAllow e)) (enumerate k (exceptionRules e)) ?p =
      Inr (?p\<lparr>insts := insts ?p @ blocksCode 0 (exceptionRules e), blockID := int (length (exceptionRules e))\<rparr>)" for k
    using filterLoop_blocks [of "exceptionRules e" ?p "defaultAllow e" k] exceptionRules_compilable [OF assms(2,3)] p
    by simp
  have "rfold (filterStep (defaultAllow e)) (enumerate 0 (EmuRules e)) ?p =
      rfold (filterStep (defaultAllow e)) (enumerate (if defaultAllow e then 1 else 0) (exceptionRules e)) ?p"
    by (simp add: EmuRules_exceptions [OF assms(2)] filterStep_def)
  then have loop': "rfold (filterStep (defaultAllow e)) (enumerate 0 (EmuRules e)) ?p =
      Inr (?p\<lparr>insts := insts ?p @ blocksCode 0 (exceptionRules e), blockID := int (length (exceptionRules e))\<rparr>)"
    by (simp only: loop)
  have b: "IsBlacklist e = defaultAllow e" by (simp add: IsBlacklist_def)
  show ?thesis
    using assms(1) loop' [folded b] p by (simp add: DeviceFilter_def Let_def finalize_def filterCode_def Sym_def)
qed

lemma filterCode_run:
  assumes "emuWF e" and "numBound (2 ^ 31) e" and "validRequest q" and "r R1 = base"
  shows "bpf_run (devCtx base q) (filterCode e) r = Some (if emuDecides e q then 1 else 0)"
proof -
  obtain r' where r': "regsFor q r'" and init:
    "\<And>is. bpf_run (devCtx base q) (insts (prog_init \<lparr>insts = [], pdefaultAllow = IsBlacklist e, blockID = 0\<rparr>) @ is) r =
       bpf_run (devCtx base q) is r'"
    using init_regs [of r base q "IsBlacklist e" 0] assms(4) by metis
  have a: "\<forall>x \<in> set (exceptionRules e). Allow x = (\<not> defaultAllow e)"
    by (auto simp: exceptionRules_def ruleFor_def)
  have m: "ruleMatches q (typeBits (node k)) (accessBits p) (ruleFor k p d) = excMatches q (k, p)"
    if "(k, p) \<in> set (orderedEntries (rules e))" for k p d
  proof (rule ruleMatches_exception [OF assms(3)])
    have lk: "fmlookup (rules e) k = Some p"
      using that by (simp add: orderedEntries_def sorted_list_of_fmap_set)
    then show "entryOK k p" by (rule emuWF_lookup [OF assms(1)])
    from fmdomI [OF lk] show "major k < 2 ^ 31" "minor k < 2 ^ 31"
      using assms(2) by (simp_all add: numBound_def)
  qed
  have "list_ex (\<lambda>x. ruleMatches q (typeBits (Type x)) (accessBits (Perms x)) x) (exceptionRules e) \<longleftrightarrow>
      list_ex (\<lambda>(k, p). ruleMatches q (typeBits (node k)) (accessBits p) (ruleFor k p (\<not> defaultAllow e)))
        (orderedEntries (rules e))"
    by (simp add: exceptionRules_def list_ex_iff ruleFor_def split_beta)
  also have "\<dots> \<longleftrightarrow> list_ex (excMatches q) (orderedEntries (rules e))"
    by (intro list_ex_cong refl) (use m in auto)
  finally have ex: "list_ex (\<lambda>x. ruleMatches q (typeBits (Type x)) (accessBits (Perms x)) x) (exceptionRules e) \<longleftrightarrow>
      list_ex (excMatches q) (orderedEntries (rules e))" .
  show ?thesis
    unfolding filterCode_def init
    using blocksCode_run [OF r' _ a, where i = 0 and m = "devCtx base q", unfolded ex]
    by (simp add: emuDecides_def)
qed

section \<open>Properties\<close>





section \<open>Where the encoding departs from the rules\<close>

text \<open>
  A major number from \<open>2^31\<close> on is converted with \<open>int32(rule.Major)\<close>; the 64-bit comparison
  sign-extends it while the register holds the zero-extended number, so the block never matches.
\<close>

lemma scast_high:
  assumes "2 ^ 31 \<le> n" "n < 2 ^ 32"
  shows "(ucast (w :: 32 word) :: 64 word) \<noteq> scast (of_int n :: 32 word)"
proof
  assume eq: "(ucast w :: 64 word) = scast (of_int n :: 32 word)"
  have "(n + 2147483648) mod 4294967296 = n - 2147483648" 
    using assms mod_add_self2 [of "n - 2147483648" 4294967296] by (simp add: algebra_simps)
  then have "sint (of_int n :: 32 word) = n - 2 ^ 32"
    unfolding int_word_sint by simp
  then have "uint (scast (of_int n :: 32 word) :: 64 word) = (n - 2 ^ 32) mod 2 ^ 64"
    by (simp only: scast_eq uint_word_of_int) (simp add: take_bit_eq_mod)
  moreover have "(n - 2 ^ 32) mod 2 ^ 64 = n - 2 ^ 32 + 2 ^ 64"
    using assms by (intro mod_pos_pos_trivial [THEN trans [OF mod_add_self2 [symmetric]]]) simp_all
  moreover have "uint (ucast w :: 64 word) < 2 ^ 32"
    using uint_lt2p [of w] by (simp add: uint_up_ucast is_up)
  ultimately show False using eq assms by simp
qed

theorem DeviceFilter_high_major_ignored:
  assumes "2 ^ 31 \<le> n" "n < 2 ^ 32" and "validRequest q" and "r R1 = base"
  shows "bpf_run (devCtx base q)
     (filterCode \<lparr>defaultAllow = False, rules = fmupd (DeviceMeta CharDevice n (-1)) ''rwm'' fmempty\<rparr>) r = Some 0"
proof -
  let ?e = "\<lparr>defaultAllow = False, rules = fmupd (DeviceMeta CharDevice n (-1)) ''rwm'' fmempty\<rparr>"
  obtain r' where r': "regsFor q r'" and init:
    "\<And>is. bpf_run (devCtx base q) (insts (prog_init \<lparr>insts = [], pdefaultAllow = IsBlacklist ?e, blockID = 0\<rparr>) @ is) r =
       bpf_run (devCtx base q) is r'"
    using init_regs [of r base q "IsBlacklist ?e" 0] assms(4) by metis
  have a: "\<forall>x \<in> set (exceptionRules ?e). Allow x = True"
    by (auto simp: exceptionRules_def ruleFor_def)
  have ex: "list_ex (\<lambda>x. ruleMatches q (typeBits (Type x)) (accessBits (Perms x)) x) (exceptionRules ?e) = False"
    using scast_high [OF assms(1,2)] assms(1)
    by (auto simp: exceptionRules_def list_ex_iff ruleMatches_def ruleFor_def orderedEntries_def
        sorted_list_of_fmap_set split: if_splits)
  show ?thesis
    unfolding filterCode_def init
    using blocksCode_run [OF r' _ a, where i = 0 and m = "devCtx base q", unfolded ex] by simp
qed

text \<open>
  In deny-list mode an exception only stops requests whose access modes all lie inside it: denying
  \<open>w\<close> does not stop a request for \<open>rw\<close>, where the cgroup-v1 controller refuses any overlap.
\<close>

theorem DeviceFilter_partial_deny_passes:
  "\<exists>prog. DeviceFilter
      [\<lparr>Type = WildcardDevice, Major = -1, Minor = -1, Perms = ''rwm'', Allow = True\<rparr>,
       \<lparr>Type = CharDevice, Major = 1, Minor = 3, Perms = ''w'', Allow = False\<rparr>] = Inr (prog, license) \<and>
     bpf_run (devCtx 64 \<lparr>req_type = CharDevice, req_access = ''w'', req_major = 1, req_minor = 3\<rparr>) prog (\<lambda>_. 64) = Some 0 \<and>
     bpf_run (devCtx 64 \<lparr>req_type = CharDevice, req_access = ''rw'', req_major = 1, req_minor = 3\<rparr>) prog (\<lambda>_. 64) = Some 1"
proof -
  let ?rs = "[\<lparr>Type = WildcardDevice, Major = -1, Minor = -1, Perms = ''rwm'', Allow = True\<rparr>,
       \<lparr>Type = CharDevice, Major = 1, Minor = 3, Perms = ''w'', Allow = False\<rparr>]"
  let ?w = "\<lparr>req_type = CharDevice, req_access = ''w'', req_major = 1, req_minor = 3\<rparr>"
  let ?rw = "\<lparr>req_type = CharDevice, req_access = ''rw'', req_major = 1, req_minor = 3\<rparr>"
  let ?e = "\<lparr>defaultAllow = True, rules = fmupd (DeviceMeta CharDevice 1 3) ''w'' fmempty\<rparr>"
  have e: "EmuApplyAll ?rs newEmulator = Inr ?e" by code_simp
  have wf: "emuWF ?e"
    by (rule EmuApplyAll_wf [OF e]) (simp_all add: newEmulator_def permSet_def)
  have nb: "numBound (2 ^ 31) ?e" "numBound (2 ^ 32) ?e" by (simp_all add: numBound_def)
  have "\<not> emuDecides ?e ?w" "emuDecides ?e ?rw" "validRequest ?w" "validRequest ?rw" by code_simp+
  then show ?thesis
    using DeviceFilter_code [OF e wf nb(2)] filterCode_run [OF wf nb(1), of _ "\<lambda>_. 64" 64] by simp
qed

end
