(* ===== verification/Go_X509.thy ===== *)
theory Go_X509
  imports Go_Strings
begin

text \<open>
  What the admission webhook uses of \<open>crypto/x509\<close>, \<open>crypto/rsa\<close>, \<open>crypto/tls\<close> and \<open>encoding/pem\<close>, in the symbolic model
  of cryptography: a private RSA key is known by the name of its public key, a signature by the key that made
  it, and a PEM block by what it decodes to.  Times are nanoseconds; a certificate keeps whole seconds.
  Host names that are IP addresses, name constraints and unknown critical extensions do not occur.
\<close>

unbundle bit_operations_syntax

section \<open>Keys and certificates\<close>

datatype PublicKey = RsaPublic nat | OtherPublic string

definition second :: int where "second = 1000000000"

definition KeyUsageDigitalSignature :: "32 word" where "KeyUsageDigitalSignature = 1"
definition KeyUsageKeyEncipherment :: "32 word" where "KeyUsageKeyEncipherment = 4"
definition KeyUsageCertSign :: "32 word" where "KeyUsageCertSign = 32"
definition KeyUsageCRLSign :: "32 word" where "KeyUsageCRLSign = 64"

datatype ExtKeyUsage = ExtKeyUsageAny | ExtKeyUsageServerAuth | ExtKeyUsageOther nat

record Template =
  SerialNumber :: int
  Subject :: string
  DNSNames :: "string list"
  NotBefore :: int
  NotAfter :: int
  KeyUsage :: "32 word"
  ExtKeyUsages :: "ExtKeyUsage list"
  BasicConstraintsValid :: bool
  IsCA :: bool

text \<open>A parsed certificate: the template with its public key, the subject of its issuer and the signing key.\<close>

record Certificate = Template +
  CertKey :: PublicKey
  CertIssuer :: string
  SignedBy :: nat

text \<open>
  What bytes contain: no PEM block, a certificate, a PKCS1 private key (the one of \<open>RsaPublic n\<close> is \<open>n\<close>), a private key in another
  format, or a block with anything else.  A nil slice is \<open>None\<close>.
\<close>

datatype pem = NotPem string | PemCert Certificate | PemKey nat | PemOtherKey PublicKey | PemBlock string

definition truncSec :: "int \<Rightarrow> int" where
  "truncSec t = t - t mod second"

datatype x509_error = X509NegativeSerial | X509NotIA5 string | X509KeyMismatch | X509CANeedsConstraints

definition isIA5String :: "string \<Rightarrow> bool" where
  "isIA5String s \<longleftrightarrow> list_all (\<lambda>c. (of_char c :: nat) < 128) s"

text \<open>
  \<open>x509.CreateCertificate\<close>: the public key of the parent, when it has one, must belong to the signing key.
\<close>

definition CreateCertificate ::
  "Template \<Rightarrow> string \<Rightarrow> PublicKey option \<Rightarrow> nat \<Rightarrow> nat \<Rightarrow> (x509_error, Certificate) result" where
  "CreateCertificate template parentSubject parentKey pub priv =
     rguard (SerialNumber template < 0) X509NegativeSerial
     (rguard (IsCA template \<and> \<not> BasicConstraintsValid template) X509CANeedsConstraints
     (rguard (parentKey \<noteq> None \<and> parentKey \<noteq> Some (RsaPublic priv)) X509KeyMismatch
     (case find (\<lambda>n. \<not> isIA5String n) (DNSNames template) of
        Some n \<Rightarrow> Inl (X509NotIA5 n)
      | None \<Rightarrow> Inr (Template.extend (template\<lparr>NotBefore := truncSec (NotBefore template), NotAfter := truncSec (NotAfter template)\<rparr>)
                  (Certificate.fields (RsaPublic pub) parentSubject priv)))))"

section \<open>Host names\<close>

definition toLowerASCII :: "char \<Rightarrow> char" where
  "toLowerASCII c = (let n = (of_char c :: nat) in if 65 \<le> n \<and> n \<le> 90 then char_of (n + 32) else c)"

definition toLowerCaseASCII :: "string \<Rightarrow> string" where
  "toLowerCaseASCII s = map toLowerASCII s"

definition TrimDot :: "string \<Rightarrow> string" where
  "TrimDot s = (if s \<noteq> [] \<and> last s = CHR ''.'' then butlast s else s)"

definition hostChar :: "bool \<Rightarrow> char \<Rightarrow> bool" where
  "hostChar start c \<longleftrightarrow> (let n = (of_char c :: nat)
     in 97 \<le> n \<and> n \<le> 122 \<or> 48 \<le> n \<and> n \<le> 57 \<or> 65 \<le> n \<and> n \<le> 90 \<or> c = CHR ''_'' \<or> c = CHR ''-'' \<and> \<not> start)"

definition hostLabel :: "string \<Rightarrow> bool" where
  "hostLabel part \<longleftrightarrow> part \<noteq> [] \<and> hostChar True (hd part) \<and> list_all (hostChar False) (tl part)"

definition validHostname :: "bool \<Rightarrow> string \<Rightarrow> bool" where
  "validHostname isPattern host =
     (let host = (if isPattern then host else TrimDot host)
      in host \<noteq> [] \<and> (case Split (CHR ''.'') host of
           [] \<Rightarrow> True
         | p # ps \<Rightarrow> (hostLabel p \<or> isPattern \<and> p = ''*'') \<and> list_all hostLabel ps))"

definition matchHostnames :: "string \<Rightarrow> string \<Rightarrow> bool" where
  "matchHostnames pat host =
     (let pat = toLowerCaseASCII pat; host = toLowerCaseASCII (TrimDot host)
      in pat \<noteq> [] \<and> host \<noteq> [] \<and>
         (case (Split (CHR ''.'') pat, Split (CHR ''.'') host) of
            (p # ps, h # hs) \<Rightarrow> (p = ''*'' \<or> p = h) \<and> ps = hs
          | _ \<Rightarrow> False))"

definition matchExactly :: "string \<Rightarrow> string \<Rightarrow> bool" where
  "matchExactly hostA hostB \<longleftrightarrow> hostA \<noteq> [] \<and> hostA \<noteq> ''.'' \<and> hostB \<noteq> [] \<and> hostB \<noteq> ''.'' \<and>
     toLowerCaseASCII hostA = toLowerCaseASCII hostB"

definition VerifyHostname :: "'z Certificate_scheme \<Rightarrow> string \<Rightarrow> bool" where
  "VerifyHostname c h =
     (let candidate = toLowerCaseASCII h
      in list_ex (\<lambda>pat. if validHostname False candidate \<and> validHostname True pat then matchHostnames pat candidate
                         else matchExactly pat candidate) (DNSNames c))"

section \<open>Verification\<close>

definition timeValid :: "'z Certificate_scheme \<Rightarrow> int \<Rightarrow> bool" where
  "timeValid c now \<longleftrightarrow> NotBefore c \<le> now \<and> now \<le> NotAfter c"

definition signatureFrom :: "Certificate \<Rightarrow> Certificate \<Rightarrow> bool" where
  "signatureFrom c parent \<longleftrightarrow> BasicConstraintsValid parent \<and> IsCA parent \<and>
     (KeyUsage parent = 0 \<or> KeyUsage parent AND KeyUsageCertSign \<noteq> 0) \<and> CertKey parent = RsaPublic (SignedBy c)"

definition serverAuth :: "Certificate \<Rightarrow> bool" where
  "serverAuth c \<longleftrightarrow> ExtKeyUsages c = [] \<or> ExtKeyUsageAny \<in> set (ExtKeyUsages c) \<or> ExtKeyUsageServerAuth \<in> set (ExtKeyUsages c)"

text \<open>\<open>Certificate.Verify\<close> with one root and the default key usage, for a version 3 root.\<close>

definition Verify :: "Certificate \<Rightarrow> Certificate \<Rightarrow> string \<Rightarrow> int \<Rightarrow> bool" where
  "Verify c root dnsName now \<longleftrightarrow> timeValid c now \<and> VerifyHostname c dnsName \<and>
     (if c = root then serverAuth c
      else CertIssuer c = Subject root \<and> signatureFrom c root \<and> timeValid root now \<and> serverAuth c \<and> serverAuth root)"

section \<open>PEM and TLS\<close>

definition pemDecode :: "pem option \<Rightarrow> pem option" where
  "pemDecode b = (case b of None \<Rightarrow> None | Some (NotPem _) \<Rightarrow> None | Some x \<Rightarrow> Some x)"

definition ParseCertificate :: "pem \<Rightarrow> Certificate option" where
  "ParseCertificate b = (case b of PemCert c \<Rightarrow> Some c | _ \<Rightarrow> None)"

definition ParsePKCS1PrivateKey :: "pem \<Rightarrow> nat option" where
  "ParsePKCS1PrivateKey b = (case b of PemKey k \<Rightarrow> Some k | _ \<Rightarrow> None)"

definition publicOf :: "pem \<Rightarrow> PublicKey option" where
  "publicOf b = (case b of PemKey k \<Rightarrow> Some (RsaPublic k) | PemOtherKey p \<Rightarrow> Some p | _ \<Rightarrow> None)"

text \<open>\<open>tls.Certificate\<close>: the chain, the private key by its public key, and the parsed leaf if it was kept.\<close>

record TlsCertificate =
  TcChain :: "Certificate list"
  TcKey :: PublicKey
  TcLeaf :: "Certificate option"

definition X509KeyPair :: "pem option \<Rightarrow> pem option \<Rightarrow> TlsCertificate option" where
  "X509KeyPair cert key =
     (case (Option.bind (pemDecode cert) ParseCertificate, Option.bind (pemDecode key) publicOf) of
        (Some c, Some p) \<Rightarrow> if CertKey c = p then Some \<lparr>TcChain = [c], TcKey = p, TcLeaf = None\<rparr> else None
      | _ \<Rightarrow> None)"

section \<open>A listed name is verified\<close>

lemma toLowerASCII_idem [simp]: "toLowerASCII (toLowerASCII c) = toLowerASCII c"
  by (simp add: toLowerASCII_def Let_def)

lemma toLowerCaseASCII_idem [simp]: "toLowerCaseASCII (toLowerCaseASCII s) = toLowerCaseASCII s"
  by (simp add: toLowerCaseASCII_def)

lemma toLowerASCII_dot [simp]: "toLowerASCII c = CHR ''.'' \<longleftrightarrow> c = CHR ''.''"
proof
  assume a: "toLowerASCII c = CHR ''.''"
  show "c = CHR ''.''"
  proof (rule ccontr)
    assume "c \<noteq> CHR ''.''"
    with a have "(of_char c :: nat) + 32 = 46" "65 \<le> (of_char c :: nat)"
      by (auto simp: toLowerASCII_def Let_def split: if_splits dest!: arg_cong [of _ _ "of_char :: char \<Rightarrow> nat"])
    then show False by simp
  qed
qed (simp add: toLowerASCII_def)

lemma last_toLower: "s \<noteq> [] \<Longrightarrow> last (toLowerCaseASCII s) = CHR ''.'' \<longleftrightarrow> last s = CHR ''.''"
  by (simp add: toLowerCaseASCII_def last_map)

lemma TrimDot_toLower: "TrimDot (toLowerCaseASCII s) = toLowerCaseASCII (TrimDot s)"
  by (cases "s = []") (simp_all add: TrimDot_def last_toLower, simp_all add: toLowerCaseASCII_def map_butlast)

lemma Split_snoc: "Split d (x @ [d]) = Split d x @ [[]]"
proof (induction x)
  case (Cons a x)
  then show ?case by (auto simp: Split_Cons)
qed (simp add: Split_Cons)

lemma pattern_no_trailing_dot:
  assumes "validHostname True h"
  shows "TrimDot h = h"
proof (rule ccontr)
  assume "TrimDot h \<noteq> h"
  then obtain x where h: "h = x @ [CHR ''.'']" by (auto simp: TrimDot_def split: if_splits) (metis append_butlast_last_id)
  have "Split (CHR ''.'') h = Split (CHR ''.'') x @ [[]]"
    unfolding h by (rule Split_snoc)
  moreover have "Split (CHR ''.'') x \<noteq> []" by simp
  ultimately obtain p ps where "Split (CHR ''.'') h = p # ps @ [[]]" by (cases "Split (CHR ''.'') x") auto
  with assms show False by (simp add: validHostname_def hostLabel_def)
qed

lemma VerifyHostname_listed:
  assumes "h \<in> set (DNSNames c)" and "h \<noteq> []" "h \<noteq> ''.''"
  shows "VerifyHostname c h"
proof -
  let ?l = "toLowerCaseASCII h"
  have ne: "?l \<noteq> []" using assms(2) by (simp add: toLowerCaseASCII_def)
  have dot: "?l \<noteq> ''.''" using assms(3) by (auto simp: toLowerCaseASCII_def map_eq_Cons_conv)
  have "matchHostnames h ?l" if "validHostname True h"
  proof -
    have "toLowerCaseASCII (TrimDot ?l) = ?l" using pattern_no_trailing_dot [OF that] by (simp add: TrimDot_toLower)
    with ne show ?thesis by (cases "Split (CHR ''.'') ?l") (simp_all add: matchHostnames_def Let_def)
  qed
  moreover have "matchExactly h ?l" using assms ne dot by (simp add: matchExactly_def)
  ultimately show ?thesis using assms(1) by (auto simp: VerifyHostname_def Let_def list_ex_iff intro!: bexI [of _ h])
qed

end
