(* ===== verification/Go_Json.thy ===== *)
theory Go_Json
  imports Go_Strings
begin

text \<open>
  The part of Go's \<open>encoding/json\<close> that the sources use: the JSON text grammar (\<open>parseValue\<close>), the
  stream decoder's and \<open>Unmarshal\<close>'s treatment of what follows the value, matching object keys with
  struct fields (exactly, or ignoring case), decoding into strings, booleans, integers and string
  slices, and \<open>Marshal\<close>'s compact text.  The recursion of the parser is bounded by a fuel argument;
  \<open>parseJson\<close> passes the length of the input plus one, and every recursive call consumes a byte.
  Texts are byte lists that are valid UTF-8; key folding is the ASCII one; a value that exceeds
  \<open>encoding/json\<close>'s nesting limit of 10000 is outside the model.
\<close>

datatype json =
    JNull
  | JBool bool
  | JNum string
  | JStr string
  | JArr "json list"
  | JObj "(string \<times> json) list"

section \<open>Lexical elements\<close>

definition isWs :: "char \<Rightarrow> bool" where
  "isWs c \<longleftrightarrow> c \<in> {CHR '' '', CHR 0x09, CHR 0x0A, CHR 0x0D}"

definition skipWs :: "string \<Rightarrow> string" where
  "skipWs s = dropWhile isWs s"

definition quote :: char where "quote = CHR 0x22"
definition backslash :: char where "backslash = CHR 0x5C"

definition hexVal :: "char \<Rightarrow> nat option" where
  "hexVal c = (let n = of_char c :: nat in
     if 48 \<le> n \<and> n \<le> 57 then Some (n - 48)
     else if 97 \<le> n \<and> n \<le> 102 then Some (n - 87)
     else if 65 \<le> n \<and> n \<le> 70 then Some (n - 55)
     else None)"

fun hex4 :: "string \<Rightarrow> (nat \<times> string) option" where
  "hex4 (a # b # c # d # rest) =
     (case (hexVal a, hexVal b, hexVal c, hexVal d) of
        (Some w, Some x, Some y, Some z) \<Rightarrow> Some (4096 * w + 256 * x + 16 * y + z, rest)
      | _ \<Rightarrow> None)"
| "hex4 _ = None"

text \<open>\<open>utf8.EncodeRune\<close>, and the pairing of UTF-16 surrogates of \<open>unquote\<close>.\<close>

definition encodeRune :: "nat \<Rightarrow> string" where
  "encodeRune r =
     (if r < 128 then [char_of r]
      else if r < 2048 then [char_of (192 + r div 64), char_of (128 + r mod 64)]
      else if r < 65536
      then [char_of (224 + r div 4096), char_of (128 + r div 64 mod 64), char_of (128 + r mod 64)]
      else [char_of (240 + r div 262144), char_of (128 + r div 4096 mod 64),
            char_of (128 + r div 64 mod 64), char_of (128 + r mod 64)])"

definition replacementChar :: nat where
  "replacementChar = 0xFFFD"

definition isSurrogate :: "nat \<Rightarrow> bool" where
  "isSurrogate r \<longleftrightarrow> 0xD800 \<le> r \<and> r < 0xE000"

text \<open>The escape after \<open>\u\<close>: the decoded bytes and the rest of the text.\<close>

definition unicodeEscape :: "string \<Rightarrow> (string \<times> string) option" where
  "unicodeEscape s =
     (case hex4 s of
        None \<Rightarrow> None
      | Some (r, rest) \<Rightarrow>
          (if \<not> isSurrogate r then Some (encodeRune r, rest)
           else case rest of
             b # u # rest2 \<Rightarrow>
               (if b = backslash \<and> u = CHR ''u'' then
                  (case hex4 rest2 of
                     Some (r2, rest3) \<Rightarrow>
                       (if r < 0xDC00 \<and> 0xDC00 \<le> r2 \<and> r2 < 0xE000
                        then Some (encodeRune (0x10000 + (r - 0xD800) * 1024 + (r2 - 0xDC00)), rest3)
                        else Some (encodeRune replacementChar, rest))
                   | None \<Rightarrow> Some (encodeRune replacementChar, rest))
                else Some (encodeRune replacementChar, rest))
           | _ \<Rightarrow> Some (encodeRune replacementChar, rest)))"

definition simpleEscape :: "char \<Rightarrow> char option" where
  "simpleEscape c =
     (if c = quote \<or> c = backslash \<or> c = CHR ''/'' then Some c
      else if c = CHR ''b'' then Some (CHR 0x08)
      else if c = CHR ''f'' then Some (CHR 0x0C)
      else if c = CHR ''n'' then Some (CHR 0x0A)
      else if c = CHR ''r'' then Some (CHR 0x0D)
      else if c = CHR ''t'' then Some (CHR 0x09)
      else None)"

lemma hex4_length: "hex4 s = Some (r, rest) \<Longrightarrow> length rest < length s"
  by (cases s rule: hex4.cases) (auto split: option.splits)

lemma unicodeEscape_length: "unicodeEscape s = Some (x, rest) \<Longrightarrow> length rest < length s"
  by (auto simp: unicodeEscape_def dest!: hex4_length split: option.splits if_splits list.splits)

text \<open>The bytes of a string literal after its opening quote.\<close>

function parseStr :: "string \<Rightarrow> (string \<times> string) option" where
  "parseStr [] = None"
| "parseStr (c # cs) =
     (if c = quote then Some ([], cs)
      else if c = backslash then
        (case cs of
           [] \<Rightarrow> None
         | e # es \<Rightarrow>
             (if e = CHR ''u'' then
                (case unicodeEscape es of
                   None \<Rightarrow> None
                 | Some (x, rest) \<Rightarrow> map_option (apfst ((@) x)) (parseStr rest))
              else
                (case simpleEscape e of
                   None \<Rightarrow> None
                 | Some x \<Rightarrow> map_option (apfst ((#) x)) (parseStr es))))
      else if (of_char c :: nat) < 32 then None
      else map_option (apfst ((#) c)) (parseStr cs))"
  by pat_completeness auto
termination
  by (relation "measure length") (auto dest!: unicodeEscape_length)

text \<open>Numbers: an optional sign, an integer part without leading zeros, fraction and exponent.\<close>

definition spanDigits :: "string \<Rightarrow> string \<times> string" where
  "spanDigits s = (takeWhile isDigit s, dropWhile isDigit s)"

definition parseFrac :: "string \<Rightarrow> (string \<times> string) option" where
  "parseFrac s =
     (case s of
        c # cs \<Rightarrow> (if c = CHR ''.'' then
            (case spanDigits cs of (ds, rest) \<Rightarrow> if ds = [] then None else Some (c # ds, rest))
          else Some ([], s))
      | [] \<Rightarrow> Some ([], s))"

definition parseExp :: "string \<Rightarrow> (string \<times> string) option" where
  "parseExp s =
     (case s of
        c # cs \<Rightarrow> (if c = CHR ''e'' \<or> c = CHR ''E'' then
            (let (sg, cs') = (case cs of
                 d # ds \<Rightarrow> if d = CHR ''+'' \<or> d = CHR ''-'' then ([d], ds) else ([], cs)
               | [] \<Rightarrow> ([], cs));
                 (ds, rest) = spanDigits cs'
             in if ds = [] then None else Some (c # sg @ ds, rest))
          else Some ([], s))
      | [] \<Rightarrow> Some ([], s))"

definition parseNum :: "string \<Rightarrow> (string \<times> string) option" where
  "parseNum s =
     (let (sg, s1) = (case s of c # cs \<Rightarrow> if c = CHR ''-'' then ([c], cs) else ([], s) | [] \<Rightarrow> ([], s));
          (ds, s2) = spanDigits s1
      in if ds = [] then None
         else let (ip, s3) = (if hd ds = CHR ''0'' then ([hd ds], tl ds @ s2) else (ds, s2))
         in (case parseFrac s3 of
               None \<Rightarrow> None
             | Some (fr, s4) \<Rightarrow>
                 (case parseExp s4 of
                    None \<Rightarrow> None
                  | Some (ex, s5) \<Rightarrow> Some (sg @ ip @ fr @ ex, s5))))"

section \<open>Values\<close>

fun parseValue :: "nat \<Rightarrow> string \<Rightarrow> (json \<times> string) option"
  and parseElems :: "nat \<Rightarrow> string \<Rightarrow> (json list \<times> string) option"
  and parseMembers :: "nat \<Rightarrow> string \<Rightarrow> ((string \<times> json) list \<times> string) option" where
  "parseValue 0 s = None"
| "parseValue (Suc n) s =
     (case skipWs s of
        [] \<Rightarrow> None
      | c # cs \<Rightarrow>
          (if c = CHR 0x7B then
             (case skipWs cs of
                [] \<Rightarrow> None
              | d # ds \<Rightarrow> if d = CHR 0x7D then Some (JObj [], ds)
                         else map_option (apfst JObj) (parseMembers n (d # ds)))
           else if c = CHR 0x5B then
             (case skipWs cs of
                [] \<Rightarrow> None
              | d # ds \<Rightarrow> if d = CHR 0x5D then Some (JArr [], ds)
                         else map_option (apfst JArr) (parseElems n (d # ds)))
           else if c = quote then map_option (apfst JStr) (parseStr cs)
           else if HasPrefix (c # cs) ''true'' then Some (JBool True, drop 4 (c # cs))
           else if HasPrefix (c # cs) ''false'' then Some (JBool False, drop 5 (c # cs))
           else if HasPrefix (c # cs) ''null'' then Some (JNull, drop 4 (c # cs))
           else map_option (apfst JNum) (parseNum (c # cs))))"
| "parseElems 0 s = None"
| "parseElems (Suc n) s =
     (case parseValue n s of
        None \<Rightarrow> None
      | Some (v, r) \<Rightarrow>
          (case skipWs r of
             [] \<Rightarrow> None
           | c # cs \<Rightarrow>
               (if c = CHR '','' then map_option (apfst ((#) v)) (parseElems n cs)
                else if c = CHR 0x5D then Some ([v], cs)
                else None)))"
| "parseMembers 0 s = None"
| "parseMembers (Suc n) s =
     (case skipWs s of
        [] \<Rightarrow> None
      | q # qs \<Rightarrow>
          (if q \<noteq> quote then None
           else case parseStr qs of
             None \<Rightarrow> None
           | Some (k, r) \<Rightarrow>
               (case skipWs r of
                  [] \<Rightarrow> None
                | d # ds \<Rightarrow>
                    (if d \<noteq> CHR '':'' then None
                     else case parseValue n ds of
                       None \<Rightarrow> None
                     | Some (v, r2) \<Rightarrow>
                         (case skipWs r2 of
                            [] \<Rightarrow> None
                          | c # cs \<Rightarrow>
                              (if c = CHR '','' then map_option (apfst ((#) (k, v))) (parseMembers n cs)
                               else if c = CHR 0x7D then Some ([(k, v)], cs)
                               else None))))))"

text \<open>
  \<open>json.Unmarshal\<close> and the stream decoder followed by a check for the end of the input: one value
  with only white space around it.  \<open>decodeFirst\<close> is \<open>Decoder.Decode\<close>, which leaves the rest unread.
\<close>

definition jsonFuel :: "string \<Rightarrow> nat" where
  "jsonFuel s = 2 * length s"

definition decodeFirst :: "string \<Rightarrow> (json \<times> string) option" where
  "decodeFirst s = parseValue (jsonFuel s) s"

definition parseJson :: "string \<Rightarrow> json option" where
  "parseJson s =
     (case decodeFirst s of
        Some (v, rest) \<Rightarrow> if skipWs rest = [] then Some v else None
      | None \<Rightarrow> None)"

section \<open>The fuel is enough\<close>

lemma skipWs_length: "length (skipWs s) \<le> length s"
  by (simp add: skipWs_def length_dropWhile_le)

lemma skipWs_Cons_length: "skipWs s = c # cs \<Longrightarrow> length cs < length s"
  using skipWs_length [of s] by simp

lemma parseStr_length: "parseStr s = Some (x, r) \<Longrightarrow> length r < length s"
proof (induction s arbitrary: x r rule: parseStr.induct)
  case (2 c cs)
  consider "c = quote" | e es where "c \<noteq> quote" "c = backslash" "cs = e # es"
    | "c \<noteq> quote" "c \<noteq> backslash" "\<not> (of_char c :: nat) < 32"
    using "2.prems" by (cases cs) (auto split: if_splits)
  then show ?case
  proof cases
    case (2 e es)
    show ?thesis
    proof (cases "e = CHR ''u''")
      case True
      with 2 "2.prems" obtain y rest z where "unicodeEscape es = Some (y, rest)" "parseStr rest = Some (z, r)"
        by (auto split: option.splits)
      with "2.IH"(1) [OF 2(1,2,3) True] unicodeEscape_length 2 show ?thesis by fastforce
    next
      case False
      with 2 "2.prems" obtain y z where "simpleEscape e = Some y" "parseStr es = Some (z, r)"
        by (auto split: option.splits)
      with "2.IH"(2) [OF 2(1,2,3) False] 2 show ?thesis by fastforce
    qed
  next
    case 3
    with "2.prems" obtain z where "parseStr cs = Some (z, r)" by auto
    with "2.IH"(3) 3 show ?thesis by fastforce
  qed (use "2.prems" in simp)
qed simp

lemma spanDigits_length: "spanDigits s = (ds, r) \<Longrightarrow> length ds + length r = length s"
  by (metis spanDigits_def takeWhile_dropWhile_id length_append prod.inject)

lemma parseFrac_length: "parseFrac s = Some (x, r) \<Longrightarrow> length r \<le> length s"
proof (cases s)
  case (Cons c cs)
  assume "parseFrac s = Some (x, r)"
  with Cons spanDigits_length [of cs] show ?thesis
    by (cases "spanDigits cs") (auto simp: parseFrac_def split: if_splits)
qed (simp add: parseFrac_def)

lemma parseExp_length: "parseExp s = Some (x, r) \<Longrightarrow> length r \<le> length s"
proof (cases s)
  case (Cons c cs)
  let ?p = "case cs of d # ds \<Rightarrow> if d = CHR ''+'' \<or> d = CHR ''-'' then ([d], ds) else ([], cs) | [] \<Rightarrow> ([], cs)"
  have "length (snd ?p) \<le> length cs" by (simp split: list.splits)
  moreover assume "parseExp s = Some (x, r)"
  ultimately show ?thesis using Cons spanDigits_length [of "snd ?p"]
    by (cases ?p; cases "spanDigits (snd ?p)") (auto simp: parseExp_def Let_def split: if_splits)
qed (simp add: parseExp_def)

lemma parseNum_length: "parseNum s = Some (x, r) \<Longrightarrow> length r < length s"
proof -
  assume eq: "parseNum s = Some (x, r)"
  define p where "p = (case s of c # cs \<Rightarrow> if c = CHR ''-'' then ([c], cs) else ([], s) | [] \<Rightarrow> ([], s))"
  have p: "length (snd p) \<le> length s" by (simp add: p_def split: list.splits)
  obtain ds s2 where sp: "spanDigits (snd p) = (ds, s2)" by force
  have ds: "ds \<noteq> []" using eq sp by (auto simp: parseNum_def p_def [symmetric] split_beta)
  define t where "t = (if hd ds = CHR ''0'' then ([hd ds], tl ds @ s2) else (ds, s2))"
  have "length (snd t) < length (snd p)"
    using ds spanDigits_length [OF sp] by (cases ds) (auto simp: t_def)
  moreover obtain fr s4 where "parseFrac (snd t) = Some (fr, s4)" "\<exists>ex. parseExp s4 = Some (ex, r)"
    using eq sp ds by (cases "hd ds = CHR ''0''")
      (auto simp: parseNum_def p_def [symmetric] t_def split_beta split: option.splits)
  ultimately show ?thesis using p parseFrac_length parseExp_length by fastforce
qed

definition enough :: "(nat \<Rightarrow> string \<Rightarrow> ('a \<times> string) option) \<Rightarrow> nat \<Rightarrow> string \<Rightarrow> 'a \<Rightarrow> string \<Rightarrow> bool" where
  "enough f b s v r \<longleftrightarrow>
     length r < length s \<and> (\<forall>m. 2 * (length s - length r) + b \<le> m \<longrightarrow> f m s = Some (v, r))"

lemma enoughD: "enough f b s v r \<Longrightarrow> length r < length s"
  "enough f b s v r \<Longrightarrow> 2 * (length s - length r) + b \<le> m \<Longrightarrow> f m s = Some (v, r)"
  by (simp_all add: enough_def)

lemma enoughI:
  assumes "length r < length s"
    and "\<And>m. 2 * (length s - length r) + b \<le> Suc m \<Longrightarrow> f (Suc m) s = Some (v, r)"
  shows "enough f b s v r"
  unfolding enough_def
proof (intro conjI allI impI assms(1))
  fix m assume "2 * (length s - length r) + b \<le> m"
  with assms show "f m s = Some (v, r)" by (cases m) auto
qed

lemma parse_enough:
  "parseValue n s = Some (v, r) \<Longrightarrow> enough parseValue 0 s v r"
  "parseElems n s = Some (vs, r) \<Longrightarrow> enough parseElems 1 s vs r"
  "parseMembers n s = Some (ms, r) \<Longrightarrow> enough parseMembers 1 s ms r"
proof (induction n s and n s and n s arbitrary: v r and vs r and ms r
    rule: parseValue_parseElems_parseMembers.induct)
  case (2 n s)
  then obtain c cs where c: "skipWs s = c # cs" by (auto split: list.splits)
  note len = skipWs_Cons_length [OF c]
  show ?case
  proof (cases "c = CHR 0x7B \<or> c = CHR 0x5B")
    case True
    with "2.prems" c obtain d ds where d: "skipWs cs = d # ds" by (auto split: list.splits)
    note dlen = skipWs_Cons_length [OF d]
    consider (eobj) "c = CHR 0x7B" "d = CHR 0x7D" "v = JObj []" "r = ds"
      | (earr) "c = CHR 0x5B" "d = CHR 0x5D" "v = JArr []" "r = ds"
      | (obj) ms where "c = CHR 0x7B" "d \<noteq> CHR 0x7D" "v = JObj ms" "parseMembers n (d # ds) = Some (ms, r)"
      | (arr) vs where "c = CHR 0x5B" "d \<noteq> CHR 0x5D" "v = JArr vs" "parseElems n (d # ds) = Some (vs, r)"
      using "2.prems" c d True by (auto split: if_splits)
    then show ?thesis
    proof cases
      case eobj
      with c d len dlen show ?thesis by (intro enoughI) auto
    next
      case earr
      with c d len dlen show ?thesis by (intro enoughI) auto
    next
      case obj
      from obj have e: "enough parseMembers 1 (d # ds) ms r" using "2.IH"(1) c d by simp
      show ?thesis using obj c d len dlen enoughD(1) [OF e] enoughD(2) [OF e] by (intro enoughI) auto
    next
      case arr
      from arr have e: "enough parseElems 1 (d # ds) vs r" using "2.IH"(2) c d by simp
      show ?thesis using arr c d len dlen enoughD(1) [OF e] enoughD(2) [OF e] by (intro enoughI) auto
    qed
  next
    case False
    have "length r < length s"
      using "2.prems" c False len skipWs_length [of s]
      by (auto split: if_splits dest!: parseStr_length parseNum_length)
    with "2.prems" c False show ?thesis by (intro enoughI) auto
  qed
next
  case (4 n s)
  then obtain v r1 where v: "parseValue n s = Some (v, r1)" by (auto split: option.splits)
  with "4.prems" obtain c cs where c: "skipWs r1 = c # cs" by (auto split: list.splits)
  have e: "enough parseValue 0 s v r1" by (rule "4.IH"(1) [OF v])
  note len = skipWs_Cons_length [OF c] enoughD(1) [OF e]
  show ?case
  proof (cases "c = CHR '',''")
    case True
    with "4.prems" v c obtain ws where ws: "parseElems n cs = Some (ws, r)" "vs = v # ws" by auto
    have e2: "enough parseElems 1 cs ws r" by (rule "4.IH"(2) [OF v _ c True ws(1)]) simp
    show ?thesis
      using len enoughD(1) [OF e2] True c ws(2) enoughD(2) [OF e] enoughD(2) [OF e2]
      by (intro enoughI) auto
  next
    case False
    with "4.prems" v c len enoughD(2) [OF e] show ?thesis
      by (intro enoughI) (auto split: if_splits)
  qed
next
  case (6 n s)
  then obtain q qs where q: "skipWs s = q # qs" "q = quote" by (auto split: list.splits if_splits)
  with "6.prems" obtain k r1 where k: "parseStr qs = Some (k, r1)" by (auto split: option.splits)
  with "6.prems" q obtain ds where d: "skipWs r1 = CHR '':'' # ds" by (auto split: list.splits if_splits)
  with "6.prems" q k obtain v r2 where v: "parseValue n ds = Some (v, r2)" by (auto split: option.splits)
  with "6.prems" q k d obtain c cs where c: "skipWs r2 = c # cs" by (auto split: list.splits)
  have e: "enough parseValue 0 ds v r2" using "6.IH"(1) q k d v by simp
  note len = skipWs_Cons_length [OF q(1)] skipWs_Cons_length [OF d] skipWs_Cons_length [OF c]
    parseStr_length [OF k] enoughD(1) [OF e]
  show ?case
  proof (cases "c = CHR '',''")
    case True
    with "6.prems" q k d v c obtain ws where ws: "parseMembers n cs = Some (ws, r)" "ms = (k, v) # ws" by auto
    have e2: "enough parseMembers 1 cs ws r" using "6.IH"(2) q k d v c True ws(1) by simp
    show ?thesis
      using len enoughD(1) [OF e2] q k d c True ws(2) enoughD(2) [OF e] enoughD(2) [OF e2]
      by (intro enoughI) auto
  next
    case False
    with "6.prems" q k d v c len enoughD(2) [OF e] show ?thesis
      by (intro enoughI) (auto split: if_splits)
  qed
qed simp_all

section \<open>Marshal\<close>

definition hexDigit :: "nat \<Rightarrow> char" where
  "hexDigit d = (if d < 10 then char_of (48 + d) else char_of (87 + d))"

text \<open>\<open>Marshal\<close> escapes control bytes, quotes, backslashes, the HTML characters and U+2028, U+2029.\<close>

definition escapeChar :: "char \<Rightarrow> string" where
  "escapeChar c = (let n = of_char c :: nat in
     if c = quote \<or> c = backslash then [backslash, c]
     else if c = CHR 0x08 then [backslash, CHR ''b'']
     else if c = CHR 0x0C then [backslash, CHR ''f'']
     else if c = CHR 0x0A then [backslash, CHR ''n'']
     else if c = CHR 0x0D then [backslash, CHR ''r'']
     else if c = CHR 0x09 then [backslash, CHR ''t'']
     else if n < 32 \<or> c = CHR 0x3C \<or> c = CHR 0x3E \<or> c = CHR 0x26
     then [backslash, CHR ''u'', CHR ''0'', CHR ''0'', hexDigit (n div 16), hexDigit (n mod 16)]
     else [c])"

fun escapeStr :: "string \<Rightarrow> string" where
  "escapeStr [] = []"
| "escapeStr (c # b # a # cs) =
     (if c = CHR 0xE2 \<and> b = CHR 0x80 \<and> (a = CHR 0xA8 \<or> a = CHR 0xA9)
      then [backslash, CHR ''u'', CHR ''2'', CHR ''0'', CHR ''2'', if a = CHR 0xA8 then CHR ''8'' else CHR ''9''] @ escapeStr cs
      else escapeChar c @ escapeStr (b # a # cs))"
| "escapeStr (c # cs) = escapeChar c @ escapeStr cs"

fun printJson :: "json \<Rightarrow> string" where
  "printJson JNull = ''null''"
| "printJson (JBool b) = (if b then ''true'' else ''false'')"
| "printJson (JNum n) = n"
| "printJson (JStr s) = quote # escapeStr s @ [quote]"
| "printJson (JArr vs) = CHR 0x5B # Join (CHR '','') (map printJson vs) @ [CHR 0x5D]"
| "printJson (JObj ms) = CHR 0x7B #
     Join (CHR '','') (map (\<lambda>(k, v). quote # escapeStr k @ quote # CHR '':'' # printJson v) ms) @ [CHR 0x7D]"

lemma hexVal_hexDigit: "d < 16 \<Longrightarrow> hexVal (hexDigit d) = Some d"
  by (auto simp: hexVal_def hexDigit_def Let_def)

lemma quote_simps [simp]: "quote \<noteq> backslash" "backslash \<noteq> quote"
  by (simp_all add: quote_def backslash_def)

lemma parseStr_unicode:
  assumes "n < 128"
  shows "parseStr (backslash # CHR ''u'' # CHR ''0'' # CHR ''0'' # hexDigit (n div 16) # hexDigit (n mod 16) # t) =
    map_option (apfst ((#) (char_of n))) (parseStr t)"
proof -
  have z: "hexVal (CHR ''0'') = Some 0" by (simp add: hexVal_def)
  have "hex4 (CHR ''0'' # CHR ''0'' # hexDigit (n div 16) # hexDigit (n mod 16) # t) = Some (n, t)"
    using assms by (simp add: z hexVal_hexDigit)
  then have "unicodeEscape (CHR ''0'' # CHR ''0'' # hexDigit (n div 16) # hexDigit (n mod 16) # t) = Some ([char_of n], t)"
    using assms by (simp add: unicodeEscape_def isSurrogate_def encodeRune_def)
  then show ?thesis by (simp add: apfst_def map_prod_def)
qed

lemma parseStr_escapeChar:
  "parseStr (escapeChar c @ t) = map_option (apfst ((#) c)) (parseStr t)"
proof -
  have u: "parseStr (backslash # CHR ''u'' # CHR ''0'' # CHR ''0'' # hexDigit (of_char c div 16) #
      hexDigit (of_char c mod 16) # t) = map_option (apfst ((#) c)) (parseStr t)"
    if "(of_char c :: nat) < 128" using parseStr_unicode [OF that] by simp
  have s: "parseStr (backslash # e # t) = map_option (apfst ((#) x)) (parseStr t)"
    if "simpleEscape e = Some x" "e \<noteq> CHR ''u''" for e x using that by simp
  consider "c = quote \<or> c = backslash" | "c \<in> {CHR 0x08, CHR 0x0C, CHR 0x0A, CHR 0x0D, CHR 0x09}"
    | "c \<noteq> quote" "c \<noteq> backslash" "c \<notin> {CHR 0x08, CHR 0x0C, CHR 0x0A, CHR 0x0D, CHR 0x09}" by blast
  then show ?thesis
  proof cases
    case 1
    then show ?thesis using s [of c c] by (auto simp: escapeChar_def Let_def simpleEscape_def quote_def backslash_def)
  next
    case 2
    then show ?thesis by (auto simp: escapeChar_def Let_def simpleEscape_def quote_def backslash_def)
  next
    case 3
    show ?thesis
    proof (cases "(of_char c :: nat) < 32 \<or> c = CHR 0x3C \<or> c = CHR 0x3E \<or> c = CHR 0x26")
      case True
      then have "(of_char c :: nat) < 128" by auto
      with True 3 u show ?thesis by (simp add: escapeChar_def Let_def)
    next
      case False
      with 3 show ?thesis by (simp add: escapeChar_def Let_def)
    qed
  qed
qed

lemma u2028: "char_of (226 :: nat) = CHR 0xE2" "char_of (128 :: nat) = CHR 0x80"
  "char_of (168 :: nat) = CHR 0xA8" "char_of (169 :: nat) = CHR 0xA9"
  by code_simp+

lemma parseStr_escapeStr: "parseStr (escapeStr s @ quote # rest) = Some (s, rest)"
proof (induction s rule: escapeStr.induct)
  case (2 c b a cs)
  show ?case
  proof (cases "c = CHR 0xE2 \<and> b = CHR 0x80 \<and> (a = CHR 0xA8 \<or> a = CHR 0xA9)")
    case True
    have "hexVal (CHR ''2'') = Some 2" "hexVal (CHR ''0'') = Some 0" "hexVal (CHR ''8'') = Some 8" "hexVal (CHR ''9'') = Some 9"
      by (simp_all add: hexVal_def)
    with True 2 show ?thesis
      by (auto simp: unicodeEscape_def isSurrogate_def encodeRune_def u2028)
  next
    case False
    with 2 show ?thesis by (auto simp: parseStr_escapeChar)
  qed
qed (simp_all add: parseStr_escapeChar)

section \<open>Unmarshal reads back what Marshal wrote\<close>

definition numLit :: "string \<Rightarrow> bool" where
  "numLit s \<longleftrightarrow> (\<exists>i. s = Itoa i)"

fun wfJson :: "json \<Rightarrow> bool" where
  "wfJson (JNum s) = numLit s"
| "wfJson (JArr vs) = list_all wfJson vs"
| "wfJson (JObj ms) = list_all (\<lambda>(k, v). wfJson v) ms"
| "wfJson _ = True"

text \<open>What may follow a value inside a text: nothing, a comma or a closing bracket.\<close>

definition valueEnd :: "string \<Rightarrow> bool" where
  "valueEnd rest \<longleftrightarrow> rest = [] \<or> hd rest \<in> {CHR '','', CHR 0x5D, CHR 0x7D}"

lemma valueEnd_props:
  assumes "valueEnd rest"
  shows "takeWhile isDigit rest = []" "dropWhile isDigit rest = rest"
    "parseFrac rest = Some ([], rest)" "parseExp rest = Some ([], rest)"
  using assms by (cases rest; auto simp: valueEnd_def isDigit_def parseFrac_def parseExp_def)+

lemma dec_zero: "hd (dec n) = CHR ''0'' \<Longrightarrow> dec n = ''0''"
proof (induction n rule: dec.induct)
  case (1 n)
  show ?case
  proof (cases "n < 10")
    case True
    with "1.prems" show ?thesis by (simp add: dec.simps [of n] digitChar_def)
  next
    case False
    then have "dec (n div 10) = ''0''" using 1 by (simp add: dec.simps [of n])
    then have "n div 10 = 0" using decVal_dec [of "n div 10"] by (simp add: decVal_def digitVal_def)
    with False show ?thesis by simp
  qed
qed

lemma parseNum_dec:
  assumes "valueEnd rest"
  shows "spanDigits (dec n @ rest) = (dec n, rest)"
  using assms dec_digits [of _ n]
  by (simp add: spanDigits_def takeWhile_append2 dropWhile_append2 valueEnd_props)

lemma parseNum_Itoa:
  assumes "valueEnd rest"
  shows "parseNum (Itoa i @ rest) = Some (Itoa i, rest)"
proof -
  have nz: "dec n \<noteq> [] \<and> (hd (dec n) = CHR ''0'' \<longrightarrow> tl (dec n) @ rest = rest \<and> [hd (dec n)] = dec n)" for n
    by (metis append_Nil dec_nonempty dec_zero list.sel(1,3))
  have sg: "hd (dec n) \<noteq> CHR ''-''" for n by (rule dec_no_sign)
  show ?thesis
  proof (cases "i < 0")
    case True
    then show ?thesis
      using nz [of "nat (- i)"] by (auto simp: parseNum_def Itoa_def parseNum_dec assms valueEnd_props)
  next
    case False
    obtain a ds where d: "dec (nat i) = a # ds" by (meson dec_nonempty list.exhaust)
    have sp: "spanDigits (a # ds @ rest) = (a # ds, rest)"
      using parseNum_dec [OF assms, of "nat i"] by (simp add: d)
    have zero: "a = CHR ''0'' \<Longrightarrow> ds = []" using dec_zero [of "nat i"] by (simp add: d)
    show ?thesis
      using False sg [of "nat i"] zero by (auto simp: parseNum_def Itoa_def d sp assms valueEnd_props)
  qed
qed

lemma skipWs_Cons [simp]: "\<not> isWs c \<Longrightarrow> skipWs (c # cs) = c # cs"
  by (simp add: skipWs_def)

lemma punct_not_ws [simp]:
  "\<not> isWs quote" "\<not> isWs (CHR 0x7B)" "\<not> isWs (CHR 0x7D)" "\<not> isWs (CHR 0x5B)" "\<not> isWs (CHR 0x5D)"
  "\<not> isWs (CHR '','')" "\<not> isWs (CHR '':'')"
  by (simp_all add: isWs_def quote_def)

lemma Itoa_head:
  obtains c cs where "Itoa i = c # cs" "isDigit c \<or> c = CHR ''-''"
  by (metis Itoa_chars Itoa_nonempty list.exhaust list.set_intros(1))

lemma printJson_head:
  assumes "wfJson v"
  obtains c cs where "printJson v = c # cs" "\<not> isWs c" "c \<noteq> CHR 0x5D"
proof (cases v)
  case (JNum s)
  with assms obtain i where s: "s = Itoa i" by (auto simp: numLit_def)
  obtain c cs where "Itoa i = c # cs" "isDigit c \<or> c = CHR ''-''" by (rule Itoa_head)
  moreover from this have "\<not> isWs c" "c \<noteq> CHR 0x5D" by (auto simp: isWs_def isDigit_def)
  ultimately show ?thesis using that JNum s by simp
next
  case (JBool b)
  with that show ?thesis by (cases b) (auto simp: isWs_def)
qed (use that in \<open>auto simp: isWs_def quote_def split: if_splits\<close>)

definition parses :: "string \<Rightarrow> json \<Rightarrow> string \<Rightarrow> bool" where
  "parses s v r \<longleftrightarrow> (\<exists>n. parseValue n s = Some (v, r))"

lemma parses_fuel: "parses s v r \<Longrightarrow> 2 * length s \<le> m \<Longrightarrow> parseValue m s = Some (v, r)"
proof -
  assume "parses s v r" "2 * length s \<le> m"
  then obtain n where n: "parseValue n s = Some (v, r)" by (auto simp: parses_def)
  from \<open>2 * length s \<le> m\<close> show ?thesis
    by (intro enoughD(2) [OF parse_enough(1) [OF n]]) simp
qed

lemma parses_decodeFirst: "parses s v r \<Longrightarrow> decodeFirst s = Some (v, r)"
  by (simp add: parses_fuel decodeFirst_def jsonFuel_def)

lemma parseElems_Join:
  assumes "vs \<noteq> []"
    and "\<And>v rest. v \<in> set vs \<Longrightarrow> valueEnd rest \<Longrightarrow> parses (printJson v @ rest) v rest"
  shows "\<exists>n. parseElems n (Join (CHR '','') (map printJson vs) @ CHR 0x5D # rest) = Some (vs, rest)"
  using assms
proof (induction vs)
  case (Cons v vs)
  show ?case
  proof (cases "vs = []")
    case True
    have "parses (printJson v @ CHR 0x5D # rest) v (CHR 0x5D # rest)"
      using Cons.prems(2) by (simp add: valueEnd_def)
    then obtain n where "parseValue n (printJson v @ CHR 0x5D # rest) = Some (v, CHR 0x5D # rest)"
      by (auto simp: parses_def)
    with True show ?thesis by (intro exI [of _ "Suc n"]) simp
  next
    case False
    let ?r = "Join (CHR '','') (map printJson vs) @ CHR 0x5D # rest"
    obtain n where n: "parseElems n ?r = Some (vs, rest)" using Cons False by auto
    have p: "parses (printJson v @ CHR '','' # ?r) v (CHR '','' # ?r)"
      using Cons.prems(2) by (simp add: valueEnd_def)
    define m where "m = 2 * length (printJson v @ CHR '','' # ?r) + 2"
    have "parseValue m (printJson v @ CHR '','' # ?r) = Some (v, CHR '','' # ?r)"
      by (rule parses_fuel [OF p]) (simp add: m_def)
    moreover have "parseElems m ?r = Some (vs, rest)"
      by (rule enoughD(2) [OF parse_enough(2) [OF n]]) (simp add: m_def)
    ultimately show ?thesis using False by (intro exI [of _ "Suc m"]) (simp add: Join_Cons)
  qed
qed simp

definition printMember :: "string \<times> json \<Rightarrow> string" where
  "printMember m = quote # escapeStr (fst m) @ quote # CHR '':'' # printJson (snd m)"

lemma printJson_JObj:
  "printJson (JObj ms) = CHR 0x7B # Join (CHR '','') (map printMember ms) @ [CHR 0x7D]"
proof -
  have "(\<lambda>(k, v). quote # escapeStr k @ quote # CHR '':'' # printJson v) = printMember"
    by (auto simp: printMember_def)
  then show ?thesis by simp
qed

lemma parseMembers_Join:
  assumes "ms \<noteq> []"
    and "\<And>m rest. m \<in> set ms \<Longrightarrow> valueEnd rest \<Longrightarrow> parses (printJson (snd m) @ rest) (snd m) rest"
  shows "\<exists>n. parseMembers n (Join (CHR '','') (map printMember ms) @ CHR 0x7D # rest) = Some (ms, rest)"
  using assms
proof (induction ms)
  case (Cons m ms)
  show ?case
  proof (cases "ms = []")
    case True
    have "parses (printJson (snd m) @ CHR 0x7D # rest) (snd m) (CHR 0x7D # rest)"
      using Cons.prems(2) by (simp add: valueEnd_def)
    then obtain n where "parseValue n (printJson (snd m) @ CHR 0x7D # rest) = Some (snd m, CHR 0x7D # rest)"
      by (auto simp: parses_def)
    with True show ?thesis
      by (intro exI [of _ "Suc n"]) (simp add: printMember_def parseStr_escapeStr)
  next
    case False
    let ?r = "Join (CHR '','') (map printMember ms) @ CHR 0x7D # rest"
    obtain n where n: "parseMembers n ?r = Some (ms, rest)" using Cons False by auto
    have p: "parses (printJson (snd m) @ CHR '','' # ?r) (snd m) (CHR '','' # ?r)"
      using Cons.prems(2) by (simp add: valueEnd_def)
    define k where "k = 2 * length (printJson (snd m) @ CHR '','' # ?r) + 2"
    have "parseValue k (printJson (snd m) @ CHR '','' # ?r) = Some (snd m, CHR '','' # ?r)"
      by (rule parses_fuel [OF p]) (simp add: k_def)
    moreover have "parseMembers k ?r = Some (ms, rest)"
      by (rule enoughD(2) [OF parse_enough(3) [OF n]]) (simp add: k_def)
    ultimately show ?thesis
      using False by (intro exI [of _ "Suc k"]) (simp add: Join_Cons printMember_def [of m] parseStr_escapeStr)
  qed
qed simp

lemma Join_head: "xs \<noteq> [] \<Longrightarrow> hd xs = c # cs \<Longrightarrow> \<exists>ds. Join sep xs @ rest = c # ds"
  by (cases xs; cases "tl xs = []") (auto simp: Join_Cons)

lemma parses_printJson:
  "wfJson v \<Longrightarrow> valueEnd rest \<Longrightarrow> parses (printJson v @ rest) v rest"
proof (induction v arbitrary: rest)
  case (JNum s)
  then obtain i where s: "s = Itoa i" by (auto simp: numLit_def)
  obtain c cs where c: "Itoa i = c # cs" "isDigit c \<or> c = CHR ''-''" by (rule Itoa_head)
  then have "\<not> isWs c" "c \<noteq> CHR 0x7B" "c \<noteq> CHR 0x5B" "c \<noteq> quote" "c \<noteq> CHR ''t''" "c \<noteq> CHR ''f''" "c \<noteq> CHR ''n''"
    by (auto simp: isWs_def isDigit_def quote_def)
  then have "parseValue (Suc 0) (Itoa i @ rest) = Some (JNum (Itoa i), rest)"
    using parseNum_Itoa [OF JNum.prems(2), of i] c by simp
  then show ?case unfolding parses_def s printJson.simps by (rule exI)
next
  case (JArr vs)
  show ?case
  proof (cases "vs = []")
    case False
    let ?t = "Join (CHR '','') (map printJson vs) @ CHR 0x5D # rest"
    obtain n where n: "parseElems n ?t = Some (vs, rest)"
      using parseElems_Join [OF False] JArr by (fastforce simp: list_all_iff)
    obtain c cs where c: "printJson (hd vs) = c # cs" "\<not> isWs c" "c \<noteq> CHR 0x5D"
      using printJson_head [of "hd vs"] False JArr.prems by (auto simp: list_all_iff)
    then obtain ds where "?t = c # ds"
      using Join_head [of "map printJson vs" c cs "CHR '',''" "CHR 0x5D # rest"] False by (auto simp: hd_map)
    with n c show ?thesis by (auto simp: parses_def intro!: exI [of _ "Suc n"])
  qed (auto simp: parses_def intro!: exI [of _ 1])
next
  case (JObj ms)
  show ?case
  proof (cases "ms = []")
    case False
    let ?t = "Join (CHR '','') (map printMember ms) @ CHR 0x7D # rest"
    obtain n where n: "parseMembers n ?t = Some (ms, rest)"
      using parseMembers_Join [OF False] JObj by (fastforce simp: list_all_iff)
    obtain ds where "?t = quote # ds"
      using Join_head [of "map printMember ms" quote "tl (printMember (hd ms))" "CHR '',''" "CHR 0x7D # rest"] False
      by (auto simp: hd_map printMember_def [of "hd ms"])
    with n have "parseValue (Suc n) (CHR 0x7B # ?t) = Some (JObj ms, rest)"
      by (simp add: quote_def isWs_def)
    then have "\<exists>n. parseValue n (CHR 0x7B # ?t) = Some (JObj ms, rest)" by (rule exI)
    then show ?thesis unfolding parses_def printJson_JObj
      by (simp del: parseValue.simps)
  qed (auto simp: parses_def intro!: exI [of _ 1])
qed (auto simp: parses_def quote_def isWs_def parseStr_escapeStr [unfolded quote_def] intro!: exI [of _ 1])

theorem parseJson_printJson: "wfJson v \<Longrightarrow> parseJson (printJson v) = Some v"
  using parses_decodeFirst [OF parses_printJson [of v "[]"]]
  by (simp add: parseJson_def valueEnd_def skipWs_def)

section \<open>Decoding into Go values\<close>

text \<open>
  Object keys match a struct field exactly or up to (ASCII) case.  A member with a value of the wrong
  type makes the whole decoding fail; \<open>null\<close> leaves a string, a boolean or a number as it is and makes a
  slice nil.
\<close>

definition foldChar :: "char \<Rightarrow> char" where
  "foldChar c = (let n = of_char c :: nat in if 65 \<le> n \<and> n \<le> 90 then char_of (n + 32) else c)"

definition fieldMatch :: "string \<Rightarrow> string \<Rightarrow> bool" where
  "fieldMatch name key \<longleftrightarrow> map foldChar name = map foldChar key"

definition setString :: "json \<Rightarrow> string \<Rightarrow> string option" where
  "setString v old = (case v of JStr s \<Rightarrow> Some s | JNull \<Rightarrow> Some old | _ \<Rightarrow> None)"

definition setBool :: "json \<Rightarrow> bool \<Rightarrow> bool option" where
  "setBool v old = (case v of JBool b \<Rightarrow> Some b | JNull \<Rightarrow> Some old | _ \<Rightarrow> None)"

definition setInt :: "json \<Rightarrow> int \<Rightarrow> int option" where
  "setInt v old =
     (case v of
        JNum s \<Rightarrow> (case Atoi s of (i, None) \<Rightarrow> Some i | _ \<Rightarrow> None)
      | JNull \<Rightarrow> Some old
      | _ \<Rightarrow> None)"

definition setStrings :: "json \<Rightarrow> string list \<Rightarrow> (string list) option" where
  "setStrings v old =
     (case v of
        JArr vs \<Rightarrow> those (map (\<lambda>x. setString x []) vs)
      | JNull \<Rightarrow> Some []
      | _ \<Rightarrow> None)"

fun decodeMembers :: "(string \<Rightarrow> json \<Rightarrow> 'r \<Rightarrow> 'r option) \<Rightarrow> (string \<times> json) list \<Rightarrow> 'r \<Rightarrow> 'r option" where
  "decodeMembers f [] r = Some r"
| "decodeMembers f ((k, v) # ms) r = Option.bind (f k v r) (decodeMembers f ms)"

text \<open>Decoding into a struct whose current value is \<open>r\<close>, and into a slice of structs.\<close>

definition decodeStruct :: "(string \<Rightarrow> json \<Rightarrow> 'r \<Rightarrow> 'r option) \<Rightarrow> 'r \<Rightarrow> json \<Rightarrow> 'r option" where
  "decodeStruct f r v =
     (case v of JObj ms \<Rightarrow> decodeMembers f ms r | JNull \<Rightarrow> Some r | _ \<Rightarrow> None)"

definition decodeSlice :: "(string \<Rightarrow> json \<Rightarrow> 'r \<Rightarrow> 'r option) \<Rightarrow> 'r \<Rightarrow> json \<Rightarrow> ('r list) option" where
  "decodeSlice f zero v =
     (case v of
        JArr vs \<Rightarrow> those (map (decodeStruct f zero) vs)
      | JNull \<Rightarrow> Some []
      | _ \<Rightarrow> None)"

lemma decodeMembers_sub:
  assumes "decodeMembers f ms r = Some x"
    and "\<And>k v r r'. f k v r = Some r' \<Longrightarrow> g k v (h r) = Some (h r')"
  shows "decodeMembers g ms (h r) = Some (h x)"
  using assms(1)
proof (induction ms arbitrary: r)
  case (Cons m ms)
  obtain k v where "m = (k, v)" by (cases m)
  with Cons show ?case by (auto simp: bind_eq_Some_conv dest!: assms(2))
qed simp

lemma decodeStruct_sub:
  assumes "decodeStruct f r v = Some x"
    and "\<And>k v r r'. f k v r = Some r' \<Longrightarrow> g k v (h r) = Some (h r')"
  shows "decodeStruct g (h r) v = Some (h x)"
  using assms by (auto simp: decodeStruct_def intro: decodeMembers_sub split: json.splits)

text \<open>A decoder that accepts more keys reads the same values.\<close>

lemma decodeSlice_sub:
  assumes "decodeSlice f z v = Some xs"
    and "\<And>k v r r'. f k v r = Some r' \<Longrightarrow> g k v (h r) = Some (h r')"
  shows "decodeSlice g (h z) v = Some (map h xs)"
proof -
  have "those (map (decodeStruct g (h z)) vs) = Some (map h xs)"
    if "those (map (decodeStruct f z) vs) = Some xs" for vs xs
    using that
  proof (induction vs arbitrary: xs)
    case (Cons w vs)
    then obtain x ys where x: "decodeStruct f z w = Some x" and "those (map (decodeStruct f z) vs) = Some ys"
      "xs = x # ys" by (auto split: option.splits)
    moreover have "decodeStruct g (h z) w = Some (h x)"
      using x assms(2) by (rule decodeStruct_sub)
    ultimately show ?case using Cons.IH by simp
  qed simp
  with assms(1) show ?thesis by (auto simp: decodeSlice_def split: json.splits)
qed

end
