(* ===== verification/Go_Filepath.thy ===== *)
theory Go_Filepath
  imports Go_Strings
begin

text \<open>
  Go's lexical path functions (\<open>path/filepath\<close> on Unix): \<open>IsAbs\<close>, \<open>Clean\<close>, \<open>Join\<close>, \<open>Abs\<close>, \<open>Rel\<close> and
  \<open>Base\<close>, on \<open>/\<close>-separated byte strings.  \<open>Clean\<close> is written over the list of path elements with an
  explicit stack, the lexical processing its documentation gives; the lemmas show that its result is
  in normal form, that cleaning is idempotent and that an absolute path can never climb above its
  root.
\<close>

abbreviation sep :: char where
  "sep \<equiv> CHR ''/''"

definition dot :: string where
  "dot = ''.''"

definition dotdot :: string where
  "dotdot = ''..''"

lemma dot_simps [simp]: "dot \<noteq> []" "dotdot \<noteq> []" "[] \<noteq> dot" "[] \<noteq> dotdot"
  "dot \<noteq> dotdot" "dotdot \<noteq> dot" "sep \<notin> set dot" "sep \<notin> set dotdot"
  by (simp_all add: dot_def dotdot_def)

section \<open>Definitions\<close>

definition IsAbs :: "string \<Rightarrow> bool" where
  "IsAbs p \<longleftrightarrow> HasPrefix p ''/''"

text \<open>One element of the path is processed against the stack of kept elements, innermost first.\<close>

definition cleanPush :: "bool \<Rightarrow> string \<Rightarrow> string list \<Rightarrow> string list" where
  "cleanPush rooted c st =
     (if c = [] \<or> c = dot then st
      else if c = dotdot then
        (case st of
           [] \<Rightarrow> (if rooted then [] else [dotdot])
         | t # ts \<Rightarrow> (if t = dotdot then dotdot # t # ts else ts))
      else c # st)"

definition cleanComps :: "bool \<Rightarrow> string list \<Rightarrow> string list" where
  "cleanComps rooted cs = rev (fold (cleanPush rooted) cs [])"

text \<open>The element list of a path, and the path of a cleaned element list.\<close>

definition comps :: "string \<Rightarrow> string list" where
  "comps p = cleanComps (IsAbs p) (Split sep p)"

definition unComps :: "bool \<Rightarrow> string list \<Rightarrow> string" where
  "unComps rooted cs =
     (if rooted then sep # Join sep cs else if cs = [] then dot else Join sep cs)"

definition Clean :: "string \<Rightarrow> string" where
  "Clean p = unComps (IsAbs p) (comps p)"

text \<open>\<open>filepath.Join\<close>: empty elements are ignored, the rest joined and cleaned.\<close>

definition JoinPath :: "string list \<Rightarrow> string" where
  "JoinPath ps = (let qs = dropWhile (\<lambda>p. p = []) ps
     in if qs = [] then [] else Clean (Join sep (filter (\<lambda>p. p \<noteq> []) qs)))"

definition Abs :: "string \<Rightarrow> string \<Rightarrow> string" where
  "Abs cwd p = (if IsAbs p then Clean p else JoinPath [cwd, p])"

fun stripCommon :: "string list \<Rightarrow> string list \<Rightarrow> string list \<times> string list" where
  "stripCommon (b # bs) (t # ts) = (if b = t then stripCommon bs ts else (b # bs, t # ts))"
| "stripCommon bs ts = (bs, ts)"

text \<open>
  \<open>filepath.Rel(basepath, targpath)\<close>; \<open>None\<close> is its error.  A relative base \<open>.\<close> counts as no element,
  a relative target \<open>.\<close> as the element \<open>.\<close>, as in the library.
\<close>

definition relBase :: "string \<Rightarrow> string list" where
  "relBase p = comps p"

definition relTarget :: "string \<Rightarrow> string list" where
  "relTarget p = (if \<not> IsAbs p \<and> comps p = [] then [dot] else comps p)"

definition Rel :: "string \<Rightarrow> string \<Rightarrow> string option" where
  "Rel base targ =
     (if Clean base = Clean targ then Some dot
      else if IsAbs base \<noteq> IsAbs targ then None
      else (case stripCommon (relBase base) (relTarget targ) of
              (bs, ts) \<Rightarrow>
                (if ts \<noteq> [] \<and> bs \<noteq> [] \<and> hd bs = dotdot then None
                 else Some (Join sep (replicate (length bs) dotdot @ ts)))))"

text \<open>\<open>filepath.Base\<close> (and \<open>path.Base\<close>).\<close>

definition Base :: "string \<Rightarrow> string" where
  "Base p =
     (if p = [] then dot
      else let q = rev (dropWhile (\<lambda>c. c = sep) (rev p))
           in if q = [] then ''/'' else last (Split sep q))"

text \<open>Normal form of an element list: no empty element, no \<open>.\<close>, and \<open>..\<close> only leading a relative path.\<close>

definition normComps :: "bool \<Rightarrow> string list \<Rightarrow> bool" where
  "normComps rooted cs \<longleftrightarrow>
     (\<forall>c \<in> set cs. c \<noteq> [] \<and> c \<noteq> dot \<and> sep \<notin> set c) \<and>
     (if rooted then dotdot \<notin> set cs else dotdot \<notin> set (dropWhile (\<lambda>c. c = dotdot) cs))"

section \<open>Normal forms\<close>

lemma normComps_Nil [simp]: "normComps r []"
  by (simp add: normComps_def)

lemma normComps_rootedD: "normComps True cs \<Longrightarrow> dotdot \<notin> set cs"
  by (simp add: normComps_def)

lemma dropWhile_snoc_name:
  "c \<noteq> dotdot \<Longrightarrow> dropWhile (\<lambda>c. c = dotdot) (cs @ [c]) = dropWhile (\<lambda>c. c = dotdot) cs @ [c]"
  by (induction cs) auto

lemma dotdot_dropWhile_snoc:
  "dotdot \<notin> set (dropWhile (\<lambda>c. c = dotdot) (cs @ [c])) \<Longrightarrow>
   dotdot \<notin> set (dropWhile (\<lambda>c. c = dotdot) cs)"
  by (induction cs) auto

lemma all_dotdot_snoc:
  assumes "dotdot \<notin> set (dropWhile (\<lambda>c. c = dotdot) (cs @ [dotdot]))"
  shows "\<forall>c \<in> set cs. c = dotdot"
proof (rule ballI, rule ccontr)
  fix c
  assume "c \<in> set cs" and "c \<noteq> dotdot"
  then have "dropWhile (\<lambda>c. c = dotdot) (cs @ [dotdot]) = dropWhile (\<lambda>c. c = dotdot) cs @ [dotdot]"
    by (rule dropWhile_append1)
  with assms show False by simp
qed

lemma dropWhile_all: "\<forall>c \<in> set cs. P c \<Longrightarrow> dropWhile P cs = []"
  by (induction cs) auto

lemma normComps_snoc_name:
  "normComps r cs \<Longrightarrow> c \<noteq> [] \<Longrightarrow> c \<noteq> dot \<Longrightarrow> c \<noteq> dotdot \<Longrightarrow> sep \<notin> set c \<Longrightarrow>
   normComps r (cs @ [c])"
  by (auto simp: normComps_def dropWhile_snoc_name split: if_splits)

lemma normComps_butlast: "normComps r (cs @ [c]) \<Longrightarrow> normComps r cs"
  by (auto simp: normComps_def split: if_splits dest: dotdot_dropWhile_snoc)

lemma normComps_snoc_dotdot:
  assumes "normComps False (cs @ [dotdot])"
  shows "normComps False (cs @ [dotdot, dotdot])"
proof -
  have all: "\<forall>c \<in> set cs. c = dotdot"
    using assms by (intro all_dotdot_snoc) (simp add: normComps_def)
  then have "dropWhile (\<lambda>c. c = dotdot) (cs @ [dotdot, dotdot]) = []"
    by (intro dropWhile_all) auto
  moreover have "c \<noteq> [] \<and> c \<noteq> dot \<and> sep \<notin> set c" if "c \<in> set cs" for c
  proof -
    from all that have "c = dotdot" by (rule bspec)
    then show ?thesis by simp
  qed
  ultimately show ?thesis by (simp add: normComps_def)
qed

lemma cleanPush_norm:
  assumes "normComps r (rev st)" and "sep \<notin> set c"
  shows "normComps r (rev (cleanPush r c st))"
proof (cases "c = [] \<or> c = dot")
  case True
  with assms show ?thesis by (simp add: cleanPush_def)
next
  case False
  show ?thesis
  proof (cases "c = dotdot")
    case dd: True
    show ?thesis
    proof (cases st)
      case Nil
      with dd show ?thesis by (simp add: cleanPush_def normComps_def)
    next
      case (Cons t ts)
      show ?thesis
      proof (cases "t = dotdot")
        case True
        with assms(1) Cons have "r = False" by (auto simp: normComps_def)
        with True dd Cons assms(1) show ?thesis
          using normComps_snoc_dotdot [of "rev ts"] by (simp add: cleanPush_def)
      next
        case False
        with dd Cons assms(1) show ?thesis
          using normComps_butlast [of r "rev ts" t] by (simp add: cleanPush_def)
      qed
    qed
  next
    case nn: False
    with \<open>\<not> (c = [] \<or> c = dot)\<close> assms show ?thesis
      by (simp add: cleanPush_def normComps_snoc_name)
  qed
qed

lemma fold_cleanPush_norm:
  "normComps r (rev st) \<Longrightarrow> \<forall>c \<in> set cs. sep \<notin> set c \<Longrightarrow>
   normComps r (rev (fold (cleanPush r) cs st))"
  by (induction cs arbitrary: st) (auto simp: cleanPush_norm)

lemma cleanComps_norm: "\<forall>c \<in> set cs. sep \<notin> set c \<Longrightarrow> normComps r (cleanComps r cs)"
  unfolding cleanComps_def by (rule fold_cleanPush_norm) simp_all

lemma comps_norm: "normComps (IsAbs p) (comps p)"
  unfolding comps_def by (rule cleanComps_norm) (simp add: Split_no_sep)

text \<open>A list in normal form is its own cleaning.\<close>

lemma cleanComps_append: "cleanComps r (xs @ ys) = rev (fold (cleanPush r) ys (rev (cleanComps r xs)))"
  by (simp add: cleanComps_def)

lemma cleanComps_id: "normComps r cs \<Longrightarrow> cleanComps r cs = cs"
proof (induction cs rule: rev_induct)
  case (snoc c cs)
  have IH: "cleanComps r cs = cs"
    using snoc.prems by (intro snoc.IH) (rule normComps_butlast)
  have props: "c \<noteq> []" "c \<noteq> dot" using snoc.prems by (auto simp: normComps_def)
  show ?case
  proof (cases "c = dotdot")
    case True
    with snoc.prems have r: "r = False" by (auto simp: normComps_def)
    with snoc.prems True have "\<forall>x \<in> set cs. x = dotdot"
      by (intro all_dotdot_snoc) (simp add: normComps_def)
    then have "cs = [] \<or> (\<exists>ds. rev cs = dotdot # ds)"
      by (cases cs rule: rev_cases) auto
    with True r IH show ?thesis by (auto simp: cleanComps_append cleanPush_def)
  next
    case False
    with props IH show ?thesis by (simp add: cleanComps_append cleanPush_def)
  qed
qed (simp add: cleanComps_def)

lemma cleanComps_skip_empty: "cleanComps r ([] # cs) = cleanComps r cs"
  by (simp add: cleanComps_def cleanPush_def)

lemma IsAbs_simps [simp]: "IsAbs (c # cs) \<longleftrightarrow> c = sep" "\<not> IsAbs []"
  by (simp_all add: IsAbs_def)

lemma IsAbs_dot [simp]: "\<not> IsAbs dot" "\<not> IsAbs dotdot"
  by (simp_all add: dot_def dotdot_def)

lemma IsAbs_append: "p \<noteq> [] \<Longrightarrow> IsAbs (p @ q) \<longleftrightarrow> IsAbs p"
  by (cases p) simp_all

lemma normComps_no_sep: "normComps r cs \<Longrightarrow> \<forall>c \<in> set cs. sep \<notin> set c"
  by (simp add: normComps_def)

lemma IsAbs_Join_norm: "normComps r cs \<Longrightarrow> \<not> IsAbs (Join sep cs)"
proof (cases cs)
  case (Cons c ds)
  assume "normComps r cs"
  with Cons have "c \<noteq> []" "sep \<notin> set c" by (auto simp: normComps_def)
  then obtain d e where "c = d # e" "d \<noteq> sep" by (cases c) auto
  with Cons show ?thesis by (cases "ds = []") (simp_all add: Join_Cons)
qed simp

lemma comps_unComps: "normComps r cs \<Longrightarrow> comps (unComps r cs) = cs \<and> IsAbs (unComps r cs) = r"
proof -
  assume n: "normComps r cs"
  show ?thesis
  proof (cases r)
    case True
    have "Split sep (sep # Join sep cs) = [] # Split sep (Join sep cs)"
      by (simp add: Split_Cons)
    moreover have "cleanComps True (Split sep (Join sep cs)) = cs"
    proof (cases "cs = []")
      case True
      then show ?thesis by (simp add: cleanComps_def cleanPush_def)
    next
      case False
      with n normComps_no_sep [OF n] \<open>r\<close> show ?thesis by (simp add: Split_Join cleanComps_id)
    qed
    ultimately show ?thesis
      using True by (simp add: unComps_def comps_def cleanComps_skip_empty)
  next
    case False
    show ?thesis
    proof (cases "cs = []")
      case True
      with False show ?thesis
        by (simp add: unComps_def comps_def Split_single cleanComps_def cleanPush_def IsAbs_dot)
    next
      case ne: False
      with False n show ?thesis
        using IsAbs_Join_norm [OF n] normComps_no_sep [OF n]
        by (simp add: unComps_def comps_def Split_Join cleanComps_id)
    qed
  qed
qed

lemma comps_Clean [simp]: "comps (Clean p) = comps p"
  unfolding Clean_def using comps_unComps [OF comps_norm [of p]] by simp

lemma IsAbs_Clean [simp]: "IsAbs (Clean p) = IsAbs p"
  unfolding Clean_def using comps_unComps [OF comps_norm [of p]] by simp

lemma Clean_idem [simp]: "Clean (Clean p) = Clean p"
  unfolding Clean_def [of "Clean p"] comps_Clean IsAbs_Clean by (rule Clean_def [symmetric])

lemma Clean_eq_iff: "Clean p = Clean q \<longleftrightarrow> IsAbs p = IsAbs q \<and> comps p = comps q"
proof
  assume "Clean p = Clean q"
  then have "comps (Clean p) = comps (Clean q)" "IsAbs (Clean p) = IsAbs (Clean q)" by simp_all
  then show "IsAbs p = IsAbs q \<and> comps p = comps q" by simp
qed (simp add: Clean_def)

lemma Clean_nonempty [simp]: "Clean p \<noteq> []"
proof
  assume "Clean p = []"
  then have "\<not> IsAbs p" "comps p \<noteq> []" "Join sep (comps p) = []"
    by (auto simp: Clean_def unComps_def split: if_splits)
  then obtain c cs where c: "comps p = c # cs" by (cases "comps p") auto
  with comps_norm [of p] have "c \<noteq> []" by (simp add: normComps_def)
  with c \<open>Join sep (comps p) = []\<close> show False by (cases cs) simp_all
qed

lemma comps_abs_no_dotdot: "IsAbs p \<Longrightarrow> dotdot \<notin> set (comps p)"
  using comps_norm [of p] by (simp add: normComps_def)

lemma comps_elem: "c \<in> set (comps p) \<Longrightarrow> c \<noteq> [] \<and> c \<noteq> dot \<and> sep \<notin> set c"
  using comps_norm [of p] by (simp add: normComps_def)

lemma comps_Nil_iff: "comps p = [] \<longleftrightarrow> Clean p = (if IsAbs p then ''/'' else dot)"
proof
  show "comps p = [] \<Longrightarrow> Clean p = (if IsAbs p then ''/'' else dot)"
    by (simp add: Clean_def unComps_def)
next
  assume "Clean p = (if IsAbs p then ''/'' else dot)"
  then have "comps (Clean p) = comps (if IsAbs p then ''/'' else dot)" by (rule arg_cong)
  also have "\<dots> = []"
    by (simp add: comps_def Split_Cons Split_single cleanComps_def cleanPush_def)
  finally show "comps p = []" by simp
qed

section \<open>Joining below a directory\<close>

lemma Split_append_sep: "Split sep (p @ sep # q) = Split sep p @ Split sep q"
proof (induction p)
  case (Cons c p)
  then show ?case by (auto simp: Split_Cons)
qed (simp add: Split_Cons)

lemma comps_append_sep:
  "p \<noteq> [] \<Longrightarrow>
   comps (p @ sep # q) = rev (fold (cleanPush (IsAbs p)) (Split sep q) (rev (comps p)))"
  by (simp add: comps_def IsAbs_append Split_append_sep cleanComps_append)

lemma fold_cleanPush_names:
  "\<forall>c \<in> set cs. c \<noteq> [] \<and> c \<noteq> dot \<and> c \<noteq> dotdot \<Longrightarrow> fold (cleanPush r) cs st = rev cs @ st"
  by (induction cs arbitrary: st) (auto simp: cleanPush_def)

lemma comps_append_names:
  assumes "p \<noteq> []" and "cs \<noteq> []" and "\<forall>c \<in> set cs. c \<noteq> [] \<and> c \<noteq> dot \<and> c \<noteq> dotdot \<and> sep \<notin> set c"
  shows "comps (p @ sep # Join sep cs) = comps p @ cs"
  using assms by (simp add: comps_append_sep Split_Join fold_cleanPush_names)

lemma JoinPath2: "p \<noteq> [] \<Longrightarrow> q \<noteq> [] \<Longrightarrow> JoinPath [p, q] = Clean (p @ sep # q)"
  by (simp add: JoinPath_def)

lemma comps_JoinPath_name:
  assumes "p \<noteq> []" and "c \<noteq> []" "c \<noteq> dot" "c \<noteq> dotdot" "sep \<notin> set c"
  shows "comps (JoinPath [p, c]) = comps p @ [c]" "IsAbs (JoinPath [p, c]) = IsAbs p"
  using assms comps_append_names [of p "[c]"] by (simp_all add: JoinPath2 IsAbs_append)

text \<open>\<open>path\<close> lies inside \<open>root\<close>: lexically, its elements extend those of \<open>root\<close>.\<close>

definition inside :: "string \<Rightarrow> string \<Rightarrow> bool" where
  "inside root p \<longleftrightarrow> IsAbs p = IsAbs root \<and> prefix (comps root) (comps p)"

lemma inside_refl [simp]: "inside p p"
  by (simp add: inside_def)

lemma inside_trans: "inside a b \<Longrightarrow> inside b c \<Longrightarrow> inside a c"
  by (auto simp: inside_def)

lemma inside_Clean [simp]: "inside a (Clean b) = inside a b" "inside (Clean a) b = inside a b"
  by (simp_all add: inside_def)

text \<open>Relative paths of entries below a root.\<close>

lemma Rel_below:
  assumes "IsAbs root" "IsAbs q" "comps q = comps root @ es" "es \<noteq> []"
  shows "Rel root q = Some (Join sep es)"
proof -
  have strip: "stripCommon xs (xs @ ys) = ([], ys)" for xs ys :: "string list"
    by (induction xs) (cases ys, simp_all)
  have "Clean root \<noteq> Clean q" using assms by (simp add: Clean_eq_iff)
  with assms show ?thesis by (simp add: Rel_def relBase_def relTarget_def strip)
qed

lemma Rel_self: "IsAbs root \<Longrightarrow> IsAbs q \<Longrightarrow> comps q = comps root \<Longrightarrow> Rel root q = Some dot"
  by (simp add: Rel_def Clean_eq_iff)

text \<open>Appending a path without parent elements.\<close>

lemma fold_cleanPush_down:
  "dotdot \<notin> set cs \<Longrightarrow> fold (cleanPush r) cs st = rev (filter (\<lambda>c. c \<noteq> [] \<and> c \<noteq> dot) cs) @ st"
  by (induction cs arbitrary: st) (auto simp: cleanPush_def)

lemma comps_append_down:
  "p \<noteq> [] \<Longrightarrow> dotdot \<notin> set (Split sep q) \<Longrightarrow>
   comps (p @ sep # q) = comps p @ filter (\<lambda>c. c \<noteq> [] \<and> c \<noteq> dot) (Split sep q)"
  by (simp add: comps_append_sep fold_cleanPush_down)

lemma Split_Clean: "set (Split sep (Clean p)) \<subseteq> set (comps p) \<union> {[], dot}"
proof (cases "comps p = []")
  case True
  then show ?thesis by (simp add: Clean_def unComps_def Split_Cons Split_single)
next
  case False
  then have "Split sep (Join sep (comps p)) = comps p" by (intro Split_Join) (auto dest: comps_elem)
  with False show ?thesis by (auto simp: Clean_def unComps_def Split_Cons)
qed

end
