(* ===== verification/Admission.thy ===== *)
theory Admission
  imports Go_Json Go_Filepath
begin

text \<open>
  \<open>sysbox-admission/admission\<close>: the mutating webhook that validates the rootfs annotation of a pod
  and injects the sidecar container (\<open>mutate.go\<close>, \<open>sidecar.go\<close>), computes the JSON patch
  (\<open>patch.go\<close>), answers admission reviews (\<open>server.go\<close>) and describes itself to the API server
  (\<open>webhook.go\<close>).  Kubernetes objects are records of the fields these files read or write; all other
  fields of an object are kept in one opaque component.
\<close>

section \<open>Kubernetes objects\<close>

record VolumeMount =
  vmName :: string
  vmMountPath :: string

record Container =
  cName :: string
  cImage :: string
  cVolumeMounts :: "VolumeMount list"
  cOther :: json

record Volume =
  volName :: string
  volClaim :: "string option"

record PodSpec =
  RuntimeClassName :: "string option"
  Containers :: "Container list"
  Volumes :: "Volume list"
  specOther :: json

record Pod =
  Annotations :: "(string, string) fmap option"
  Labels :: "(string, string) fmap option"
  Spec :: PodSpec
  podOther :: json

section \<open>mutate.go\<close>

definition AnnotationRootfsRwLayer :: string where
  "AnnotationRootfsRwLayer = ''sysbox/rootfs-rw-layer''"

definition RuntimeClassSysboxRunc :: string where
  "RuntimeClassSysboxRunc = ''sysbox-runc''"

definition RuntimeClassRuncLite :: string where
  "RuntimeClassRuncLite = ''sysbox-runc-lite''"

definition AnnotationVolumeInit :: string where
  "AnnotationVolumeInit = ''sysbox/volume-init''"

record RootfsRwLayerEntry =
  Name :: string
  VolumeName :: string
  Path :: string
  PersistentSpecialMounts :: bool
  SpecialPath :: "string list"

definition zeroEntry :: RootfsRwLayerEntry where
  "zeroEntry = \<lparr>Name = [], VolumeName = [], Path = [], PersistentSpecialMounts = False, SpecialPath = []\<rparr>"

datatype adm_error =
    RequiresRuntimeClass
  | AnnotationEmpty
  | AnnotationInvalid
  | TrailingData
  | EntryNameRequired
  | ConfiguredTwice string
  | VolumeNameRequired string
  | ContainerNotFound string
  | NotPVCVolume string
  | EmptyClaim string
  | PathInvalid string adm_error
  | PathNotRelative
  | PathEscapes
  | SpecialRequiresPersistent string
  | SpecialInvalid string string adm_error
  | SpecialNotAbsolute
  | SpecialIsRoot
  | SpecialOverlap string string string
  | ContextError string
  | UnsupportedResource string
  | DecodeError string
  | MissingRequest
  | BodyTooLarge
  | BodyReadError string

definition isManagedRuntime :: "string \<Rightarrow> bool" where
  "isManagedRuntime name \<longleftrightarrow> name = RuntimeClassSysboxRunc \<or> name = RuntimeClassRuncLite"

definition managed :: "string option \<Rightarrow> bool" where
  "managed rc = (case rc of None \<Rightarrow> False | Some name \<Rightarrow> isManagedRuntime name)"

text \<open>The struct fields, with \<open>DisallowUnknownFields\<close>.\<close>

definition entryField :: "string \<Rightarrow> json \<Rightarrow> RootfsRwLayerEntry \<Rightarrow> RootfsRwLayerEntry option" where
  "entryField k v e =
     (if fieldMatch ''name'' k then map_option (\<lambda>s. e\<lparr>Name := s\<rparr>) (setString v (Name e))
      else if fieldMatch ''volumeName'' k then map_option (\<lambda>s. e\<lparr>VolumeName := s\<rparr>) (setString v (VolumeName e))
      else if fieldMatch ''path'' k then map_option (\<lambda>s. e\<lparr>Path := s\<rparr>) (setString v (Path e))
      else if fieldMatch ''persistentSpecialMounts'' k
      then map_option (\<lambda>b. e\<lparr>PersistentSpecialMounts := b\<rparr>) (setBool v (PersistentSpecialMounts e))
      else if fieldMatch ''specialPath'' k
      then map_option (\<lambda>l. e\<lparr>SpecialPath := l\<rparr>) (setStrings v (SpecialPath e))
      else None)"

fun findFrom :: "('a \<Rightarrow> bool) \<Rightarrow> nat \<Rightarrow> 'a list \<Rightarrow> nat option" where
  "findFrom P i [] = None"
| "findFrom P i (x # xs) = (if P x then Some i else findFrom P (Suc i) xs)"

definition findContainer :: "PodSpec \<Rightarrow> string \<Rightarrow> nat option" where
  "findContainer spec name = findFrom (\<lambda>c. cName c = name) 0 (Containers spec)"

fun findPVC :: "nat \<Rightarrow> string \<Rightarrow> Volume list \<Rightarrow> (nat \<times> string) option" where
  "findPVC i name [] = None"
| "findPVC i name (v # vs) =
     (case volClaim v of
        Some claim \<Rightarrow> if volName v = name then Some (i, claim) else findPVC (Suc i) name vs
      | None \<Rightarrow> findPVC (Suc i) name vs)"

definition findPVCVolume :: "PodSpec \<Rightarrow> string \<Rightarrow> (nat \<times> string) option" where
  "findPVCVolume spec volumeName = findPVC 0 volumeName (Volumes spec)"

definition validateRelativePath :: "string \<Rightarrow> (adm_error, unit) result" where
  "validateRelativePath path =
     (if path = [] then Inr ()
      else rguard (IsAbs path) PathNotRelative
        (let cleaned = Clean path
         in if cleaned = ''.'' then Inr ()
            else rguard (cleaned = ''..'' \<or> (length cleaned \<ge> 3 \<and> take 3 cleaned = ''../'')) PathEscapes
                   (Inr ())))"

definition builtinSpecialPaths :: "string list" where
  "builtinSpecialPaths =
     [''/var/lib/docker'', ''/var/lib/kubelet'', ''/var/lib/k0s'', ''/var/lib/rancher/k3s'',
      ''/var/lib/rancher/rke2'', ''/var/lib/buildkit'',
      ''/var/lib/containerd/io.containerd.snapshotter.v1.overlayfs'']"

definition validateSpecialPath :: "string \<Rightarrow> (adm_error, string) result" where
  "validateSpecialPath path =
     rguard (\<not> IsAbs path) SpecialNotAbsolute
       (let cleaned = Clean path
        in rguard (cleaned = [sep]) SpecialIsRoot (Inr cleaned))"

definition pathsOverlap :: "string \<Rightarrow> string \<Rightarrow> bool" where
  "pathsOverlap left right \<longleftrightarrow>
     left = right \<or> HasPrefix left (right @ [sep]) \<or> HasPrefix right (left @ [sep])"

definition checkOverlap :: "string \<Rightarrow> string \<Rightarrow> string \<Rightarrow> string \<Rightarrow> unit \<Rightarrow> (adm_error, unit) result" where
  "checkOverlap name path cleaned existing u =
     rguard (pathsOverlap cleaned existing) (SpecialOverlap name path existing) (Inr ())"

definition specialStep :: "string \<Rightarrow> string \<Rightarrow> string list \<Rightarrow> (adm_error, string list) result" where
  "specialStep name path paths =
     (case validateSpecialPath path of
        Inl err \<Rightarrow> Inl (SpecialInvalid name path err)
      | Inr cleaned \<Rightarrow>
          rbind (rfold (checkOverlap name path cleaned) paths ()) (\<lambda>_. Inr (paths @ [cleaned])))"

definition validateEntry :: "PodSpec \<Rightarrow> RootfsRwLayerEntry \<Rightarrow> (adm_error, unit) result" where
  "validateEntry spec entry =
     rguard (VolumeName entry = []) (VolumeNameRequired (Name entry))
     (rguard (findContainer spec (Name entry) = None) (ContainerNotFound (Name entry))
     (case findPVCVolume spec (VolumeName entry) of
        None \<Rightarrow> Inl (NotPVCVolume (VolumeName entry))
      | Some (_, claimName) \<Rightarrow>
          rguard (claimName = []) (EmptyClaim (VolumeName entry))
          (case validateRelativePath (Path entry) of
             Inl err \<Rightarrow> Inl (PathInvalid (Name entry) err)
           | Inr _ \<Rightarrow>
               rguard (SpecialPath entry \<noteq> [] \<and> \<not> PersistentSpecialMounts entry)
                 (SpecialRequiresPersistent (Name entry))
               (rbind (rfold (specialStep (Name entry)) (SpecialPath entry) builtinSpecialPaths)
                  (\<lambda>_. Inr ())))))"

definition entryStep ::
  "PodSpec \<Rightarrow> RootfsRwLayerEntry \<Rightarrow> string list \<Rightarrow> (adm_error, string list) result" where
  "entryStep spec entry seen =
     rguard (Name entry = []) EntryNameRequired
     (rguard (Name entry \<in> set seen) (ConfiguredTwice (Name entry))
     (rbind (validateEntry spec entry) (\<lambda>_. Inr (Name entry # seen))))"

text \<open>\<open>None\<close> is the result \<open>nil, false, nil\<close>: the pod carries no annotation.\<close>

definition parseRootfsAnnotation ::
  "(string, string) fmap option \<Rightarrow> PodSpec \<Rightarrow> (adm_error, RootfsRwLayerEntry list option) result" where
  "parseRootfsAnnotation annotations spec =
     (case Option.bind annotations (\<lambda>m. fmlookup m AnnotationRootfsRwLayer) of
        None \<Rightarrow> Inr None
      | Some raw \<Rightarrow>
          rguard (TrimSpace raw = []) AnnotationEmpty
          (case decodeFirst raw of
             None \<Rightarrow> Inl AnnotationInvalid
           | Some (v, rest) \<Rightarrow>
               (case decodeSlice entryField zeroEntry v of
                  None \<Rightarrow> Inl AnnotationInvalid
                | Some entries \<Rightarrow>
                    rguard (skipWs rest \<noteq> []) TrailingData
                    (rguard (entries = []) AnnotationEmpty
                    (rbind (rfold (entryStep spec) entries []) (\<lambda>_. Inr (Some entries)))))))"

section \<open>sidecar.go\<close>

definition SidecarMountPath :: string where
  "SidecarMountPath = ''/var/lib/sysbox/rootfs-rw-volume''"

definition SidecarContainerName :: string where
  "SidecarContainerName = ''sysbox-rootfs''"

fun sidecarMounts :: "string list \<Rightarrow> RootfsRwLayerEntry list \<Rightarrow> VolumeMount list" where
  "sidecarMounts seen [] = []"
| "sidecarMounts seen (e # es) =
     (if VolumeName e \<in> set seen then sidecarMounts seen es
      else \<lparr>vmName = VolumeName e, vmMountPath = JoinPath [SidecarMountPath, VolumeName e]\<rparr> #
           sidecarMounts (VolumeName e # seen) es)"

definition requiredSidecarMounts :: "RootfsRwLayerEntry list \<Rightarrow> VolumeMount list" where
  "requiredSidecarMounts entries = sidecarMounts [] entries"

definition canonicalSidecar :: "RootfsRwLayerEntry list \<Rightarrow> string \<Rightarrow> Container" where
  "canonicalSidecar entries sandboxImage =
     \<lparr>cName = SidecarContainerName, cImage = sandboxImage,
      cVolumeMounts = requiredSidecarMounts entries, cOther = JNull\<rparr>"

definition ensureSidecar :: "PodSpec \<Rightarrow> RootfsRwLayerEntry list \<Rightarrow> string \<Rightarrow> PodSpec" where
  "ensureSidecar spec entries sandboxImage =
     spec\<lparr>Containers := filter (\<lambda>c. cName c \<noteq> SidecarContainerName) (Containers spec) @
                       [canonicalSidecar entries sandboxImage]\<rparr>"

section \<open>Mutate\<close>

definition mutatePod :: "string \<Rightarrow> string option \<Rightarrow> Pod \<Rightarrow> (adm_error, Pod) result" where
  "mutatePod sandboxImage ctxErr pod =
     (let configured = Option.bind (Annotations pod) (\<lambda>m. fmlookup m AnnotationRootfsRwLayer) \<noteq> None;
          isManaged = managed (RuntimeClassName (Spec pod))
      in rguard (configured \<and> \<not> isManaged) RequiresRuntimeClass
         (if \<not> isManaged then Inr pod
          else let pod1 = pod\<lparr>Annotations := map_option (fmdrop AnnotationVolumeInit) (Annotations pod)\<rparr>
          in rbind (parseRootfsAnnotation (Annotations pod1) (Spec pod1)) (\<lambda>res.
             case ctxErr of
               Some err \<Rightarrow> Inl (ContextError err)
             | None \<Rightarrow>
                 (case res of
                    None \<Rightarrow> Inr pod1
                  | Some entries \<Rightarrow> Inr (pod1\<lparr>Spec := ensureSidecar (Spec pod1) entries sandboxImage\<rparr>)))))"

definition Mutate :: "string \<Rightarrow> string option \<Rightarrow> Pod \<Rightarrow> (adm_error, Pod) result" where
  "Mutate sandboxImage ctxErr pod = mutatePod sandboxImage ctxErr pod"

section \<open>Overlapping paths\<close>

lemma Join_append: "xs \<noteq> [] \<Longrightarrow> ys \<noteq> [] \<Longrightarrow> Join s (xs @ ys) = Join s xs @ s # Join s ys"
proof (induction xs)
  case (Cons x xs)
  then show ?case by (cases "xs = []") (simp_all add: Join_Cons)
qed simp

lemma HasPrefix_Clean_abs:
  assumes "IsAbs a" "IsAbs b" "comps a \<noteq> []"
  shows "HasPrefix (Clean b) (Clean a @ [sep]) \<longleftrightarrow> strict_prefix (comps a) (comps b)"
proof
  have sp: "Split sep (Join sep (comps x)) = comps x" if "comps x \<noteq> []" for x
    using that comps_elem by (intro Split_Join) blast+
  assume "HasPrefix (Clean b) (Clean a @ [sep])"
  then obtain t where t: "Join sep (comps b) = Join sep (comps a) @ sep # t"
    using assms by (auto simp: HasPrefix_iff Clean_def unComps_def)
  then have "comps b \<noteq> []" by auto
  then have "comps b = comps a @ Split sep t"
    using arg_cong [OF t, of "Split sep"] assms(3) by (simp add: sp Split_append_sep)
  then show "strict_prefix (comps a) (comps b)"
    by (auto simp: strict_prefix_def)
next
  assume "strict_prefix (comps a) (comps b)"
  then obtain c cs where "comps b = comps a @ c # cs" by (auto elim: strict_prefixE')
  then show "HasPrefix (Clean b) (Clean a @ [sep])"
    using assms by (auto simp: HasPrefix_iff Clean_def unComps_def Join_append)
qed

lemma overlap_inside:
  assumes "IsAbs a" "IsAbs b" "comps a \<noteq> []" "comps b \<noteq> []"
  shows "pathsOverlap (Clean a) (Clean b) \<longleftrightarrow> inside a b \<or> inside b a"
  unfolding pathsOverlap_def Clean_eq_iff HasPrefix_Clean_abs [OF assms(1,2,3)]
    HasPrefix_Clean_abs [OF assms(2,1,4)] inside_def strict_prefix_def
  using assms(1,2) by (metis prefix_order.refl)

lemma validateSpecialPath_Inr:
  "validateSpecialPath p = Inr c \<longleftrightarrow> IsAbs p \<and> comps p \<noteq> [] \<and> c = Clean p"
  using comps_Nil_iff [of p]
  by (auto simp: validateSpecialPath_def rguard_Inr_iff Let_def)

definition absPath :: "string \<Rightarrow> bool" where
  "absPath p \<longleftrightarrow> IsAbs p \<and> comps p \<noteq> [] \<and> Clean p = p"

lemma builtin_absPath: "\<forall>p \<in> set builtinSpecialPaths. absPath p"
  by code_simp

text \<open>No two paths of the list lie inside one another.\<close>

definition separated :: "string list \<Rightarrow> bool" where
  "separated ps \<longleftrightarrow> sorted_wrt (\<lambda>a b. \<not> inside a b \<and> \<not> inside b a) ps"

lemma checkOverlap_fold:
  "rfold (checkOverlap n p c) ps u = Inr u' \<longleftrightarrow> (\<forall>e \<in> set ps. \<not> pathsOverlap c e)"
  by (induction ps arbitrary: u) (auto simp: checkOverlap_def rguard_def)

lemma specialStep_separated:
  assumes "\<forall>p \<in> set ps. absPath p" "separated ps" and "specialStep n path ps = Inr qs"
  shows "(\<forall>p \<in> set qs. absPath p) \<and> separated qs \<and> qs = ps @ [Clean path]"
proof -
  from assms(3) have p: "IsAbs path" "comps path \<noteq> []" and qs: "qs = ps @ [Clean path]"
    and no: "\<forall>e \<in> set ps. \<not> pathsOverlap (Clean path) e"
    by (auto simp: specialStep_def rbind_Inr_iff checkOverlap_fold validateSpecialPath_Inr split: sum.splits)
  have "\<not> inside e (Clean path) \<and> \<not> inside (Clean path) e" if "e \<in> set ps" for e
  proof -
    have "IsAbs e" "comps e \<noteq> []" "Clean e = e" using assms(1) that by (auto simp: absPath_def)
    with overlap_inside [of path e] p no that show ?thesis by auto
  qed
  with assms(1,2) p qs show ?thesis
    by (auto simp: separated_def sorted_wrt_append absPath_def)
qed

lemma specialSteps_separated:
  assumes "rfold (specialStep n) paths ps = Inr qs" and "\<forall>p \<in> set ps. absPath p" "separated ps"
  shows "(\<forall>p \<in> set qs. absPath p) \<and> separated qs \<and> qs = ps @ map Clean paths"
  using assms
proof (induction paths arbitrary: ps)
  case (Cons p paths)
  then obtain ps1 where "specialStep n p ps = Inr ps1" "rfold (specialStep n) paths ps1 = Inr qs"
    by (auto simp: rbind_Inr_iff)
  with Cons.IH [of ps1] specialStep_separated [OF Cons.prems(2,3)] show ?case by auto
qed simp

section \<open>What validation guarantees\<close>

lemma comps_rel_dotdot: "\<not> IsAbs p \<Longrightarrow> dotdot \<in> set (comps p) \<longleftrightarrow> comps p \<noteq> [] \<and> hd (comps p) = dotdot"
  using comps_norm [of p] by (cases "comps p") (auto simp: normComps_def split: if_splits)

lemma Clean_rel: "\<not> IsAbs p \<Longrightarrow> comps p \<noteq> [] \<Longrightarrow> Clean p = Join sep (comps p)"
  by (simp add: Clean_def unComps_def)

lemma Split_Clean_rel: "\<not> IsAbs p \<Longrightarrow> comps p \<noteq> [] \<Longrightarrow> Split sep (Clean p) = comps p"
  unfolding Clean_rel using comps_elem by (intro Split_Join) blast+

lemma Clean_escapes:
  assumes "\<not> IsAbs p" "comps p \<noteq> []"
  shows "Clean p = ''..'' \<or> (length (Clean p) \<ge> 3 \<and> take 3 (Clean p) = ''../'') \<longleftrightarrow> dotdot \<in> set (comps p)"
    (is "?esc \<longleftrightarrow> _")
proof
  assume ?esc
  then have "hd (Split sep (Clean p)) = dotdot"
  proof (elim disjE conjE)
    assume "take 3 (Clean p) = ''../''"
    then have "Clean p = dotdot @ sep # drop 3 (Clean p)"
      by (metis append_take_drop_id append_Cons append_Nil dotdot_def)
    then have "Split sep (Clean p) = dotdot # Split sep (drop 3 (Clean p))"
      by (metis Split_cons dot_simps(8))
    then show ?thesis by simp
  qed (simp add: Split_single dotdot_def)
  then show "dotdot \<in> set (comps p)"
    using assms by (simp add: Split_Clean_rel comps_rel_dotdot)
next
  assume "dotdot \<in> set (comps p)"
  then obtain cs where "comps p = dotdot # cs"
    using assms comps_rel_dotdot [OF assms(1)] by (cases "comps p") auto
  then show ?esc using assms by (cases "cs = []") (auto simp: Clean_rel Join_Cons dotdot_def)
qed

lemma validateRelativePath_ok:
  "validateRelativePath p = Inr () \<longleftrightarrow> \<not> IsAbs p \<and> dotdot \<notin> set (comps p)"
proof (cases "p = [] \<or> IsAbs p")
  case True
  then show ?thesis by (auto simp: validateRelativePath_def rguard_def comps_def cleanComps_def cleanPush_def)
next
  case False
  then have "Clean p = ''.'' \<longleftrightarrow> comps p = []" using comps_Nil_iff [of p] by (simp add: dot_def)
  with False Clean_escapes [of p] show ?thesis
    by (cases "comps p = []") (auto simp: validateRelativePath_def rguard_def Let_def)
qed

lemma findFrom_None: "findFrom P i xs = None \<longleftrightarrow> (\<forall>x \<in> set xs. \<not> P x)"
  by (induction P i xs rule: findFrom.induct) auto

lemma findPVC_Some:
  "findPVC i name vs = Some (j, claim) \<Longrightarrow> \<exists>v \<in> set vs. volName v = name \<and> volClaim v = Some claim"
  by (induction i name vs rule: findPVC.induct) (auto split: option.splits if_splits)

definition entryValid :: "PodSpec \<Rightarrow> RootfsRwLayerEntry \<Rightarrow> bool" where
  "entryValid spec e \<longleftrightarrow>
     Name e \<noteq> [] \<and> VolumeName e \<noteq> [] \<and>
     (\<exists>c \<in> set (Containers spec). cName c = Name e) \<and>
     (\<exists>v \<in> set (Volumes spec). volName v = VolumeName e \<and> volClaim v \<noteq> None \<and> volClaim v \<noteq> Some []) \<and>
     \<not> IsAbs (Path e) \<and> dotdot \<notin> set (comps (Path e)) \<and>
     (SpecialPath e \<noteq> [] \<longrightarrow> PersistentSpecialMounts e) \<and>
     (\<forall>p \<in> set (SpecialPath e). IsAbs p \<and> comps p \<noteq> []) \<and>
     separated (builtinSpecialPaths @ map Clean (SpecialPath e))"

lemma builtin_separated: "separated builtinSpecialPaths"
  unfolding separated_def by code_simp

lemma validateEntry_valid:
  assumes "validateEntry spec e = Inr ()" and "Name e \<noteq> []"
  shows "entryValid spec e"
proof -
  from assms(1) obtain j claim qs where "VolumeName e \<noteq> []" "findContainer spec (Name e) \<noteq> None"
    and pvc: "findPVCVolume spec (VolumeName e) = Some (j, claim)" "claim \<noteq> []"
    and rel: "validateRelativePath (Path e) = Inr ()"
    and sp: "SpecialPath e = [] \<or> PersistentSpecialMounts e"
    and st: "rfold (specialStep (Name e)) (SpecialPath e) builtinSpecialPaths = Inr qs"
    by (auto simp: validateEntry_def rguard_Inr_iff rbind_Inr_iff split: option.splits sum.splits)
  moreover have abs: "(\<forall>p \<in> set qs. absPath p) \<and> separated qs \<and> qs = builtinSpecialPaths @ map Clean (SpecialPath e)"
    by (rule specialSteps_separated [OF st builtin_absPath builtin_separated])
  moreover have "\<forall>p \<in> set (SpecialPath e). IsAbs p \<and> comps p \<noteq> []"
  proof
    fix p assume "p \<in> set (SpecialPath e)"
    with abs have "Clean p \<in> set qs" by simp
    with abs have "absPath (Clean p)" by blast
    then show "IsAbs p \<and> comps p \<noteq> []" by (simp add: absPath_def)
  qed
  moreover have "\<exists>v \<in> set (Volumes spec). volName v = VolumeName e \<and> volClaim v \<noteq> None \<and> volClaim v \<noteq> Some []"
    using findPVC_Some [OF pvc(1) [unfolded findPVCVolume_def]] pvc(2) by auto
  moreover have "\<exists>c \<in> set (Containers spec). cName c = Name e"
    using \<open>findContainer spec (Name e) \<noteq> None\<close> by (simp add: findContainer_def findFrom_None)
  ultimately show ?thesis
    using assms(2) unfolding entryValid_def validateRelativePath_ok by blast
qed

lemma entryStep_Inr:
  "entryStep spec e seen = Inr s \<longleftrightarrow>
   Name e \<noteq> [] \<and> Name e \<notin> set seen \<and> validateEntry spec e = Inr () \<and> s = Name e # seen"
  by (auto simp: entryStep_def rbind_Inr_iff rguard_Inr_iff)

definition annotation :: "(string, string) fmap option \<Rightarrow> string option" where
  "annotation ann = Option.bind ann (\<lambda>m. fmlookup m AnnotationRootfsRwLayer)"

definition decodesTo :: "string \<Rightarrow> RootfsRwLayerEntry list \<Rightarrow> bool" where
  "decodesTo raw es \<longleftrightarrow> TrimSpace raw \<noteq> [] \<and> es \<noteq> [] \<and>
     (\<exists>v rest. decodeFirst raw = Some (v, rest) \<and> skipWs rest = [] \<and> decodeSlice entryField zeroEntry v = Some es)"

lemma parse_None: "parseRootfsAnnotation ann spec = Inr None \<longleftrightarrow> annotation ann = None"
  by (auto simp: parseRootfsAnnotation_def annotation_def rguard_Inr_iff rbind_Inr_iff split: option.splits)

lemma parse_Some:
  "parseRootfsAnnotation ann spec = Inr (Some es) \<longleftrightarrow>
   (\<exists>raw seen. annotation ann = Some raw \<and> decodesTo raw es \<and> rfold (entryStep spec) es [] = Inr seen)"
  by (auto simp: parseRootfsAnnotation_def annotation_def decodesTo_def rguard_Inr_iff rbind_Inr_iff
      split: option.splits)

lemma entrySteps_valid:
  assumes "rfold (entryStep spec) es seen = Inr seen'" and "distinct seen"
  shows "distinct (map Name es @ seen) \<and> (\<forall>e \<in> set es. entryValid spec e)"
  using assms
proof (induction es arbitrary: seen)
  case (Cons e es)
  then have e: "Name e \<noteq> []" "Name e \<notin> set seen" "validateEntry spec e = Inr ()"
    and rest: "rfold (entryStep spec) es (Name e # seen) = Inr seen'"
    by (auto simp: entryStep_Inr rbind_Inr_iff)
  have "distinct (map Name es @ Name e # seen) \<and> (\<forall>e \<in> set es. entryValid spec e)"
    using Cons.IH [OF rest] Cons.prems(2) e(2) by simp
  with validateEntry_valid [OF e(3,1)] show ?case by auto
qed simp

lemma parse_valid:
  assumes "parseRootfsAnnotation ann spec = Inr (Some es)"
  shows "es \<noteq> []" "distinct (map Name es)" "\<forall>e \<in> set es. entryValid spec e"
proof -
  from assms obtain seen where "es \<noteq> []" and st: "rfold (entryStep spec) es [] = Inr seen"
    by (auto simp: parse_Some decodesTo_def)
  then show "es \<noteq> []" by simp
  show "distinct (map Name es)" "\<forall>e \<in> set es. entryValid spec e"
    using entrySteps_valid [OF st] by simp_all
qed

text \<open>Validation reads of the pod spec only the volumes and which container names exist.\<close>

lemma findContainer_names: "findContainer spec n \<noteq> None \<longleftrightarrow> n \<in> cName ` set (Containers spec)"
  by (auto simp: findContainer_def findFrom_None)

lemma validateEntry_mono:
  assumes "validateEntry spec e = Inr ()" and "Volumes spec' = Volumes spec"
    and "cName ` set (Containers spec) \<subseteq> cName ` set (Containers spec')"
  shows "validateEntry spec' e = Inr ()"
proof -
  have "findContainer spec (Name e) \<noteq> None"
    using assms(1) by (auto simp: validateEntry_def rguard_Inr_iff)
  moreover from this have "findContainer spec' (Name e) \<noteq> None"
    unfolding findContainer_names using assms(3) by blast
  moreover have "findPVCVolume spec' = findPVCVolume spec"
    by (simp add: findPVCVolume_def assms(2) fun_eq_iff)
  ultimately have "validateEntry spec' e = validateEntry spec e"
    by (simp only: validateEntry_def)
  with assms(1) show ?thesis by simp
qed

lemma entrySteps_mono:
  assumes "rfold (entryStep spec) es seen = Inr s'" and "Volumes spec' = Volumes spec"
    and "cName ` set (Containers spec) \<subseteq> cName ` set (Containers spec')"
  shows "rfold (entryStep spec') es seen = Inr s'"
  using assms(1)
proof (induction es arbitrary: seen)
  case (Cons e es)
  then have "entryStep spec e seen = Inr (Name e # seen)" and rest: "rfold (entryStep spec) es (Name e # seen) = Inr s'"
    by (auto simp: entryStep_Inr rbind_Inr_iff)
  then have "entryStep spec' e seen = Inr (Name e # seen)"
    using validateEntry_mono [OF _ assms(2,3)] by (auto simp: entryStep_Inr)
  with Cons.IH [OF rest] show ?case by simp
qed simp

lemma parse_mono:
  assumes "parseRootfsAnnotation ann spec = Inr r" and "Volumes spec' = Volumes spec"
    and "cName ` set (Containers spec) \<subseteq> cName ` set (Containers spec')"
  shows "parseRootfsAnnotation ann spec' = Inr r"
proof (cases r)
  case None
  with assms(1) show ?thesis by (simp add: parse_None)
next
  case (Some es)
  with assms(1) show ?thesis using entrySteps_mono [OF _ assms(2,3)] by (auto simp: parse_Some)
qed

lemma ensureSidecar_simps:
  "Volumes (ensureSidecar spec es img) = Volumes spec"
  "RuntimeClassName (ensureSidecar spec es img) = RuntimeClassName spec"
  "ensureSidecar (ensureSidecar spec es img) es img = ensureSidecar spec es img"
  by (simp_all add: ensureSidecar_def canonicalSidecar_def)

lemma ensureSidecar_names:
  "cName ` set (Containers spec) \<subseteq> cName ` set (Containers (ensureSidecar spec es img))"
  by (auto simp: ensureSidecar_def canonicalSidecar_def)

lemma Mutate_cases:
  assumes "Mutate img ctxErr pod = Inr p"
  obtains (unmanaged) "p = pod" "\<not> managed (RuntimeClassName (Spec pod))"
      "annotation (Annotations pod) = None"
    | (plain) "managed (RuntimeClassName (Spec pod))" "ctxErr = None"
      "p = pod\<lparr>Annotations := map_option (fmdrop AnnotationVolumeInit) (Annotations pod)\<rparr>"
      "parseRootfsAnnotation (Annotations p) (Spec pod) = Inr None"
    | (sidecar) es where "managed (RuntimeClassName (Spec pod))" "ctxErr = None"
      "p = pod\<lparr>Annotations := map_option (fmdrop AnnotationVolumeInit) (Annotations pod),
               Spec := ensureSidecar (Spec pod) es img\<rparr>"
      "parseRootfsAnnotation (Annotations p) (Spec pod) = Inr (Some es)"
proof (cases "managed (RuntimeClassName (Spec pod))")
  case False
  with assms have "p = pod" "annotation (Annotations pod) = None"
    by (auto simp: Mutate_def mutatePod_def Let_def rguard_Inr_iff annotation_def)
  with False unmanaged show ?thesis by blast
next
  case True
  let ?pod = "pod\<lparr>Annotations := map_option (fmdrop AnnotationVolumeInit) (Annotations pod)\<rparr>"
  from True assms obtain res where "ctxErr = None" "parseRootfsAnnotation (Annotations ?pod) (Spec pod) = Inr res"
    and p: "p = (case res of None \<Rightarrow> ?pod | Some es \<Rightarrow> ?pod\<lparr>Spec := ensureSidecar (Spec pod) es img\<rparr>)"
    by (auto simp: Mutate_def mutatePod_def Let_def rguard_Inr_iff rbind_Inr_iff split: option.splits)
  with True plain sidecar show ?thesis by (cases res) simp_all
qed

section \<open>patch.go\<close>

datatype patchValue =
    RuntimeClassValue "string option"
  | ContainersValue "Container list"
  | StringMapValue "(string, string) fmap option"

record jsonPatch =
  Op :: string
  PatchPath :: string
  PatchVal :: patchValue

text \<open>One conditional block of \<open>patchForPod\<close>, and the list that \<open>patchForPod\<close> marshals.\<close>

definition fieldPatch :: "bool \<Rightarrow> bool \<Rightarrow> string \<Rightarrow> patchValue \<Rightarrow> jsonPatch list" where
  "fieldPatch differs present path v =
     (if differs then [\<lparr>Op = (if present then ''replace'' else ''add''), PatchPath = path, PatchVal = v\<rparr>]
      else [])"

definition patchForPod :: "Pod \<Rightarrow> Pod \<Rightarrow> jsonPatch list" where
  "patchForPod original mutated =
     fieldPatch (RuntimeClassName (Spec original) \<noteq> RuntimeClassName (Spec mutated))
       (RuntimeClassName (Spec original) \<noteq> None) ''/spec/runtimeClassName''
       (RuntimeClassValue (RuntimeClassName (Spec mutated))) @
     fieldPatch (Containers (Spec original) \<noteq> Containers (Spec mutated)) True
       ''/spec/containers'' (ContainersValue (Containers (Spec mutated))) @
     fieldPatch (Annotations original \<noteq> Annotations mutated) (Annotations original \<noteq> None)
       ''/metadata/annotations'' (StringMapValue (Annotations mutated)) @
     fieldPatch (Labels original \<noteq> Labels mutated) (Labels original \<noteq> None)
       ''/metadata/labels'' (StringMapValue (Labels mutated))"

text \<open>
  What the API server does with one operation (RFC 6902): \<open>add\<close> sets the member, \<open>replace\<close> needs it to
  exist, anything else is refused.
\<close>

definition applyOp :: "jsonPatch \<Rightarrow> Pod \<Rightarrow> Pod option" where
  "applyOp p pod =
     (if Op p \<noteq> ''add'' \<and> Op p \<noteq> ''replace'' then None
      else case PatchVal p of
        RuntimeClassValue rc \<Rightarrow>
          (if PatchPath p = ''/spec/runtimeClassName'' \<and>
              (Op p = ''replace'' \<longrightarrow> RuntimeClassName (Spec pod) \<noteq> None)
           then Some (pod\<lparr>Spec := Spec pod\<lparr>RuntimeClassName := rc\<rparr>\<rparr>) else None)
      | ContainersValue cs \<Rightarrow>
          (if PatchPath p = ''/spec/containers''
           then Some (pod\<lparr>Spec := Spec pod\<lparr>Containers := cs\<rparr>\<rparr>) else None)
      | StringMapValue m \<Rightarrow>
          (if PatchPath p = ''/metadata/annotations'' \<and> (Op p = ''replace'' \<longrightarrow> Annotations pod \<noteq> None)
           then Some (pod\<lparr>Annotations := m\<rparr>)
           else if PatchPath p = ''/metadata/labels'' \<and> (Op p = ''replace'' \<longrightarrow> Labels pod \<noteq> None)
           then Some (pod\<lparr>Labels := m\<rparr>)
           else None))"

fun applyPatch :: "jsonPatch list \<Rightarrow> Pod \<Rightarrow> Pod option" where
  "applyPatch [] pod = Some pod"
| "applyPatch (p # ps) pod = Option.bind (applyOp p pod) (applyPatch ps)"

definition patchable :: "Pod \<Rightarrow> Pod \<Rightarrow> bool" where
  "patchable original mutated \<longleftrightarrow>
     Volumes (Spec original) = Volumes (Spec mutated) \<and> specOther (Spec original) = specOther (Spec mutated) \<and>
     podOther original = podOther mutated"

lemma applyPatch_append: "applyPatch (ps @ qs) pod = Option.bind (applyPatch ps pod) (applyPatch qs)"
proof (induction ps arbitrary: pod)
  case (Cons p ps)
  show ?case by (cases "applyOp p pod") (simp_all add: Cons)
qed simp

lemma applyPatch_field:
  "RuntimeClassName (Spec pod) = rc \<Longrightarrow>
   applyPatch (fieldPatch (rc \<noteq> rc') (rc \<noteq> None) ''/spec/runtimeClassName'' (RuntimeClassValue rc')) pod =
   Some (pod\<lparr>Spec := Spec pod\<lparr>RuntimeClassName := rc'\<rparr>\<rparr>)"
  "Containers (Spec pod) = cs \<Longrightarrow>
   applyPatch (fieldPatch (cs \<noteq> cs') True ''/spec/containers'' (ContainersValue cs')) pod =
   Some (pod\<lparr>Spec := Spec pod\<lparr>Containers := cs'\<rparr>\<rparr>)"
  "Annotations pod = m \<Longrightarrow>
   applyPatch (fieldPatch (m \<noteq> m') (m \<noteq> None) ''/metadata/annotations'' (StringMapValue m')) pod =
   Some (pod\<lparr>Annotations := m'\<rparr>)"
  "Labels pod = m \<Longrightarrow>
   applyPatch (fieldPatch (m \<noteq> m') (m \<noteq> None) ''/metadata/labels'' (StringMapValue m')) pod =
   Some (pod\<lparr>Labels := m'\<rparr>)"
  by (cases pod; cases "Spec pod"; auto simp: fieldPatch_def applyOp_def)+

lemma applyPatch_patchForPod:
  assumes "patchable original mutated"
  shows "applyPatch (patchForPod original mutated) original = Some mutated"
proof -
  have "applyPatch (patchForPod original mutated) original =
      Some (original\<lparr>Spec := Spec original\<lparr>RuntimeClassName := RuntimeClassName (Spec mutated),
        Containers := Containers (Spec mutated)\<rparr>, Annotations := Annotations mutated, Labels := Labels mutated\<rparr>)"
    by (simp add: patchForPod_def applyPatch_append applyPatch_field del: not_None_eq)
  moreover have "original\<lparr>Spec := Spec original\<lparr>RuntimeClassName := RuntimeClassName (Spec mutated),
        Containers := Containers (Spec mutated)\<rparr>, Annotations := Annotations mutated, Labels := Labels mutated\<rparr> = mutated"
    using assms by (cases original; cases mutated; cases "Spec original"; cases "Spec mutated")
      (simp add: patchable_def)
  ultimately show ?thesis by simp
qed

section \<open>server.go\<close>

record AdmissionRequest =
  UID :: string
  ResourceName :: string
  RawObject :: string

record AdmissionReview =
  TypeMeta :: "string \<times> string"
  Request :: "AdmissionRequest option"

record AdmissionResponse =
  RespUID :: string
  Allowed :: bool
  Patch :: "jsonPatch list option"
  Message :: "adm_error option"

datatype http_reply =
    Healthy
  | HttpNotFound
  | ReviewReply "string \<times> string" AdmissionResponse

definition admissionError :: "string \<Rightarrow> adm_error \<Rightarrow> AdmissionResponse" where
  "admissionError uid err = \<lparr>RespUID = uid, Allowed = False, Patch = None, Message = Some err\<rparr>"

text \<open>\<open>decodePod\<close> is \<open>json.Unmarshal\<close> into \<open>corev1.Pod\<close>, \<open>decodeReview\<close> into \<open>AdmissionReview\<close>.\<close>

definition server_patch ::
  "(string \<Rightarrow> (string, Pod) result) \<Rightarrow> string \<Rightarrow> string option \<Rightarrow> AdmissionRequest \<Rightarrow>
   (adm_error, jsonPatch list) result" where
  "server_patch decodePod img ctxErr request =
     (if ResourceName request = ''pods''
      then (case decodePod (RawObject request) of
              Inl e \<Rightarrow> Inl (DecodeError e)
            | Inr pod \<Rightarrow> rbind (Mutate img ctxErr pod) (\<lambda>mutated. Inr (patchForPod pod mutated)))
      else Inl (UnsupportedResource (ResourceName request)))"

definition server_mutate ::
  "(string \<Rightarrow> (string, Pod) result) \<Rightarrow> string \<Rightarrow> string option \<Rightarrow> AdmissionReview \<Rightarrow> AdmissionResponse" where
  "server_mutate decodePod img ctxErr review =
     (case Request review of
        None \<Rightarrow> admissionError [] MissingRequest
      | Some request \<Rightarrow>
          (case server_patch decodePod img ctxErr request of
             Inl err \<Rightarrow> admissionError (UID request) err
           | Inr patch \<Rightarrow> \<lparr>RespUID = UID request, Allowed = True, Patch = Some patch, Message = None\<rparr>))"

definition admissionReviewBodyLimit :: nat where
  "admissionReviewBodyLimit = 2 ^ 20"

definition reviewTypeMeta :: "string \<times> string" where
  "reviewTypeMeta = (''admission.k8s.io/v1'', ''AdmissionReview'')"

text \<open>The body is the bytes read, with the error that ends the stream early, if any.\<close>

definition ServeHTTP ::
  "(string \<Rightarrow> (string, AdmissionReview) result) \<Rightarrow> (string \<Rightarrow> (string, Pod) result) \<Rightarrow> string \<Rightarrow>
   string option \<Rightarrow> string \<Rightarrow> string \<times> string option \<Rightarrow> http_reply" where
  "ServeHTTP decodeReview decodePod img ctxErr urlPath body =
     (if urlPath = ''/healthz'' then Healthy
      else if urlPath \<noteq> ''/mutate'' then HttpNotFound
      else if length (fst body) > admissionReviewBodyLimit
      then ReviewReply reviewTypeMeta (admissionError [] BodyTooLarge)
      else case snd body of
        Some e \<Rightarrow> ReviewReply reviewTypeMeta (admissionError [] (BodyReadError e))
      | None \<Rightarrow>
          (case decodeReview (fst body) of
             Inl e \<Rightarrow> ReviewReply reviewTypeMeta (admissionError [] (DecodeError e))
           | Inr review \<Rightarrow> ReviewReply (TypeMeta review) (server_mutate decodePod img ctxErr review)))"

section \<open>webhook.go\<close>

text \<open>The CEL expression of \<open>SysboxPodMatchConditionExpression\<close>, over the pod that is admitted.\<close>

definition podMatchCondition :: "Pod \<Rightarrow> bool" where
  "podMatchCondition pod \<longleftrightarrow>
     (case Annotations pod of Some m \<Rightarrow> fmlookup m ''sysbox/rootfs-rw-layer'' \<noteq> None | None \<Rightarrow> False) \<or>
     (case RuntimeClassName (Spec pod) of
        Some rc \<Rightarrow> rc = ''sysbox-runc'' \<or> rc = ''sysbox-runc-lite'' | None \<Rightarrow> False)"

section \<open>Properties\<close>

text \<open>A pod with the annotation, on which the properties are exercised.\<close>

definition exampleAnnotation :: string where
  "exampleAnnotation = printJson (JArr [JObj [(''name'', JStr ''c1''), (''volumeName'', JStr ''data''),
     (''path'', JStr ''layers/c1''), (''persistentSpecialMounts'', JBool True),
     (''specialPath'', JArr [JStr ''/srv/data''])]])"

definition examplePod :: Pod where
  "examplePod =
     \<lparr>Annotations = Some (fmupd AnnotationVolumeInit ''true'' (fmupd AnnotationRootfsRwLayer exampleAnnotation fmempty)),
      Labels = None,
      Spec = \<lparr>RuntimeClassName = Some RuntimeClassRuncLite,
              Containers = [\<lparr>cName = ''c1'', cImage = ''app'', cVolumeMounts = [], cOther = JNull\<rparr>],
              Volumes = [\<lparr>volName = ''data'', volClaim = Some ''claim''\<rparr>], specOther = JNull\<rparr>,
      podOther = JNull\<rparr>"

definition exampleEntry :: RootfsRwLayerEntry where
  "exampleEntry = \<lparr>Name = ''c1'', VolumeName = ''data'', Path = ''layers/c1'',
     PersistentSpecialMounts = True, SpecialPath = [''/srv/data'']\<rparr>"

lemma example_parse:
  "parseRootfsAnnotation (Some (fmupd AnnotationRootfsRwLayer exampleAnnotation fmempty)) (Spec examplePod) =
   Inr (Some [exampleEntry])"
  by code_simp

definition exampleMutated :: Pod where
  "exampleMutated = examplePod\<lparr>
     Annotations := Some (fmupd AnnotationRootfsRwLayer exampleAnnotation fmempty),
     Spec := ensureSidecar (Spec examplePod) [exampleEntry] ''pause''\<rparr>"

lemma example_annotations:
  "map_option (fmdrop AnnotationVolumeInit) (Annotations examplePod) =
   Some (fmupd AnnotationRootfsRwLayer exampleAnnotation fmempty)"
  by (simp add: examplePod_def AnnotationVolumeInit_def AnnotationRootfsRwLayer_def fmdrop_fmupd)

lemma example_mutate: "Mutate ''pause'' None examplePod = Inr exampleMutated"
proof -
  have "managed (RuntimeClassName (Spec examplePod))"
    by (simp add: examplePod_def managed_def isManagedRuntime_def)
  then show ?thesis
    using example_parse
    by (simp add: Mutate_def mutatePod_def Let_def rguard_def example_annotations exampleMutated_def)
qed

lemma annotation_drop:
  "annotation (map_option (fmdrop AnnotationVolumeInit) ann) = annotation ann"
  by (cases ann) (simp_all add: annotation_def AnnotationVolumeInit_def AnnotationRootfsRwLayer_def)

lemma sidecarMounts_names: "vmName ` set (sidecarMounts seen es) = VolumeName ` set es - set seen"
  by (induction seen es rule: sidecarMounts.induct) auto

lemma sidecarMounts_distinct: "distinct (map vmName (sidecarMounts seen es))"
proof (induction seen es rule: sidecarMounts.induct)
  case (2 seen e es)
  have "VolumeName e \<notin> vmName ` set (sidecarMounts (VolumeName e # seen) es)"
    by (simp add: sidecarMounts_names)
  with 2 show ?case by simp
qed simp

lemma sidecarMounts_path:
  "m \<in> set (sidecarMounts seen es) \<Longrightarrow> vmMountPath m = JoinPath [SidecarMountPath, vmName m]"
  by (induction seen es rule: sidecarMounts.induct) (auto split: if_splits)

lemma server_patch_pods: "server_patch decodePod img ctxErr request = Inr patch \<Longrightarrow> ResourceName request = ''pods''"
  by (auto simp: server_patch_def split: if_splits)

text \<open>
  C8.  Mutating a pod is idempotent, so the webhook may be reinvoked (\<open>IfNeeded\<close>): mutating an
  already mutated pod succeeds and changes nothing.
\<close>

theorem Mutate_idempotent:
  assumes "Mutate img None pod = Inr p"
  shows "Mutate img None p = Inr p"
  using assms
proof (cases rule: Mutate_cases)
  case unmanaged
  with assms show ?thesis by simp
next
  case plain
  have "Annotations p = map_option (fmdrop AnnotationVolumeInit) (Annotations p)"
    using plain by (cases "Annotations pod") simp_all
  with plain show ?thesis
    by (simp add: Mutate_def mutatePod_def Let_def rguard_def)
next
  case (sidecar es)
  have "parseRootfsAnnotation (Annotations p) (ensureSidecar (Spec pod) es img) = Inr (Some es)"
    by (rule parse_mono [OF sidecar(4)]) (simp_all add: ensureSidecar_simps ensureSidecar_names)
  moreover have "Annotations p = map_option (fmdrop AnnotationVolumeInit) (Annotations p)"
    using sidecar by (cases "Annotations pod") simp_all
  ultimately show ?thesis using sidecar
    by (simp add: Mutate_def mutatePod_def Let_def rguard_def ensureSidecar_simps)
qed

theorem Mutate_idempotent_witness:
  "Mutate ''pause'' None examplePod = Inr exampleMutated \<and> Mutate ''pause'' None exampleMutated = Inr exampleMutated"
  using example_mutate Mutate_idempotent [OF example_mutate] by blast

text \<open>
  C6.  A pod that carries the rootfs annotation and is admitted has a valid configuration: entries
  with distinct names of existing containers, claim-backed volumes, layer paths that stay inside the
  volume, and special paths none of which overlaps another or a built-in one.  Its containers are the
  original ones in order (any container with the sidecar's name dropped), followed by the sidecar.
\<close>

theorem Mutate_sidecar:
  assumes "Mutate img None pod = Inr p" and "annotation (Annotations pod) = Some raw"
  shows "\<exists>es. decodesTo raw es \<and> distinct (map Name es) \<and> (\<forall>e \<in> set es. entryValid (Spec pod) e) \<and>
    Spec p = (Spec pod)\<lparr>Containers := filter (\<lambda>c. cName c \<noteq> SidecarContainerName) (Containers (Spec pod)) @
      [canonicalSidecar es img]\<rparr> \<and>
    annotation (Annotations p) = Some raw"
  using assms(1)
proof (cases rule: Mutate_cases)
  case unmanaged
  with assms(2) show ?thesis by simp
next
  case plain
  with assms(2) show ?thesis by (simp add: parse_None annotation_drop)
next
  case (sidecar es)
  then have "annotation (Annotations p) = Some raw" using assms(2) by (simp add: annotation_drop)
  with sidecar show ?thesis using parse_valid [OF sidecar(4)]
    by (auto simp: parse_Some ensureSidecar_def)
qed

theorem Mutate_sidecar_witness:
  "\<exists>es. decodesTo exampleAnnotation es \<and> (\<forall>e \<in> set es. entryValid (Spec examplePod) e) \<and>
     length (Containers (Spec exampleMutated)) = 2"
proof -
  have "annotation (Annotations examplePod) = Some exampleAnnotation"
    by (simp add: annotation_def examplePod_def AnnotationVolumeInit_def AnnotationRootfsRwLayer_def)
  from Mutate_sidecar [OF example_mutate this] show ?thesis
    by (auto simp: exampleMutated_def ensureSidecar_def examplePod_def SidecarContainerName_def)
qed

text \<open>
  The sidecar mounts every volume that an entry names exactly once, at its own directory below
  the sidecar mount path.
\<close>

theorem requiredSidecarMounts_spec:
  "vmName ` set (requiredSidecarMounts es) = VolumeName ` set es \<and>
   distinct (map vmName (requiredSidecarMounts es)) \<and>
   map vmMountPath (requiredSidecarMounts es) =
     map (\<lambda>v. JoinPath [SidecarMountPath, v]) (map vmName (requiredSidecarMounts es))"
  by (simp add: requiredSidecarMounts_def sidecarMounts_names sidecarMounts_distinct sidecarMounts_path)

text \<open>
  C10.  The JSON patch that the webhook returns, applied to the admitted pod, gives the mutated pod.
\<close>

theorem server_patch_correct:
  assumes "server_patch decodePod img ctxErr request = Inr patch"
  shows "\<exists>pod p. decodePod (RawObject request) = Inr pod \<and> Mutate img ctxErr pod = Inr p \<and>
    applyPatch patch pod = Some p"
proof -
  from assms obtain pod p where pod: "decodePod (RawObject request) = Inr pod" "Mutate img ctxErr pod = Inr p"
    "patch = patchForPod pod p"
    by (auto simp: server_patch_def rbind_Inr_iff split: if_splits sum.splits)
  have "patchable pod p"
    using pod(2) by (cases rule: Mutate_cases) (simp_all add: patchable_def ensureSidecar_def)
  with pod show ?thesis using applyPatch_patchForPod by blast
qed

theorem server_patch_correct_witness:
  "applyPatch (patchForPod examplePod exampleMutated) examplePod = Some exampleMutated"
proof -
  have "server_patch (\<lambda>_. Inr examplePod) ''pause'' None \<lparr>UID = ''u'', ResourceName = ''pods'', RawObject = ''raw''\<rparr> =
      Inr (patchForPod examplePod exampleMutated)"
    by (simp add: server_patch_def example_mutate)
  from server_patch_correct [OF this] show ?thesis using example_mutate by auto
qed

text \<open>
  C32.  The webhook's match condition loses nothing: on a pod it does not select, \<open>Mutate\<close> would have
  succeeded without changing the pod.
\<close>

theorem match_condition_complete:
  assumes "\<not> podMatchCondition pod"
  shows "Mutate img ctxErr pod = Inr pod"
proof -
  have "annotation (Annotations pod) = None" "\<not> managed (RuntimeClassName (Spec pod))"
    using assms by (auto simp: podMatchCondition_def annotation_def AnnotationRootfsRwLayer_def managed_def
        isManagedRuntime_def RuntimeClassSysboxRunc_def RuntimeClassRuncLite_def split: option.splits)
  then show ?thesis by (simp add: Mutate_def mutatePod_def annotation_def rguard_def)
qed

theorem match_condition_complete_witness:
  "\<not> podMatchCondition (examplePod\<lparr>Annotations := None, Spec := (Spec examplePod)\<lparr>RuntimeClassName := None\<rparr>\<rparr>) \<and>
   is_ok (Mutate ''pause'' None (examplePod\<lparr>Annotations := None, Spec := (Spec examplePod)\<lparr>RuntimeClassName := None\<rparr>\<rparr>))"
proof -
  let ?p = "examplePod\<lparr>Annotations := None, Spec := (Spec examplePod)\<lparr>RuntimeClassName := None\<rparr>\<rparr>"
  have "\<not> podMatchCondition ?p" by (simp add: podMatchCondition_def)
  with match_condition_complete [of ?p] show ?thesis by (simp add: is_ok_iff)
qed

text \<open>
  C36.  The webhook fails closed: a review reply allows the request only when the body was read and
  decoded, the request is for pods, and the mutation succeeded; the reply then carries the request's
  identifier and the patch.
\<close>

theorem ServeHTTP_fails_closed:
  assumes "ServeHTTP decodeReview decodePod img ctxErr path body = ReviewReply tm resp" and "Allowed resp"
  shows "\<exists>review request patch. decodeReview (fst body) = Inr review \<and> Request review = Some request \<and>
    length (fst body) \<le> admissionReviewBodyLimit \<and> snd body = None \<and> ResourceName request = ''pods'' \<and>
    server_patch decodePod img ctxErr request = Inr patch \<and>
    resp = \<lparr>RespUID = UID request, Allowed = True, Patch = Some patch, Message = None\<rparr>"
  using assms
  by (auto simp: ServeHTTP_def server_mutate_def admissionError_def server_patch_pods
      split: if_splits option.splits sum.splits)

theorem ServeHTTP_fails_closed_witness:
  "server_patch (\<lambda>_. Inr examplePod) ''pause'' None \<lparr>UID = ''u'', ResourceName = ''pods'', RawObject = ''raw''\<rparr> =
     Inr (patchForPod examplePod exampleMutated)"
proof -
  let ?req = "\<lparr>UID = ''u'', ResourceName = ''pods'', RawObject = ''raw''\<rparr>"
  let ?dr = "\<lambda>_ :: string. Inr \<lparr>TypeMeta = reviewTypeMeta, Request = Some ?req\<rparr> :: (string, AdmissionReview) result"
  let ?resp = "\<lparr>RespUID = ''u'', Allowed = True, Patch = Some (patchForPod examplePod exampleMutated), Message = None\<rparr>"
  have reply: "ServeHTTP ?dr (\<lambda>_. Inr examplePod) ''pause'' None ''/mutate'' (''body'', None) = ReviewReply reviewTypeMeta ?resp"
    by (simp add: ServeHTTP_def server_mutate_def server_patch_def example_mutate admissionReviewBodyLimit_def)
  then show ?thesis using ServeHTTP_fails_closed [OF reply] by auto
qed

end
