(* ===== verification/Lifecycle.thy ===== *)
theory Lifecycle
  imports Go_X509 Admission
begin

text \<open>
  \<open>sysbox-admission/admission\<close>: the certificates of the webhook (\<open>certs.go\<close>, \<open>cert_health.go\<close>, \<open>certificate_resources.go\<close>), the
  registration of the webhook (\<open>webhook.go\<close>, \<open>lifecycle.go\<close>) and the loops that renew and reload the serving certificate
  (\<open>rotation.go\<close>, \<open>tls_reload.go\<close>).  The Kubernetes API, the clock and the random source are parameters that
  work on a state of the world.  An operation returns the new state and its result, or \<open>None\<close> when it never returns.
\<close>

section \<open>Operations on the world\<close>

type_synonym ('s, 'e, 'a) op = "'s \<Rightarrow> ('s \<times> ('e, 'a) result) option"

definition ret :: "'a \<Rightarrow> ('s, 'e, 'a) op" where
  "ret x s = Some (s, Inr x)"

definition fail :: "'e \<Rightarrow> ('s, 'e, 'a) op" where
  "fail e s = Some (s, Inl e)"

definition obind :: "('s, 'e, 'a) op \<Rightarrow> ('a \<Rightarrow> ('s, 'e, 'b) op) \<Rightarrow> ('s, 'e, 'b) op" where
  "obind m f s = (case m s of None \<Rightarrow> None | Some (s', Inl e) \<Rightarrow> Some (s', Inl e) | Some (s', Inr x) \<Rightarrow> f x s')"

text \<open>A call that always returns, with its error translated.\<close>

definition call :: "('e \<Rightarrow> 'f) \<Rightarrow> ('s \<Rightarrow> 's \<times> ('e, 'a) result) \<Rightarrow> ('s, 'f, 'a) op" where
  "call g m s = (case m s of (s', Inl e) \<Rightarrow> Some (s', Inl (g e)) | (s', Inr x) \<Rightarrow> Some (s', Inr x))"

text \<open>The classes of errors that the code tells apart; \<open>Cancelled\<close> wraps a cancelled or expired context.\<close>

datatype api_error = NotFound | AlreadyExists | Conflict | Cancelled | OtherApi string

datatype lifecycle_error =
    ServiceNameRequired
  | NamespaceRequired
  | WebhookNameRequired
  | DecodeCACert
  | ParseCACert
  | DecodeCAKey
  | ParseCAKey
  | DecodeCert
  | ParseCert
  | DecodeKey
  | ParseKey
  | GenerateKeyErr string
  | SerialErr string
  | CreateCertErr x509_error
  | ApiErr string api_error
  | UnknownAction
  | LoadKeyPair
  | NotLoaded
  | IntervalNotPositive
  | ContextDone

section \<open>certs.go\<close>

definition minute :: int where "minute = 60 * second"
definition caValidity :: int where "caValidity = 10 * 365 * 24 * 60 * minute"
definition leafValidity :: int where "leafValidity = 365 * 24 * 60 * minute"
definition serialBits :: nat where "serialBits = 128"

record 's CertEnv =
  clock :: "'s \<Rightarrow> int"
  generateKey :: "'s \<Rightarrow> 's \<times> (string, nat) result"
  randInt :: "int \<Rightarrow> 's \<Rightarrow> 's \<times> (string, int) result"

record CertificateBundle =
  CACertPEM :: pem
  CAKeyPEM :: pem
  TLSCertPEM :: pem
  TLSKeyPEM :: pem

definition ServiceDNSNames :: "string \<Rightarrow> string \<Rightarrow> string list" where
  "ServiceDNSNames serviceName ns =
     [serviceName, serviceName @ ''.'' @ ns, serviceName @ ''.'' @ ns @ ''.svc'',
      serviceName @ ''.'' @ ns @ ''.svc.cluster.local'']"

text \<open>The loop that draws until the number is positive.\<close>

partial_function (option) randomSerialNumber ::
  "('s, 'z) CertEnv_scheme \<Rightarrow> 's \<Rightarrow> ('s \<times> (lifecycle_error, int) result) option" where
  "randomSerialNumber env s =
     (case randInt env (2 ^ serialBits) s of
        (s', Inl e) \<Rightarrow> Some (s', Inl (SerialErr e))
      | (s', Inr serial) \<Rightarrow> if 0 < serial then Some (s', Inr serial) else randomSerialNumber env s')"

definition now :: "('s, 'z) CertEnv_scheme \<Rightarrow> ('s, lifecycle_error, int) op" where
  "now env s = Some (s, Inr (clock env s))"

definition leafTemplate :: "int \<Rightarrow> string list \<Rightarrow> int \<Rightarrow> Template" where
  "leafTemplate serial dnsNames issuedAt =
     \<lparr>SerialNumber = serial, Subject = hd dnsNames, DNSNames = dnsNames, NotBefore = issuedAt - minute,
      NotAfter = issuedAt + leafValidity, KeyUsage = KeyUsageDigitalSignature OR KeyUsageKeyEncipherment,
      ExtKeyUsages = [ExtKeyUsageServerAuth], BasicConstraintsValid = False, IsCA = False\<rparr>"

definition caTemplate :: "int \<Rightarrow> int \<Rightarrow> Template" where
  "caTemplate serial issuedAt =
     \<lparr>SerialNumber = serial, Subject = ''sysbox-admission-webhook-ca'', DNSNames = [], NotBefore = issuedAt - minute,
      NotAfter = issuedAt + caValidity, KeyUsage = KeyUsageCertSign OR KeyUsageCRLSign, ExtKeyUsages = [],
      BasicConstraintsValid = True, IsCA = True\<rparr>"

definition lift :: "('e \<Rightarrow> 'f) \<Rightarrow> ('e, 'a) result \<Rightarrow> ('s, 'f, 'a) op" where
  "lift g r s = (case r of Inl e \<Rightarrow> Some (s, Inl (g e)) | Inr x \<Rightarrow> Some (s, Inr x))"

definition GenerateTLSCertificate ::
  "('s, 'z) CertEnv_scheme \<Rightarrow> string \<Rightarrow> string \<Rightarrow> pem option \<Rightarrow> pem option \<Rightarrow> ('s, lifecycle_error, pem \<times> pem) op" where
  "GenerateTLSCertificate env serviceName ns caCertPEM caKeyPEM =
     (if serviceName = [] then fail ServiceNameRequired
      else if ns = [] then fail NamespaceRequired
      else case pemDecode caCertPEM of
        None \<Rightarrow> fail DecodeCACert
      | Some caBlock \<Rightarrow>
      (case ParseCertificate caBlock of
        None \<Rightarrow> fail ParseCACert
      | Some caCert \<Rightarrow>
      (case pemDecode caKeyPEM of
        None \<Rightarrow> fail DecodeCAKey
      | Some caKeyBlock \<Rightarrow>
      (case ParsePKCS1PrivateKey caKeyBlock of
        None \<Rightarrow> fail ParseCAKey
      | Some caKey \<Rightarrow>
          obind (now env) (\<lambda>issuedAt.
          obind (call GenerateKeyErr (generateKey env)) (\<lambda>leafKey.
          obind (randomSerialNumber env) (\<lambda>leafSerial.
          obind (lift CreateCertErr (CreateCertificate (leafTemplate leafSerial (ServiceDNSNames serviceName ns) issuedAt)
                   (Subject caCert) (Some (CertKey caCert)) leafKey caKey)) (\<lambda>leaf.
            ret (PemCert leaf, PemKey leafKey)))))))))"

definition GenerateCertificateBundle ::
  "('s, 'z) CertEnv_scheme \<Rightarrow> string \<Rightarrow> string \<Rightarrow> ('s, lifecycle_error, CertificateBundle) op" where
  "GenerateCertificateBundle env serviceName ns =
     (if serviceName = [] then fail ServiceNameRequired
      else if ns = [] then fail NamespaceRequired
      else obind (now env) (\<lambda>issuedAt.
           obind (call GenerateKeyErr (generateKey env)) (\<lambda>caKey.
           obind (randomSerialNumber env) (\<lambda>caSerial.
           obind (lift CreateCertErr (CreateCertificate (caTemplate caSerial issuedAt) (Subject (caTemplate caSerial issuedAt)) None caKey caKey)) (\<lambda>ca.
           obind (GenerateTLSCertificate env serviceName ns (Some (PemCert ca)) (Some (PemKey caKey))) (\<lambda>(tlsCert, tlsKey).
             ret \<lparr>CACertPEM = PemCert ca, CAKeyPEM = PemKey caKey, TLSCertPEM = tlsCert, TLSKeyPEM = tlsKey\<rparr>))))))"

section \<open>cert\_health.go\<close>

datatype CertificateHealthAction = CertificateHealthy | RotateLeafCertificate | RotateCertificateBundle

definition parseCertificate :: "pem option \<Rightarrow> (lifecycle_error, Certificate) result" where
  "parseCertificate certPEM = (case pemDecode certPEM of
       None \<Rightarrow> Inl DecodeCert
     | Some block \<Rightarrow> (case ParseCertificate block of None \<Rightarrow> Inl ParseCert | Some cert \<Rightarrow> Inr cert))"

definition parseRSAKey :: "pem option \<Rightarrow> (lifecycle_error, nat) result" where
  "parseRSAKey keyPEM = (case pemDecode keyPEM of
       None \<Rightarrow> Inl DecodeKey
     | Some block \<Rightarrow> (case ParsePKCS1PrivateKey block of None \<Rightarrow> Inl ParseKey | Some key \<Rightarrow> Inr key))"

definition certTimeHealthy :: "Certificate \<Rightarrow> int \<Rightarrow> int \<Rightarrow> bool" where
  "certTimeHealthy cert t renewalWindow \<longleftrightarrow> \<not> t < NotBefore cert \<and> t < NotAfter cert \<and> t + renewalWindow < NotAfter cert"

definition leafVerifiesAgainstCA :: "Certificate \<Rightarrow> Certificate \<Rightarrow> string \<Rightarrow> string \<Rightarrow> int \<Rightarrow> bool" where
  "leafVerifiesAgainstCA leafCert caCert serviceName ns t =
     list_all (\<lambda>dnsName. Verify leafCert caCert dnsName t) (ServiceDNSNames serviceName ns)"

record CertificateHealthConfig =
  HcServiceName :: string
  HcNamespace :: string
  HcRenewalWindow :: int

definition EvaluateCertificateHealth ::
  "pem option \<Rightarrow> pem option \<Rightarrow> pem option \<Rightarrow> pem option \<Rightarrow> CertificateHealthConfig \<Rightarrow> int \<Rightarrow>
   (lifecycle_error, CertificateHealthAction) result" where
  "EvaluateCertificateHealth caCertPEM caKeyPEM tlsCertPEM tlsKeyPEM config checkedAt =
     (case parseCertificate caCertPEM of
        Inl _ \<Rightarrow> Inr RotateCertificateBundle
      | Inr caCert \<Rightarrow>
          if \<not> certTimeHealthy caCert checkedAt (HcRenewalWindow config) \<or> \<not> BasicConstraintsValid caCert \<or> \<not> IsCA caCert \<or>
             KeyUsage caCert AND KeyUsageCertSign = 0
          then Inr RotateCertificateBundle
          else (case parseRSAKey caKeyPEM of
                  Inl _ \<Rightarrow> Inr RotateCertificateBundle
                | Inr caKey \<Rightarrow>
                    if CertKey caCert \<noteq> RsaPublic caKey then Inr RotateCertificateBundle
                    else (case parseCertificate tlsCertPEM of
                            Inl _ \<Rightarrow> Inr RotateLeafCertificate
                          | Inr leafCert \<Rightarrow>
                              if \<not> certTimeHealthy leafCert checkedAt (HcRenewalWindow config) then Inr RotateLeafCertificate
                              else (case parseRSAKey tlsKeyPEM of
                                      Inl _ \<Rightarrow> Inr RotateLeafCertificate
                                    | Inr leafKey \<Rightarrow>
                                        if CertKey leafCert \<noteq> RsaPublic leafKey then Inr RotateLeafCertificate
                                        else if \<not> leafVerifiesAgainstCA leafCert caCert (HcServiceName config) (HcNamespace config) checkedAt
                                        then Inr RotateLeafCertificate
                                        else Inr CertificateHealthy))))"

section \<open>The Kubernetes API\<close>

text \<open>
  A typed client.  \<open>objRetry\<close> is \<open>retry.RetryOnConflict\<close>, which calls its function with the current object until it
  no longer returns a conflict or the attempts are used up.
\<close>

record ('o, 's) ObjApi =
  objGet :: "string \<Rightarrow> 's \<Rightarrow> 's \<times> (api_error, 'o) result"
  objCreate :: "'o \<Rightarrow> 's \<Rightarrow> 's \<times> (api_error, 'o) result"
  objUpdate :: "'o \<Rightarrow> 's \<Rightarrow> 's \<times> (api_error, 'o) result"
  objRetry :: "('s \<times> 'o \<Rightarrow> ('s \<times> 'o) \<times> (string \<times> api_error, 'o) result) \<Rightarrow> 's \<times> 'o \<Rightarrow>
    ('s \<times> 'o) \<times> (string \<times> api_error, 'o) result"

definition SecretTypeTLS :: string where "SecretTypeTLS = ''kubernetes.io/tls''"
definition TLSCertKey :: string where "TLSCertKey = ''tls.crt''"
definition TLSPrivateKeyKey :: string where "TLSPrivateKeyKey = ''tls.key''"
definition CASecretCertKey :: string where "CASecretCertKey = ''ca.crt''"
definition CASecretKeyKey :: string where "CASecretKeyKey = ''ca.key''"

record Secret =
  SecretName :: string
  SecretNamespace :: string
  SecretVersion :: string
  SecretType :: string
  SecretData :: "(string, pem) fmap"

record Lease =
  LeaseNameOf :: string
  LeaseNamespace :: string

record MutatingWebhook =
  WhName :: string
  WhReviewVersions :: "string list"
  WhServiceNamespace :: string
  WhServiceName :: string
  WhServicePath :: string
  WhServicePort :: int
  WhCABundle :: "pem option"
  WhOperations :: "string list"
  WhAPIGroups :: "string list"
  WhAPIVersions :: "string list"
  WhResources :: "string list"
  WhFailurePolicy :: string
  WhReinvocationPolicy :: string
  WhSideEffects :: string
  WhTimeoutSeconds :: int
  WhMatchConditions :: "(string \<times> string) list"

record MutatingWebhookConfiguration =
  WcName :: string
  WcVersion :: string
  Webhooks :: "MutatingWebhook list"

record 's KubeEnv = "'s CertEnv" +
  secretApi :: "(Secret, 's) ObjApi"
  leaseApi :: "(Lease, 's) ObjApi"
  webhookApi :: "(MutatingWebhookConfiguration, 's) ObjApi"

text \<open>The function given to the retry loop.\<close>

definition updateOnce ::
  "('o, 's) ObjApi \<Rightarrow> string \<Rightarrow> string \<Rightarrow> ('o \<Rightarrow> 'o) \<Rightarrow> 's \<times> 'o \<Rightarrow> ('s \<times> 'o) \<times> (string \<times> api_error, 'o) result" where
  "updateOnce api what name modify = (\<lambda>(s, current). case objUpdate api (modify current) s of
       (s1, Inr updated) \<Rightarrow> ((s1, current), Inr updated)
     | (s1, Inl err) \<Rightarrow>
         if err = Conflict
         then (case objGet api name s1 of
                 (s2, Inl e) \<Rightarrow> ((s2, current), Inl (''get '' @ what @ '' after update conflict'', e))
               | (s2, Inr current') \<Rightarrow> ((s2, current'), Inl ([], Conflict)))
         else ((s1, current), Inl ([], err)))"

definition updateObject ::
  "('o, 's) ObjApi \<Rightarrow> string \<Rightarrow> string \<Rightarrow> ('o \<Rightarrow> 'o) \<Rightarrow> 'o \<Rightarrow> 's \<Rightarrow> 's \<times> (lifecycle_error, 'o) result" where
  "updateObject api what name modify current s = (case objRetry api (updateOnce api what name modify) (s, current) of
       ((s', _), Inl (ctx, e)) \<Rightarrow> (s', Inl (ApiErr (''update '' @ what) e))
     | ((s', _), Inr updated) \<Rightarrow> (s', Inr updated))"

text \<open>Create the object, or write it over the one that is there; a lost race to create it is not an error.\<close>

definition applyObject ::
  "('o, 's) ObjApi \<Rightarrow> string \<Rightarrow> string \<Rightarrow> 'o \<Rightarrow> ('o \<Rightarrow> 'o) \<Rightarrow> 's \<Rightarrow> 's \<times> (lifecycle_error, 'o) result" where
  "applyObject api what name obj modify s = (case objGet api name s of
       (s1, Inr current) \<Rightarrow> updateObject api what name modify current s1
     | (s1, Inl err) \<Rightarrow>
         if err = NotFound
         then (case objCreate api obj s1 of
                 (s2, Inr created) \<Rightarrow> (s2, Inr created)
               | (s2, Inl e) \<Rightarrow>
                   if e = AlreadyExists
                   then (case objGet api name s2 of
                           (s3, Inl e') \<Rightarrow> (s3, Inl (ApiErr (''get '' @ what @ '' after create conflict'') e'))
                         | (s3, Inr current) \<Rightarrow> updateObject api what name modify current s3)
                   else (s2, Inl (ApiErr (''create '' @ what) e)))
         else (s1, Inl (ApiErr (''get '' @ what) err)))"

section \<open>certificate\_resources.go\<close>

record LifecycleConfig =
  LcNamespace :: string
  LcServiceName :: string
  LcServicePort :: int
  LcCASecretName :: string
  LcTLSSecretName :: string
  LcLeaseName :: string
  LcWebhookName :: string
  LcRenewalWindow :: int

record certificateResources =
  caCertPEM :: "pem option"
  caKeyPEM :: "pem option"
  tlsCertPEM :: "pem option"
  tlsKeyPEM :: "pem option"

definition applyCASecret :: "'s KubeEnv \<Rightarrow> LifecycleConfig \<Rightarrow> pem \<Rightarrow> pem \<Rightarrow> ('s, lifecycle_error, Secret) op" where
  "applyCASecret env cfg cert key =
     (let data = fmap_of_list [(CASecretCertKey, cert), (CASecretKeyKey, key)];
          secret = \<lparr>SecretName = LcCASecretName cfg, SecretNamespace = LcNamespace cfg, SecretVersion = [], SecretType = [], SecretData = data\<rparr>
      in call id (applyObject (secretApi env) ''ca secret'' (LcCASecretName cfg) secret (\<lambda>current. current\<lparr>SecretData := data\<rparr>)))"

definition applyTLSSecret :: "'s KubeEnv \<Rightarrow> LifecycleConfig \<Rightarrow> pem \<Rightarrow> pem \<Rightarrow> ('s, lifecycle_error, Secret) op" where
  "applyTLSSecret env cfg cert key =
     (let data = fmap_of_list [(TLSCertKey, cert), (TLSPrivateKeyKey, key)];
          secret = \<lparr>SecretName = LcTLSSecretName cfg, SecretNamespace = LcNamespace cfg, SecretVersion = [], SecretType = SecretTypeTLS,
                    SecretData = data\<rparr>
      in call id (applyObject (secretApi env) ''tls secret'' (LcTLSSecretName cfg) secret
           (\<lambda>current. current\<lparr>SecretType := SecretTypeTLS, SecretData := data\<rparr>)))"

definition rotateLeafCertificate ::
  "'s KubeEnv \<Rightarrow> LifecycleConfig \<Rightarrow> pem option \<Rightarrow> pem option \<Rightarrow> ('s, lifecycle_error, certificateResources) op" where
  "rotateLeafCertificate env cfg caCert caKey =
     obind (GenerateTLSCertificate env (LcServiceName cfg) (LcNamespace cfg) caCert caKey) (\<lambda>(tlsCert, tlsKey).
     obind (applyTLSSecret env cfg tlsCert tlsKey) (\<lambda>tlsSecret.
       ret \<lparr>caCertPEM = caCert, caKeyPEM = caKey, tlsCertPEM = fmlookup (SecretData tlsSecret) TLSCertKey,
            tlsKeyPEM = fmlookup (SecretData tlsSecret) TLSPrivateKeyKey\<rparr>))"

definition rotateCertificateBundle :: "'s KubeEnv \<Rightarrow> LifecycleConfig \<Rightarrow> ('s, lifecycle_error, certificateResources) op" where
  "rotateCertificateBundle env cfg =
     obind (GenerateCertificateBundle env (LcServiceName cfg) (LcNamespace cfg)) (\<lambda>bundle.
     obind (applyCASecret env cfg (CACertPEM bundle) (CAKeyPEM bundle)) (\<lambda>caSecret.
     obind (GenerateTLSCertificate env (LcServiceName cfg) (LcNamespace cfg) (fmlookup (SecretData caSecret) CASecretCertKey)
              (fmlookup (SecretData caSecret) CASecretKeyKey)) (\<lambda>(tlsCert, tlsKey).
     obind (applyTLSSecret env cfg tlsCert tlsKey) (\<lambda>tlsSecret.
       ret \<lparr>caCertPEM = fmlookup (SecretData caSecret) CASecretCertKey, caKeyPEM = fmlookup (SecretData caSecret) CASecretKeyKey,
            tlsCertPEM = fmlookup (SecretData tlsSecret) TLSCertKey, tlsKeyPEM = fmlookup (SecretData tlsSecret) TLSPrivateKeyKey\<rparr>))))"

text \<open>\<open>None\<close> when there is no CA secret.\<close>

definition readCertificateResources ::
  "'s KubeEnv \<Rightarrow> LifecycleConfig \<Rightarrow> 's \<Rightarrow> 's \<times> (lifecycle_error, certificateResources option) result" where
  "readCertificateResources env cfg s = (case objGet (secretApi env) (LcCASecretName cfg) s of
       (s1, Inl e) \<Rightarrow> (s1, if e = NotFound then Inr None else Inl (ApiErr ''get ca secret'' e))
     | (s1, Inr caSecret) \<Rightarrow>
         (let ca = \<lparr>caCertPEM = fmlookup (SecretData caSecret) CASecretCertKey, caKeyPEM = fmlookup (SecretData caSecret) CASecretKeyKey,
                    tlsCertPEM = None, tlsKeyPEM = None\<rparr>
          in case objGet (secretApi env) (LcTLSSecretName cfg) s1 of
               (s2, Inl e) \<Rightarrow> (s2, if e = NotFound then Inr (Some ca) else Inl (ApiErr ''get tls secret'' e))
             | (s2, Inr tlsSecret) \<Rightarrow>
                 (s2, Inr (Some (ca\<lparr>tlsCertPEM := fmlookup (SecretData tlsSecret) TLSCertKey,
                                    tlsKeyPEM := fmlookup (SecretData tlsSecret) TLSPrivateKeyKey\<rparr>)))))"

definition healthConfig :: "LifecycleConfig \<Rightarrow> CertificateHealthConfig" where
  "healthConfig cfg = \<lparr>HcServiceName = LcServiceName cfg, HcNamespace = LcNamespace cfg, HcRenewalWindow = LcRenewalWindow cfg\<rparr>"

definition ensureCertificateResources :: "'s KubeEnv \<Rightarrow> LifecycleConfig \<Rightarrow> ('s, lifecycle_error, certificateResources) op" where
  "ensureCertificateResources env cfg =
     obind (call id (readCertificateResources env cfg)) (\<lambda>r. case r of
       None \<Rightarrow> rotateCertificateBundle env cfg
     | Some current \<Rightarrow>
         obind (now env) (\<lambda>checkedAt.
         obind (lift id (EvaluateCertificateHealth (caCertPEM current) (caKeyPEM current) (tlsCertPEM current) (tlsKeyPEM current)
                  (healthConfig cfg) checkedAt)) (\<lambda>action. case action of
           CertificateHealthy \<Rightarrow> ret current
         | RotateLeafCertificate \<Rightarrow>
             (case parseRSAKey (caKeyPEM current) of
                Inl _ \<Rightarrow> rotateCertificateBundle env cfg
              | Inr _ \<Rightarrow> rotateLeafCertificate env cfg (caCertPEM current) (caKeyPEM current))
         | RotateCertificateBundle \<Rightarrow> rotateCertificateBundle env cfg)))"

section \<open>webhook.go and lifecycle.go\<close>

definition SysboxPodMatchConditionExpression :: string where
  "SysboxPodMatchConditionExpression =
     ''(has(object.metadata.annotations) && \"sysbox/rootfs-rw-layer\" in object.metadata.annotations) || (has(object.spec.runtimeClassName) && (object.spec.runtimeClassName == \"sysbox-runc\" || object.spec.runtimeClassName == \"sysbox-runc-lite\"))''"

definition BuildMutatingWebhookConfiguration ::
  "string \<Rightarrow> string \<Rightarrow> string \<Rightarrow> int \<Rightarrow> pem option \<Rightarrow> (lifecycle_error, MutatingWebhookConfiguration) result" where
  "BuildMutatingWebhookConfiguration name serviceName ns port caBundle =
     rguard (name = []) WebhookNameRequired
     (rguard (serviceName = []) ServiceNameRequired
     (rguard (ns = []) NamespaceRequired
     (Inr \<lparr>WcName = name, WcVersion = [], Webhooks =
        [\<lparr>WhName = ''pod.sysbox.nestybox.com'', WhReviewVersions = [''v1''], WhServiceNamespace = ns, WhServiceName = serviceName,
          WhServicePath = ''/mutate'', WhServicePort = port, WhCABundle = caBundle, WhOperations = [''CREATE''], WhAPIGroups = [[]],
          WhAPIVersions = [''v1''], WhResources = [''pods''], WhFailurePolicy = ''Fail'', WhReinvocationPolicy = ''IfNeeded'',
          WhSideEffects = ''None'', WhTimeoutSeconds = 10,
          WhMatchConditions = [(''uses-sysbox-runtime-or-rootfs'', SysboxPodMatchConditionExpression)]\<rparr>]\<rparr>)))"

definition ensureLease :: "'s KubeEnv \<Rightarrow> LifecycleConfig \<Rightarrow> 's \<Rightarrow> 's \<times> (lifecycle_error, unit) result" where
  "ensureLease env cfg s = (case objGet (leaseApi env) (LcLeaseName cfg) s of
       (s1, Inr _) \<Rightarrow> (s1, Inr ())
     | (s1, Inl e) \<Rightarrow>
         if e \<noteq> NotFound then (s1, Inl (ApiErr ''get lifecycle lease'' e))
         else (case objCreate (leaseApi env) \<lparr>LeaseNameOf = LcLeaseName cfg, LeaseNamespace = LcNamespace cfg\<rparr> s1 of
                 (s2, Inr _) \<Rightarrow> (s2, Inr ())
               | (s2, Inl e') \<Rightarrow> (s2, if e' = AlreadyExists then Inr () else Inl (ApiErr ''create lifecycle lease'' e'))))"

definition ensureWebhook :: "'s KubeEnv \<Rightarrow> LifecycleConfig \<Rightarrow> pem option \<Rightarrow> ('s, lifecycle_error, unit) op" where
  "ensureWebhook env cfg caBundle =
     obind (lift id (BuildMutatingWebhookConfiguration (LcWebhookName cfg) (LcServiceName cfg) (LcNamespace cfg) (LcServicePort cfg) caBundle))
       (\<lambda>webhook.
         obind (call id (applyObject (webhookApi env) ''mutating webhook configuration'' (LcWebhookName cfg) webhook
                  (\<lambda>current. current\<lparr>Webhooks := Webhooks webhook\<rparr>))) (\<lambda>_. ret ()))"

definition Ensure :: "'s KubeEnv \<Rightarrow> LifecycleConfig \<Rightarrow> ('s, lifecycle_error, TlsCertificate) op" where
  "Ensure env cfg =
     obind (call id (ensureLease env cfg)) (\<lambda>_.
     obind (ensureCertificateResources env cfg) (\<lambda>certificates.
     obind (ensureWebhook env cfg (caCertPEM certificates)) (\<lambda>_.
       case X509KeyPair (tlsCertPEM certificates) (tlsKeyPEM certificates) of
         None \<Rightarrow> fail LoadKeyPair
       | Some cert \<Rightarrow> ret cert)))"

section \<open>tls\_reload.go and rotation.go\<close>

definition cloneCertificate :: "TlsCertificate \<Rightarrow> TlsCertificate" where
  "cloneCertificate c = \<lparr>TcChain = TcChain c, TcKey = TcKey c, TcLeaf = TcLeaf c\<rparr>"

text \<open>The server: the world, the certificate of the reloader, and the errors given to the handler, last first.\<close>

record 's Serving =
  world :: 's
  reloader :: "TlsCertificate option"
  reported :: "lifecycle_error list"

definition SetCertificate :: "TlsCertificate \<Rightarrow> 's Serving \<Rightarrow> 's Serving" where
  "SetCertificate cert v = v\<lparr>reloader := Some (cloneCertificate cert)\<rparr>"

definition GetCertificate :: "'s Serving \<Rightarrow> (lifecycle_error, TlsCertificate) result" where
  "GetCertificate v = (case reloader v of None \<Rightarrow> Inl NotLoaded | Some c \<Rightarrow> Inr (cloneCertificate c))"

definition LoadTLSCertificateFromSecret :: "(Secret, 's) ObjApi \<Rightarrow> string \<Rightarrow> 's \<Rightarrow> 's \<times> (lifecycle_error, TlsCertificate) result" where
  "LoadTLSCertificateFromSecret secrets name s = (case objGet secrets name s of
       (s1, Inl e) \<Rightarrow> (s1, Inl (ApiErr ''get tls secret'' e))
     | (s1, Inr secret) \<Rightarrow>
         (s1, case X509KeyPair (fmlookup (SecretData secret) TLSCertKey) (fmlookup (SecretData secret) TLSPrivateKeyKey) of
                None \<Rightarrow> Inl LoadKeyPair | Some cert \<Rightarrow> Inr cert))"

definition RefreshTLSCertificateFromSecret ::
  "(Secret, 's) ObjApi \<Rightarrow> string \<Rightarrow> 's Serving \<Rightarrow> 's Serving \<times> (lifecycle_error, unit) result" where
  "RefreshTLSCertificateFromSecret secrets name v = (case LoadTLSCertificateFromSecret secrets name (world v) of
       (s1, Inl e) \<Rightarrow> (v\<lparr>world := s1\<rparr>, Inl e)
     | (s1, Inr cert) \<Rightarrow> (SetCertificate cert (v\<lparr>world := s1\<rparr>), Inr ()))"

definition report :: "lifecycle_error \<Rightarrow> 's Serving \<Rightarrow> 's Serving" where
  "report e v = v\<lparr>reported := e # reported v\<rparr>"

text \<open>
  Waiting in a \<open>select\<close> lets the world change and ends with the next tick, or with the end of the context (\<open>True\<close>).
\<close>

partial_function (option) waitLoop ::
  "(Secret, 's) ObjApi \<Rightarrow> string \<Rightarrow> ('s \<Rightarrow> 's \<times> bool) \<Rightarrow> 's Serving \<Rightarrow> ('s Serving \<times> (lifecycle_error, unit) result) option" where
  "waitLoop secrets name await v =
     (case RefreshTLSCertificateFromSecret secrets name v of
        (v1, Inr _) \<Rightarrow> Some (v1, Inr ())
      | (v1, Inl e) \<Rightarrow>
          (let v2 = report e v1
           in case await (world v2) of
                (s, stop) \<Rightarrow>
                  if stop then Some (v2\<lparr>world := s\<rparr>, Inl ContextDone)
                  else waitLoop secrets name await (v2\<lparr>world := s\<rparr>)))"

definition WaitForTLSCertificateFromSecret ::
  "(Secret, 's) ObjApi \<Rightarrow> string \<Rightarrow> int \<Rightarrow> ('s \<Rightarrow> 's \<times> bool) \<Rightarrow> ('s Serving, lifecycle_error, unit) op" where
  "WaitForTLSCertificateFromSecret secrets name interval await =
     (if interval \<le> 0 then fail IntervalNotPositive else waitLoop secrets name await)"

partial_function (option) refreshLoop ::
  "(Secret, 's) ObjApi \<Rightarrow> string \<Rightarrow> ('s \<Rightarrow> 's \<times> bool) \<Rightarrow> 's Serving \<Rightarrow> ('s Serving \<times> (lifecycle_error, unit) result) option" where
  "refreshLoop secrets name await v =
     (case await (world v) of
        (s, stop) \<Rightarrow>
          if stop then Some (v\<lparr>world := s\<rparr>, Inr ())
          else (case RefreshTLSCertificateFromSecret secrets name (v\<lparr>world := s\<rparr>) of
             (v1, Inl e) \<Rightarrow> refreshLoop secrets name await (report e v1)
           | (v1, Inr _) \<Rightarrow> refreshLoop secrets name await v1))"

definition RunTLSCertificateRefreshLoop ::
  "(Secret, 's) ObjApi \<Rightarrow> string \<Rightarrow> int \<Rightarrow> ('s \<Rightarrow> 's \<times> bool) \<Rightarrow> ('s Serving, lifecycle_error, unit) op" where
  "RunTLSCertificateRefreshLoop secrets name interval await =
     (if interval \<le> 0 then fail IntervalNotPositive else refreshLoop secrets name await)"

definition isCancelled :: "lifecycle_error \<Rightarrow> bool" where
  "isCancelled e = (case e of ApiErr _ Cancelled \<Rightarrow> True | _ \<Rightarrow> False)"

text \<open>The manager is an interface: any operation that gives a certificate.\<close>

definition ensureAndReload :: "('s, lifecycle_error, TlsCertificate) op \<Rightarrow> 's Serving \<Rightarrow> 's Serving option" where
  "ensureAndReload ensure v = (case ensure (world v) of
       None \<Rightarrow> None
     | Some (s, Inl e) \<Rightarrow> Some (if isCancelled e then v\<lparr>world := s\<rparr> else report e (v\<lparr>world := s\<rparr>))
     | Some (s, Inr cert) \<Rightarrow> Some (SetCertificate cert (v\<lparr>world := s\<rparr>)))"

partial_function (option) rotationLoop ::
  "('s, lifecycle_error, TlsCertificate) op \<Rightarrow> ('s \<Rightarrow> 's \<times> bool) \<Rightarrow> 's Serving \<Rightarrow> 's Serving option" where
  "rotationLoop ensure await v =
     (case await (world v) of
        (s, stop) \<Rightarrow>
          if stop then Some (v\<lparr>world := s\<rparr>)
          else Option.bind (ensureAndReload ensure (v\<lparr>world := s\<rparr>)) (rotationLoop ensure await))"

definition runRotation :: "('s, lifecycle_error, TlsCertificate) op \<Rightarrow> ('s \<Rightarrow> 's \<times> bool) \<Rightarrow> 's Serving \<Rightarrow> 's Serving option" where
  "runRotation ensure await v = Option.bind (ensureAndReload ensure v) (rotationLoop ensure await)"

definition RunRotation ::
  "('s, lifecycle_error, TlsCertificate) op \<Rightarrow> int \<Rightarrow> ('s \<Rightarrow> 's \<times> bool) \<Rightarrow> 's Serving \<Rightarrow> ('s Serving \<times> (lifecycle_error, unit) result) option" where
  "RunRotation ensure interval await v =
     (if interval \<le> 0 then Some (v, Inl IntervalNotPositive)
      else map_option (\<lambda>v'. (v', Inr ())) (runRotation ensure await v))"

declare randomSerialNumber.simps [code] waitLoop.simps [code] refreshLoop.simps [code] rotationLoop.simps [code]

section \<open>What the API promises\<close>

text \<open>
  The documented behaviour of \<open>retry.RetryOnConflict\<close>: the function is called again only after a conflict, other clients
  may act and time passes in between, and the last answer is returned.
\<close>

inductive attempts :: "('s \<Rightarrow> int) \<Rightarrow> ('s \<times> 'o \<Rightarrow> ('s \<times> 'o) \<times> (string \<times> api_error, 'o) result) \<Rightarrow> 's \<times> 'o \<Rightarrow>
    ('s \<times> 'o) \<times> (string \<times> api_error, 'o) result \<Rightarrow> bool" for clk f where
  one: "f x = z \<Longrightarrow> attempts clk f x z"
| again: "f x = ((s, cur), Inl (c, Conflict)) \<Longrightarrow> clk s \<le> clk s' \<Longrightarrow> attempts clk f (s', cur) z \<Longrightarrow> attempts clk f x z"

text \<open>
  Time does not run backwards during a call, and an object that was created or updated is stored with the content it
  was given and returned that way.
\<close>

definition apiOK :: "('s \<Rightarrow> int) \<Rightarrow> ('s \<Rightarrow> 'p option) \<Rightarrow> ('o \<Rightarrow> 'p) \<Rightarrow> ('o, 's) ObjApi \<Rightarrow> bool" where
  "apiOK clk written content api \<longleftrightarrow>
     (\<forall>n s. clk s \<le> clk (fst (objGet api n s))) \<and>
     (\<forall>obj s. clk s \<le> clk (fst (objCreate api obj s)) \<and> clk s \<le> clk (fst (objUpdate api obj s))) \<and>
     (\<forall>obj s s' obj'. objCreate api obj s = (s', Inr obj') \<or> objUpdate api obj s = (s', Inr obj') \<longrightarrow>
        content obj' = content obj \<and> written s' = Some (content obj)) \<and>
     (\<forall>f x. attempts clk f x (objRetry api f x))"

definition kubeOK :: "'s KubeEnv \<Rightarrow> ('s \<Rightarrow> (string, pem) fmap option) \<Rightarrow> ('s \<Rightarrow> MutatingWebhook list option) \<Rightarrow> bool" where
  "kubeOK env secretsWritten webhooksWritten \<longleftrightarrow>
     apiOK (clock env) secretsWritten SecretData (secretApi env) \<and>
     apiOK (clock env) webhooksWritten Webhooks (webhookApi env) \<and>
     (\<forall>n s. clock env s \<le> clock env (fst (objGet (leaseApi env) n s))) \<and>
     (\<forall>l s. clock env s \<le> clock env (fst (objCreate (leaseApi env) l s))) \<and>
     (\<forall>s. clock env s \<le> clock env (fst (generateKey env s))) \<and>
     (\<forall>n s. clock env s \<le> clock env (fst (randInt env n s)))"

named_theorems op_simps \<open>successful runs of the operations\<close>

lemma obind_ok [op_simps]: "obind m f s = Some (s', Inr y) \<longleftrightarrow> (\<exists>s1 x. m s = Some (s1, Inr x) \<and> f x s1 = Some (s', Inr y))"
  by (auto simp: obind_def split: option.splits sum.splits)

lemma call_ok [op_simps]: "call g m s = Some (s', Inr x) \<longleftrightarrow> m s = (s', Inr x)"
  by (auto simp: call_def split: prod.splits sum.splits)

lemma lift_ok [op_simps]: "lift g r s = Some (s', Inr x) \<longleftrightarrow> s' = s \<and> r = Inr x"
  by (auto simp: lift_def split: sum.splits)

lemma ret_ok [op_simps]: "ret y s = Some (s', Inr x) \<longleftrightarrow> s' = s \<and> x = y"
  by (auto simp: ret_def)

lemma fail_ok [op_simps]: "fail e s = Some (s', Inr x) \<longleftrightarrow> False"
  by (simp add: fail_def)

lemma now_ok [op_simps]: "now env s = Some (s', Inr x) \<longleftrightarrow> s' = s \<and> x = clock env s"
  by (auto simp: now_def)

subsection \<open>Writing objects\<close>

lemma attempts_ok:
  assumes "attempts clk f x z" and "\<And>x. clk (fst x) \<le> clk (fst (fst (f x)))"
    and "\<And>x s cur obj. f x = ((s, cur), Inr obj) \<Longrightarrow> P s obj"
  shows "clk (fst x) \<le> clk (fst (fst z)) \<and> (\<forall>obj. snd z = Inr obj \<longrightarrow> P (fst (fst z)) obj)"
  using assms(1)
proof (induction rule: attempts.induct)
  case (one x z)
  show ?case
  proof (intro conjI allI impI)
    show "clk (fst x) \<le> clk (fst (fst z))" using assms(2) [of x] one by simp
    fix obj assume "snd z = Inr obj"
    then have "z = ((fst (fst z), snd (fst z)), Inr obj)" by (simp add: prod_eq_iff)
    with one show "P (fst (fst z)) obj" using assms(3) by metis
  qed
next
  case (again x s cur c s' z)
  have "clk (fst x) \<le> clk s" using assms(2) [of x] again.hyps(1) by simp
  with again show ?case by auto
qed

lemma apiOK_get: "apiOK clk written content api \<Longrightarrow> objGet api n s = (s', r) \<Longrightarrow> clk s \<le> clk s'"
  unfolding apiOK_def by (metis fst_conv)

lemma apiOK_create:
  assumes "apiOK clk written content api" "objCreate api obj s = (s', r)"
  shows "clk s \<le> clk s'" and "r = Inr obj' \<Longrightarrow> content obj' = content obj \<and> written s' = Some (content obj)"
  using assms unfolding apiOK_def by (metis fst_conv, metis)

lemma apiOK_update:
  assumes "apiOK clk written content api" "objUpdate api obj s = (s', r)"
  shows "clk s \<le> clk s'" and "r = Inr obj' \<Longrightarrow> content obj' = content obj \<and> written s' = Some (content obj)"
  using assms unfolding apiOK_def by (metis fst_conv, metis)

lemma updateOnce_mono:
  assumes api: "apiOK clk written content api"
  shows "clk (fst x) \<le> clk (fst (fst (updateOnce api what name modify x)))"
proof -
  obtain s cur where x: "x = (s, cur)" by fastforce
  obtain s1 r where u: "objUpdate api (modify cur) s = (s1, r)" by fastforce
  obtain s2 g where g: "objGet api name s1 = (s2, g)" by fastforce
  have "clk s \<le> clk s1" "clk s1 \<le> clk s2" using apiOK_update(1) [OF api u] apiOK_get [OF api g] .
  then show ?thesis by (simp add: x u g updateOnce_def split: sum.split)
qed

lemma updateOnce_written:
  assumes api: "apiOK clk written content api" and m: "\<And>cur. content (modify cur) = p"
    and f: "updateOnce api what name modify x = ((s', cur'), Inr obj)"
  shows "content obj = p \<and> written s' = Some p"
proof -
  obtain s cur where x: "x = (s, cur)" by fastforce
  obtain s1 r where u: "objUpdate api (modify cur) s = (s1, r)" by fastforce
  with f x have "s' = s1" "r = Inr obj" by (auto simp: updateOnce_def split: sum.splits if_splits prod.splits)
  then show ?thesis using apiOK_update(2) [OF api u] m by simp
qed

lemma updateObject_ok:
  assumes api: "apiOK clk written content api" and m: "\<And>cur. content (modify cur) = p"
    and "updateObject api what name modify current s = (s', Inr obj)"
  shows "clk s \<le> clk s' \<and> content obj = p \<and> written s' = Some p"
proof -
  obtain cur where r: "objRetry api (updateOnce api what name modify) (s, current) = ((s', cur), Inr obj)"
    using assms(3) by (auto simp: updateObject_def split: prod.splits sum.splits)
  have "attempts clk (updateOnce api what name modify) (s, current) ((s', cur), Inr obj)"
    using api unfolding apiOK_def r [symmetric] by blast
  from attempts_ok [OF this updateOnce_mono [OF api], of "\<lambda>s o1. content o1 = p \<and> written s = Some p"]
  show ?thesis using updateOnce_written [OF api m] by fastforce
qed

lemma applyObject_ok:
  assumes api: "apiOK clk written content api" and m: "\<And>cur. content (modify cur) = p" and obj: "content obj = p"
    and a: "applyObject api what name obj modify s = (s', Inr out)"
  shows "clk s \<le> clk s' \<and> content out = p \<and> written s' = Some p"
proof -
  obtain s1 g where g: "objGet api name s = (s1, g)" by fastforce
  note t1 = apiOK_get [OF api g]
  show ?thesis
  proof (cases g)
    case (Inr cur)
    with a g have "updateObject api what name modify cur s1 = (s', Inr out)" by (simp add: applyObject_def)
    from updateObject_ok [OF api m this] t1 show ?thesis by simp
  next
    case (Inl err)
    with a g have "err = NotFound" by (auto simp: applyObject_def split: if_splits)
    obtain s2 c where c: "objCreate api obj s1 = (s2, c)" by fastforce
    note t2 = apiOK_create(1) [OF api c]
    show ?thesis
    proof (cases c)
      case (Inr o1)
      with a g Inl \<open>err = NotFound\<close> c have "s' = s2" "o1 = out" by (simp_all add: applyObject_def)
      with apiOK_create [OF api c] Inr obj t1 show ?thesis by auto
    next
      case (Inl e)
      obtain s3 h where h: "objGet api name s2 = (s3, h)" by fastforce
      note t3 = apiOK_get [OF api h]
      from a g c h Inl \<open>g = Inl err\<close> \<open>err = NotFound\<close> obtain cur where "updateObject api what name modify cur s3 = (s', Inr out)"
        by (auto simp: applyObject_def split: if_splits sum.splits)
      from updateObject_ok [OF api m this] t1 t2 t3 show ?thesis by simp
    qed
  qed
qed

subsection \<open>Issuing certificates\<close>

lemma truncSec_bounds: "truncSec t \<le> t" "t - second < truncSec t"
  by (simp_all add: truncSec_def second_def pos_mod_bound)

lemma duration_pos: "0 < second" "0 < minute" "0 < leafValidity" "leafValidity < caValidity" "second < minute"
  by (simp_all add: second_def minute_def leafValidity_def caValidity_def)

lemma randomSerialNumber_ok:
  assumes "randomSerialNumber env s = Some (s', Inr n)" and "\<And>b s. clock env s \<le> clock env (fst (randInt env b s))"
  shows "clock env s \<le> clock env s' \<and> 0 < n"
proof -
  define P where "P = (\<lambda>(env :: ('a, 'b) CertEnv_scheme) s y. (\<forall>b s. clock env s \<le> clock env (fst (randInt env b s))) \<longrightarrow>
    (\<forall>s' n. y = (s', Inr n :: (lifecycle_error, int) result) \<longrightarrow> clock env s \<le> clock env s' \<and> 0 < n))"
  have "P env s (s', Inr n)"
  proof (rule randomSerialNumber.raw_induct [OF _ assms(1), of P])
    fix rec env s y
    assume rec: "\<And>env s y. rec env s = Some y \<Longrightarrow> P env s y"
      and r: "(case randInt env (2 ^ serialBits) s of (s', Inl e) \<Rightarrow> Some (s', Inl (SerialErr e))
        | (s', Inr serial) \<Rightarrow> if 0 < serial then Some (s', Inr serial) else rec env s') = Some y"
    show "P env s y"
      unfolding P_def
    proof (intro impI allI)
      fix s' n assume m: "\<forall>b s. clock env s \<le> clock env (fst (randInt env b s))" and y: "y = (s', Inr n)"
      obtain s1 d where d: "randInt env (2 ^ serialBits) s = (s1, d)" by fastforce
      have "clock env s \<le> clock env s1" using m d by (metis fst_conv)
      moreover obtain k where "d = Inr k" using r d y by (cases d) auto
      moreover have "clock env s1 \<le> clock env s' \<and> 0 < n" if "\<not> 0 < k"
        using rec [of env s1 y] that r d calculation m y unfolding P_def by auto
      ultimately show "clock env s \<le> clock env s' \<and> 0 < n" using r d y by (cases "0 < k") auto
    qed
  qed
  with assms(2) show ?thesis by (auto simp: P_def)
qed

text \<open>A server certificate that a CA issued at a time.\<close>

definition issuedLeaf :: "Certificate \<Rightarrow> string list \<Rightarrow> Certificate \<Rightarrow> nat \<Rightarrow> int \<Rightarrow> bool" where
  "issuedLeaf ca names leaf key t \<longleftrightarrow> CertKey leaf = RsaPublic key \<and> CertKey ca = RsaPublic (SignedBy leaf) \<and>
     CertIssuer leaf = Subject ca \<and> DNSNames leaf = names \<and> NotBefore leaf = truncSec (t - minute) \<and>
     NotAfter leaf = truncSec (t + leafValidity) \<and> ExtKeyUsages leaf = [ExtKeyUsageServerAuth] \<and> \<not> IsCA leaf"

text \<open>A CA that may sign server certificates, and its validity.\<close>

definition signingCA :: "Certificate \<Rightarrow> bool" where
  "signingCA ca \<longleftrightarrow> BasicConstraintsValid ca \<and> IsCA ca \<and> KeyUsage ca AND KeyUsageCertSign \<noteq> 0 \<and> serverAuth ca"

lemma CreateCertificate_fields:
  assumes "CreateCertificate tpl subj pk pub priv = Inr c"
  shows "Template.truncate c = tpl\<lparr>NotBefore := truncSec (NotBefore tpl), NotAfter := truncSec (NotAfter tpl)\<rparr>"
    and "CertKey c = RsaPublic pub" "CertIssuer c = subj" "SignedBy c = priv" "pk = None \<or> pk = Some (RsaPublic priv)"
  using assms by (auto simp: CreateCertificate_def result_simps Template.defs Certificate.defs split: option.splits)

lemma GenerateTLSCertificate_ok:
  assumes g: "GenerateTLSCertificate env svc ns caPEM caKey s = Some (s', Inr (c, k))"
    and key: "\<And>s. clock env s \<le> clock env (fst (generateKey env s))"
    and rnd: "\<And>b s. clock env s \<le> clock env (fst (randInt env b s))"
  shows "\<exists>ca leaf kk t. caPEM = Some (PemCert ca) \<and> c = PemCert leaf \<and> k = PemKey kk \<and>
    issuedLeaf ca (ServiceDNSNames svc ns) leaf kk t \<and> clock env s \<le> t \<and> t \<le> clock env s'"
proof -
  have "svc \<noteq> []" "ns \<noteq> []" using g by (auto simp: GenerateTLSCertificate_def op_simps split: if_splits)
  moreover obtain ca where ca: "caPEM = Some (PemCert ca)"
    using g calculation by (auto simp: GenerateTLSCertificate_def op_simps pemDecode_def ParseCertificate_def split: option.splits pem.splits)
  moreover obtain cak where cak: "caKey = Some (PemKey cak)"
    using g calculation by (auto simp: GenerateTLSCertificate_def op_simps pemDecode_def ParseCertificate_def ParsePKCS1PrivateKey_def
        split: option.splits pem.splits)
  ultimately obtain s1 kk s2 n leaf where k1: "generateKey env s = (s1, Inr kk)" and n: "randomSerialNumber env s1 = Some (s2, Inr n)"
    and cr: "CreateCertificate (leafTemplate n (ServiceDNSNames svc ns) (clock env s)) (Subject ca) (Some (CertKey ca)) kk cak = Inr leaf"
    and out: "c = PemCert leaf" "k = PemKey kk" "s' = s2"
    using g by (auto simp: GenerateTLSCertificate_def op_simps pemDecode_def ParseCertificate_def ParsePKCS1PrivateKey_def)
  have "clock env s \<le> clock env s1" using key [of s] k1 by simp
  moreover have "clock env s1 \<le> clock env s2" using randomSerialNumber_ok [OF n rnd] by simp
  moreover have "issuedLeaf ca (ServiceDNSNames svc ns) leaf kk (clock env s)"
    using CreateCertificate_fields [OF cr] by (auto simp: issuedLeaf_def leafTemplate_def Template.defs)
  ultimately show ?thesis using ca out by (intro exI [of _ ca] exI [of _ leaf] exI [of _ kk] exI [of _ "clock env s"]) auto
qed

lemma GenerateCertificateBundle_ok:
  assumes g: "GenerateCertificateBundle env svc ns s = Some (s', Inr b)"
    and key: "\<And>s. clock env s \<le> clock env (fst (generateKey env s))"
    and rnd: "\<And>b s. clock env s \<le> clock env (fst (randInt env b s))"
  shows "\<exists>ca t. CACertPEM b = PemCert ca \<and> signingCA ca \<and> NotBefore ca = truncSec (t - minute) \<and> NotAfter ca = truncSec (t + caValidity) \<and>
    clock env s \<le> t \<and> t \<le> clock env s'"
proof -
  from g obtain s1 cak s2 n ca s3 tc tk where k1: "generateKey env s = (s1, Inr cak)" and n: "randomSerialNumber env s1 = Some (s2, Inr n)"
    and cr: "CreateCertificate (caTemplate n (clock env s)) (Subject (caTemplate n (clock env s))) None cak cak = Inr ca"
    and leaf: "GenerateTLSCertificate env svc ns (Some (PemCert ca)) (Some (PemKey cak)) s2 = Some (s', Inr (tc, tk))"
    and b: "CACertPEM b = PemCert ca"
    by (auto simp: GenerateCertificateBundle_def op_simps split: if_splits)
  have "clock env s \<le> clock env s1" using key [of s] k1 by simp
  moreover have "clock env s1 \<le> clock env s2" using randomSerialNumber_ok [OF n rnd] by simp
  moreover have "clock env s2 \<le> clock env s'" using GenerateTLSCertificate_ok [OF leaf key rnd] by auto
  moreover have "signingCA ca \<and> NotBefore ca = truncSec (clock env s - minute) \<and> NotAfter ca = truncSec (clock env s + caValidity)"
    using CreateCertificate_fields [OF cr]
    by (auto simp: signingCA_def serverAuth_def caTemplate_def Template.defs KeyUsageCertSign_def KeyUsageCRLSign_def)
  ultimately show ?thesis using b by (intro exI [of _ ca] exI [of _ "clock env s"]) auto
qed

lemma issuedLeaf_verifies:
  assumes i: "issuedLeaf ca (ServiceDNSNames svc ns) leaf key t0" and ca: "signingCA ca"
    and "NotBefore ca \<le> t" "t \<le> NotAfter ca" and "t0 - minute \<le> t" "t \<le> t0 + leafValidity - second"
    and "n \<in> set (ServiceDNSNames svc ns)" and "svc \<noteq> []" "svc \<noteq> ''.''"
  shows "Verify leaf ca n t"
proof -
  have "n \<noteq> []" "n \<noteq> ''.''" using assms(7,8,9) by (cases svc; auto simp: ServiceDNSNames_def)+
  then have "VerifyHostname leaf n" using i assms(7) by (intro VerifyHostname_listed) (simp_all add: issuedLeaf_def)
  moreover have "timeValid leaf t" "timeValid ca t"
    using i assms(3-6) truncSec_bounds(1) [of "t0 - minute"] truncSec_bounds(2) [of "t0 + leafValidity"]
    by (auto simp: timeValid_def issuedLeaf_def)
  moreover have "serverAuth leaf" using i by (simp add: issuedLeaf_def serverAuth_def)
  ultimately show ?thesis using i ca by (auto simp: Verify_def issuedLeaf_def signingCA_def signatureFrom_def)
qed

subsection \<open>The certificates that are in use\<close>

text \<open>
  A pair of a CA and a serving certificate with its key that clients accept for every name of the service during a
  span of time.
\<close>

definition trusted :: "LifecycleConfig \<Rightarrow> int \<Rightarrow> int \<Rightarrow> certificateResources \<Rightarrow> bool" where
  "trusted cfg lo hi res \<longleftrightarrow> (\<exists>ca leaf key. caCertPEM res = Some (PemCert ca) \<and> tlsCertPEM res = Some (PemCert leaf) \<and>
     tlsKeyPEM res = Some (PemKey key) \<and> CertKey leaf = RsaPublic key \<and>
     (\<forall>t n. lo \<le> t \<longrightarrow> t \<le> hi \<longrightarrow> n \<in> set (ServiceDNSNames (LcServiceName cfg) (LcNamespace cfg)) \<longrightarrow> Verify leaf ca n t))"

text \<open>No secret of the cluster holds a CA that is restricted to other uses than servers.\<close>

definition casOK :: "'s KubeEnv \<Rightarrow> bool" where
  "casOK env \<longleftrightarrow> (\<forall>n s s' sec c. objGet (secretApi env) n s = (s', Inr sec) \<longrightarrow>
     fmlookup (SecretData sec) CASecretCertKey = Some (PemCert c) \<longrightarrow> serverAuth c)"

text \<open>The configuration has a service name that can be a host name, and a window below the life of a certificate.\<close>

definition configOK :: "LifecycleConfig \<Rightarrow> bool" where
  "configOK cfg \<longleftrightarrow> LcServiceName cfg \<noteq> ''.'' \<and> LcRenewalWindow cfg \<le> leafValidity - second"

lemma parse_ok:
  "parseCertificate b = Inr c \<longleftrightarrow> b = Some (PemCert c)" "parseRSAKey b = Inr k \<longleftrightarrow> b = Some (PemKey k)"
  by (auto simp: parseCertificate_def parseRSAKey_def pemDecode_def ParseCertificate_def ParsePKCS1PrivateKey_def
      split: option.splits pem.splits)

lemma Verify_later:
  assumes "Verify leaf ca n t0" "t0 \<le> t" "t \<le> NotAfter leaf" "t \<le> NotAfter ca"
  shows "Verify leaf ca n t"
  using assms by (auto simp: Verify_def timeValid_def split: if_splits)

lemma Evaluate_healthy:
  assumes e: "EvaluateCertificateHealth (caCertPEM r) (caKeyPEM r) (tlsCertPEM r) (tlsKeyPEM r) (healthConfig cfg) t0 = Inr CertificateHealthy"
    and "t0 \<le> lo" "hi \<le> t0 + LcRenewalWindow cfg"
  shows "trusted cfg lo hi r"
proof -
  obtain ca leaf key where res: "caCertPEM r = Some (PemCert ca)" "tlsCertPEM r = Some (PemCert leaf)" "tlsKeyPEM r = Some (PemKey key)"
    and k: "CertKey leaf = RsaPublic key" and h: "certTimeHealthy ca t0 (LcRenewalWindow cfg)" "certTimeHealthy leaf t0 (LcRenewalWindow cfg)"
    and v: "leafVerifiesAgainstCA leaf ca (LcServiceName cfg) (LcNamespace cfg) t0"
    using e by (auto simp: EvaluateCertificateHealth_def healthConfig_def parse_ok split: sum.splits if_splits)
  have "Verify leaf ca n t" if "lo \<le> t" "t \<le> hi" "n \<in> set (ServiceDNSNames (LcServiceName cfg) (LcNamespace cfg))" for t n
  proof (rule Verify_later)
    show "Verify leaf ca n t0" using v that(3) by (auto simp: leafVerifiesAgainstCA_def list_all_iff)
  qed (use h that assms(2,3) in \<open>auto simp: certTimeHealthy_def\<close>)
  with res k show ?thesis by (auto simp: trusted_def)
qed

lemma Evaluate_rotateLeaf:
  assumes "EvaluateCertificateHealth caPEM keyPEM tls tlsKey hc t0 = Inr RotateLeafCertificate"
  shows "\<exists>ca. caPEM = Some (PemCert ca) \<and> NotBefore ca \<le> t0 \<and> t0 + HcRenewalWindow hc < NotAfter ca \<and> BasicConstraintsValid ca \<and>
    IsCA ca \<and> KeyUsage ca AND KeyUsageCertSign \<noteq> 0"
proof -
  obtain ca where "parseCertificate caPEM = Inr ca"
    using assms by (cases "parseCertificate caPEM") (auto simp: EvaluateCertificateHealth_def)
  with assms show ?thesis
    by (auto simp: EvaluateCertificateHealth_def parse_ok certTimeHealthy_def split: if_splits)
qed

lemma issued_trusted:
  assumes i: "issuedLeaf ca (ServiceDNSNames (LcServiceName cfg) (LcNamespace cfg)) leaf key t1" and ca: "signingCA ca"
    and b: "NotBefore ca \<le> lo" "hi \<le> NotAfter ca" "t1 \<le> lo" "hi \<le> t1 + LcRenewalWindow cfg"
    and cfg: "configOK cfg" "LcServiceName cfg \<noteq> []"
    and r: "caCertPEM r = Some (PemCert ca)" "tlsCertPEM r = Some (PemCert leaf)" "tlsKeyPEM r = Some (PemKey key)"
  shows "trusted cfg lo hi r"
proof -
  have "Verify leaf ca n t" if "lo \<le> t" "t \<le> hi" "n \<in> set (ServiceDNSNames (LcServiceName cfg) (LcNamespace cfg))" for t n
    by (rule issuedLeaf_verifies [OF i ca _ _ _ _ that(3)])
      (use b cfg that duration_pos in \<open>auto simp: configOK_def\<close>)
  moreover have "CertKey leaf = RsaPublic key" using i by (simp add: issuedLeaf_def)
  ultimately show ?thesis using r by (auto simp: trusted_def)
qed

lemma kubeOK_D:
  assumes "kubeOK env sw ww"
  shows "apiOK (clock env) sw SecretData (secretApi env)" "apiOK (clock env) ww Webhooks (webhookApi env)"
    "\<And>s. clock env s \<le> clock env (fst (generateKey env s))" "\<And>b s. clock env s \<le> clock env (fst (randInt env b s))"
    "\<And>n s. clock env s \<le> clock env (fst (objGet (leaseApi env) n s))" "\<And>l s. clock env s \<le> clock env (fst (objCreate (leaseApi env) l s))"
  using assms unfolding kubeOK_def by blast+

lemma applyTLSSecret_ok:
  assumes "kubeOK env sw ww" and "applyTLSSecret env cfg c k s = Some (s', Inr sec)"
  shows "clock env s \<le> clock env s'" "fmlookup (SecretData sec) TLSCertKey = Some c" "fmlookup (SecretData sec) TLSPrivateKeyKey = Some k"
proof -
  have a: "applyObject (secretApi env) ''tls secret'' (LcTLSSecretName cfg)
      \<lparr>SecretName = LcTLSSecretName cfg, SecretNamespace = LcNamespace cfg, SecretVersion = [], SecretType = SecretTypeTLS,
       SecretData = fmap_of_list [(TLSCertKey, c), (TLSPrivateKeyKey, k)]\<rparr>
      (\<lambda>current. current\<lparr>SecretType := SecretTypeTLS, SecretData := fmap_of_list [(TLSCertKey, c), (TLSPrivateKeyKey, k)]\<rparr>) s = (s', Inr sec)"
    using assms(2) by (simp add: applyTLSSecret_def Let_def op_simps)
  note r = applyObject_ok [OF kubeOK_D(1) [OF assms(1)] _ _ a, of "fmap_of_list [(TLSCertKey, c), (TLSPrivateKeyKey, k)]"]
  show "clock env s \<le> clock env s'" "fmlookup (SecretData sec) TLSCertKey = Some c" "fmlookup (SecretData sec) TLSPrivateKeyKey = Some k"
    using r by (simp_all add: TLSCertKey_def TLSPrivateKeyKey_def)
qed

lemma applyCASecret_ok:
  assumes "kubeOK env sw ww" and "applyCASecret env cfg c k s = Some (s', Inr sec)"
  shows "clock env s \<le> clock env s'" "fmlookup (SecretData sec) CASecretCertKey = Some c" "fmlookup (SecretData sec) CASecretKeyKey = Some k"
proof -
  have a: "applyObject (secretApi env) ''ca secret'' (LcCASecretName cfg)
      \<lparr>SecretName = LcCASecretName cfg, SecretNamespace = LcNamespace cfg, SecretVersion = [], SecretType = [],
       SecretData = fmap_of_list [(CASecretCertKey, c), (CASecretKeyKey, k)]\<rparr>
      (\<lambda>current. current\<lparr>SecretData := fmap_of_list [(CASecretCertKey, c), (CASecretKeyKey, k)]\<rparr>) s = (s', Inr sec)"
    using assms(2) by (simp add: applyCASecret_def Let_def op_simps)
  note r = applyObject_ok [OF kubeOK_D(1) [OF assms(1)] _ _ a, of "fmap_of_list [(CASecretCertKey, c), (CASecretKeyKey, k)]"]
  show "clock env s \<le> clock env s'" "fmlookup (SecretData sec) CASecretCertKey = Some c" "fmlookup (SecretData sec) CASecretKeyKey = Some k"
    using r by (simp_all add: CASecretCertKey_def CASecretKeyKey_def)
qed

lemma GenerateTLS_service: "GenerateTLSCertificate env svc ns ca k s = Some (s', Inr x) \<Longrightarrow> svc \<noteq> []"
  by (auto simp: GenerateTLSCertificate_def op_simps)

lemma rotateLeafCertificate_ok:
  assumes kube: "kubeOK env sw ww" and cfg: "configOK cfg"
    and r: "rotateLeafCertificate env cfg (Some (PemCert ca)) k s = Some (s', Inr res)"
    and ca: "signingCA ca" "NotBefore ca \<le> clock env s" "hi \<le> NotAfter ca" and hi: "hi \<le> clock env s + LcRenewalWindow cfg"
  shows "clock env s \<le> clock env s' \<and> trusted cfg (clock env s') hi res"
proof -
  from r obtain s1 tc tk sec where g: "GenerateTLSCertificate env (LcServiceName cfg) (LcNamespace cfg) (Some (PemCert ca)) k s = Some (s1, Inr (tc, tk))"
    and a: "applyTLSSecret env cfg tc tk s1 = Some (s', Inr sec)"
    and res: "res = \<lparr>caCertPEM = Some (PemCert ca), caKeyPEM = k, tlsCertPEM = fmlookup (SecretData sec) TLSCertKey,
      tlsKeyPEM = fmlookup (SecretData sec) TLSPrivateKeyKey\<rparr>"
    by (auto simp: rotateLeafCertificate_def op_simps)
  from GenerateTLSCertificate_ok [OF g kubeOK_D(3,4) [OF kube]] obtain leaf kk t where l: "tc = PemCert leaf" "tk = PemKey kk"
    and i: "issuedLeaf ca (ServiceDNSNames (LcServiceName cfg) (LcNamespace cfg)) leaf kk t" and t: "clock env s \<le> t" "t \<le> clock env s1"
    by auto
  note s = applyTLSSecret_ok [OF kube a]
  have "trusted cfg (clock env s') hi res"
    by (rule issued_trusted [OF i ca(1)]) (use ca t s hi cfg l res GenerateTLS_service [OF g] in auto)
  with s t show ?thesis by simp
qed

lemma rotateCertificateBundle_ok:
  assumes kube: "kubeOK env sw ww" and cfg: "configOK cfg"
    and r: "rotateCertificateBundle env cfg s = Some (s', Inr res)" and hi: "hi \<le> clock env s + LcRenewalWindow cfg"
  shows "clock env s \<le> clock env s' \<and> trusted cfg (clock env s') hi res"
proof -
  from r obtain s1 b s2 cas s3 tc tk sec
    where g: "GenerateCertificateBundle env (LcServiceName cfg) (LcNamespace cfg) s = Some (s1, Inr b)"
      and a: "applyCASecret env cfg (CACertPEM b) (CAKeyPEM b) s1 = Some (s2, Inr cas)"
      and l: "GenerateTLSCertificate env (LcServiceName cfg) (LcNamespace cfg) (fmlookup (SecretData cas) CASecretCertKey)
        (fmlookup (SecretData cas) CASecretKeyKey) s2 = Some (s3, Inr (tc, tk))"
      and w: "applyTLSSecret env cfg tc tk s3 = Some (s', Inr sec)"
      and res: "res = \<lparr>caCertPEM = fmlookup (SecretData cas) CASecretCertKey, caKeyPEM = fmlookup (SecretData cas) CASecretKeyKey,
        tlsCertPEM = fmlookup (SecretData sec) TLSCertKey, tlsKeyPEM = fmlookup (SecretData sec) TLSPrivateKeyKey\<rparr>"
    by (auto simp: rotateCertificateBundle_def op_simps)
  from GenerateCertificateBundle_ok [OF g kubeOK_D(3,4) [OF kube]] obtain ca t0 where ca: "CACertPEM b = PemCert ca" "signingCA ca"
    and nb: "NotBefore ca = truncSec (t0 - minute)" and na: "NotAfter ca = truncSec (t0 + caValidity)"
    and t0: "clock env s \<le> t0" "t0 \<le> clock env s1" by auto
  note as = applyCASecret_ok [OF kube a] and ts = applyTLSSecret_ok [OF kube w]
  from GenerateTLSCertificate_ok [OF l kubeOK_D(3,4) [OF kube]] as(2) ca(1) obtain leaf kk t where tl: "tc = PemCert leaf" "tk = PemKey kk"
    and i: "issuedLeaf ca (ServiceDNSNames (LcServiceName cfg) (LcNamespace cfg)) leaf kk t" and t: "clock env s2 \<le> t" "t \<le> clock env s3"
    by auto
  have "NotBefore ca \<le> clock env s'" using nb truncSec_bounds(1) [of "t0 - minute"] t0 t as ts duration_pos by linarith
  moreover have "hi \<le> NotAfter ca"
    using na truncSec_bounds(2) [of "t0 + caValidity"] t0 hi cfg duration_pos by (simp add: configOK_def)
  ultimately have "trusted cfg (clock env s') hi res"
    by (intro issued_trusted [OF i ca(2)]) (use t0 t as ts hi cfg tl res ca GenerateTLS_service [OF l] in auto)
  with t0 t as ts show ?thesis by simp
qed

lemma readCertificateResources_ok:
  assumes kube: "kubeOK env sw ww" and r: "readCertificateResources env cfg s = (s', Inr res)"
  shows "clock env s \<le> clock env s'"
    and "casOK env \<Longrightarrow> res = Some cur \<Longrightarrow> caCertPEM cur = Some (PemCert ca) \<Longrightarrow> serverAuth ca"
proof -
  obtain s1 g where g: "objGet (secretApi env) (LcCASecretName cfg) s = (s1, g)" by fastforce
  obtain s2 h where h: "objGet (secretApi env) (LcTLSSecretName cfg) s1 = (s2, h)" by fastforce
  have "clock env s \<le> clock env s1" "clock env s1 \<le> clock env s2"
    using apiOK_get [OF kubeOK_D(1) [OF kube]] g h by blast+
  then show "clock env s \<le> clock env s'"
    using r g h by (auto simp: readCertificateResources_def Let_def split: sum.splits if_splits)
  assume "casOK env" "res = Some cur" "caCertPEM cur = Some (PemCert ca)"
  with r g h obtain sec where "g = Inr sec" "fmlookup (SecretData sec) CASecretCertKey = Some (PemCert ca)"
    by (auto simp: readCertificateResources_def Let_def split: sum.splits if_splits)
  with g \<open>casOK env\<close> show "serverAuth ca" unfolding casOK_def by blast
qed

lemma ensureCertificateResources_ok:
  assumes kube: "kubeOK env sw ww" and cas: "casOK env" and cfg: "configOK cfg"
    and r: "ensureCertificateResources env cfg s = Some (s', Inr res)" and hi: "hi \<le> clock env s + LcRenewalWindow cfg"
  shows "clock env s \<le> clock env s' \<and> trusted cfg (clock env s') hi res"
proof -
  from r obtain s1 cur where rd: "readCertificateResources env cfg s = (s1, Inr cur)"
    and k: "(case cur of None \<Rightarrow> rotateCertificateBundle env cfg
     | Some current \<Rightarrow>
         obind (now env) (\<lambda>checkedAt.
         obind (lift id (EvaluateCertificateHealth (caCertPEM current) (caKeyPEM current) (tlsCertPEM current) (tlsKeyPEM current)
                  (healthConfig cfg) checkedAt)) (\<lambda>action. case action of
           CertificateHealthy \<Rightarrow> ret current
         | RotateLeafCertificate \<Rightarrow>
             (case parseRSAKey (caKeyPEM current) of
                Inl _ \<Rightarrow> rotateCertificateBundle env cfg
              | Inr _ \<Rightarrow> rotateLeafCertificate env cfg (caCertPEM current) (caKeyPEM current))
         | RotateCertificateBundle \<Rightarrow> rotateCertificateBundle env cfg))) s1 = Some (s', Inr res)"
    by (auto simp: ensureCertificateResources_def op_simps)
  note rs = readCertificateResources_ok [OF kube rd]
  have hi1: "hi \<le> clock env s1 + LcRenewalWindow cfg" using rs(1) hi by simp
  have replaced: ?thesis if "rotateCertificateBundle env cfg s1 = Some (s', Inr res)"
    using rotateCertificateBundle_ok [OF kube cfg that hi1] rs(1) by simp
  show ?thesis
  proof (cases cur)
    case None
    with k replaced show ?thesis by simp
  next
    case (Some c)
    with k obtain action where ev: "EvaluateCertificateHealth (caCertPEM c) (caKeyPEM c) (tlsCertPEM c) (tlsKeyPEM c) (healthConfig cfg)
        (clock env s1) = Inr action" by (auto simp: op_simps)
    show ?thesis
    proof (cases action)
      case CertificateHealthy
      with k Some ev have "s' = s1" "res = c" by (auto simp: op_simps)
      with Evaluate_healthy [OF ev [unfolded CertificateHealthy] order_refl hi1] rs(1) show ?thesis by simp
    next
      case RotateCertificateBundle
      with k Some ev replaced show ?thesis by (auto simp: op_simps)
    next
      case RotateLeafCertificate
      from Evaluate_rotateLeaf [OF ev [unfolded RotateLeafCertificate]] obtain ca where ca: "caCertPEM c = Some (PemCert ca)"
          "NotBefore ca \<le> clock env s1" "clock env s1 + LcRenewalWindow cfg < NotAfter ca" "BasicConstraintsValid ca" "IsCA ca"
          "KeyUsage ca AND KeyUsageCertSign \<noteq> 0"
        by (auto simp: healthConfig_def)
      then have sign: "signingCA ca" using rs(2) [OF cas Some] by (simp add: signingCA_def)
      show ?thesis
      proof (cases "parseRSAKey (caKeyPEM c)")
        case (Inl e)
        with k Some ev RotateLeafCertificate replaced show ?thesis by (auto simp: op_simps)
      next
        case (Inr key)
        with k Some ev RotateLeafCertificate ca(1) have "rotateLeafCertificate env cfg (Some (PemCert ca)) (caKeyPEM c) s1 = Some (s', Inr res)"
          by (auto simp: op_simps)
        from rotateLeafCertificate_ok [OF kube cfg this sign ca(2) _ hi1] ca(3) hi1 rs(1) show ?thesis by simp
      qed
    qed
  qed
qed

lemma ensureWebhook_ok:
  assumes kube: "kubeOK env sw ww" and r: "ensureWebhook env cfg caBundle s = Some (s', Inr u)"
  shows "clock env s \<le> clock env s' \<and> (\<exists>wh. ww s' = Some [wh] \<and> WhCABundle wh = caBundle \<and> WhServiceName wh = LcServiceName cfg \<and>
    WhServiceNamespace wh = LcNamespace cfg \<and> WhFailurePolicy wh = ''Fail'')"
proof -
  from r obtain wc wc' where b: "BuildMutatingWebhookConfiguration (LcWebhookName cfg) (LcServiceName cfg) (LcNamespace cfg) (LcServicePort cfg) caBundle = Inr wc"
    and a: "applyObject (webhookApi env) ''mutating webhook configuration'' (LcWebhookName cfg) wc (\<lambda>current. current\<lparr>Webhooks := Webhooks wc\<rparr>) s = (s', Inr wc')"
    by (auto simp: ensureWebhook_def op_simps)
  have "clock env s \<le> clock env s' \<and> ww s' = Some (Webhooks wc)"
    using applyObject_ok [OF kubeOK_D(2) [OF kube] _ _ a, of "Webhooks wc"] by simp
  moreover from b obtain wh where "Webhooks wc = [wh]" "WhCABundle wh = caBundle" "WhServiceName wh = LcServiceName cfg"
      "WhServiceNamespace wh = LcNamespace cfg" "WhFailurePolicy wh = ''Fail''"
    by (auto simp: BuildMutatingWebhookConfiguration_def result_simps)
  ultimately show ?thesis by auto
qed

lemma ensureLease_mono:
  assumes kube: "kubeOK env sw ww" and r: "ensureLease env cfg s = (s', x)"
  shows "clock env s \<le> clock env s'"
proof -
  obtain s1 g where g: "objGet (leaseApi env) (LcLeaseName cfg) s = (s1, g)" by fastforce
  obtain s2 h where h: "objCreate (leaseApi env) \<lparr>LeaseNameOf = LcLeaseName cfg, LeaseNamespace = LcNamespace cfg\<rparr> s1 = (s2, h)" by fastforce
  have "clock env s \<le> clock env s1" "clock env s1 \<le> clock env s2"
    using kubeOK_D(5,6) [OF kube] g h by (metis fst_conv)+
  with r g h show ?thesis by (auto simp: ensureLease_def split: sum.splits if_splits)
qed


text \<open>A cluster in which nothing exists yet: the time, and what was written last.\<close>

type_synonym demo = "int \<times> (string, pem) fmap option \<times> MutatingWebhook list option"

definition demoSecrets :: "(Secret, demo) ObjApi" where
  "demoSecrets = \<lparr>objGet = (\<lambda>n s. (s, Inl NotFound)), objCreate = (\<lambda>obj s. ((fst s + 1, Some (SecretData obj), snd (snd s)), Inr obj)),
     objUpdate = (\<lambda>obj s. (s, Inl NotFound)), objRetry = (\<lambda>f x. f x)\<rparr>"

definition demoWebhooks :: "(MutatingWebhookConfiguration, demo) ObjApi" where
  "demoWebhooks = \<lparr>objGet = (\<lambda>n s. (s, Inl NotFound)), objCreate = (\<lambda>obj s. ((fst s + 1, fst (snd s), Some (Webhooks obj)), Inr obj)),
     objUpdate = (\<lambda>obj s. (s, Inl NotFound)), objRetry = (\<lambda>f x. f x)\<rparr>"

definition demoLeases :: "(Lease, demo) ObjApi" where
  "demoLeases = \<lparr>objGet = (\<lambda>n s. (s, Inl NotFound)), objCreate = (\<lambda>obj s. (s, Inr obj)),
     objUpdate = (\<lambda>obj s. (s, Inl NotFound)), objRetry = (\<lambda>f x. f x)\<rparr>"

definition demoEnv :: "demo KubeEnv" where
  "demoEnv = \<lparr>clock = fst, generateKey = (\<lambda>s. ((fst s + 1, snd s), Inr (nat (fst s)))), randInt = (\<lambda>b s. ((fst s + 1, snd s), Inr (fst s mod b))),
     secretApi = demoSecrets, leaseApi = demoLeases, webhookApi = demoWebhooks\<rparr>"

definition demoConfig :: LifecycleConfig where
  "demoConfig = \<lparr>LcNamespace = ''sysbox-system'', LcServiceName = ''sysbox-admission'', LcServicePort = 443, LcCASecretName = ''ca'',
     LcTLSSecretName = ''tls'', LcLeaseName = ''lease'', LcWebhookName = ''webhook'', LcRenewalWindow = 90 * 24 * 60 * minute\<rparr>"

lemma demo_ok: "kubeOK demoEnv (fst \<circ> snd) (snd \<circ> snd)" "casOK demoEnv" "configOK demoConfig"
  by (auto simp: kubeOK_def apiOK_def demoEnv_def demoSecrets_def demoWebhooks_def demoLeases_def casOK_def configOK_def demoConfig_def
      minute_def second_def leafValidity_def intro: attempts.one)

lemma op_result:
  "(case r of None \<Rightarrow> False | Some (s, x) \<Rightarrow> (case x of Inl _ \<Rightarrow> False | Inr y \<Rightarrow> P s y)) \<Longrightarrow> \<exists>s y. r = Some (s, Inr y) \<and> P s y"
  by (simp split: option.splits prod.splits sum.splits)


section \<open>When certificates are renewed\<close>

lemma bundle_parts:
  assumes g: "GenerateCertificateBundle env svc ns s = Some (s', Inr b)"
    and key: "\<And>s. clock env s \<le> clock env (fst (generateKey env s))"
    and rnd: "\<And>b s. clock env s \<le> clock env (fst (randInt env b s))"
  shows "\<exists>ca cak leaf lk t0 t1. CACertPEM b = PemCert ca \<and> CAKeyPEM b = PemKey cak \<and> CertKey ca = RsaPublic cak \<and> signingCA ca \<and>
    NotBefore ca = truncSec (t0 - minute) \<and> NotAfter ca = truncSec (t0 + caValidity) \<and>
    TLSCertPEM b = PemCert leaf \<and> TLSKeyPEM b = PemKey lk \<and> issuedLeaf ca (ServiceDNSNames svc ns) leaf lk t1 \<and> svc \<noteq> [] \<and>
    clock env s \<le> t0 \<and> t0 \<le> t1 \<and> t1 \<le> clock env s'"
proof -
  from g obtain s1 cak s2 n ca tc tk where k1: "generateKey env s = (s1, Inr cak)" and n: "randomSerialNumber env s1 = Some (s2, Inr n)"
    and cr: "CreateCertificate (caTemplate n (clock env s)) (Subject (caTemplate n (clock env s))) None cak cak = Inr ca"
    and l: "GenerateTLSCertificate env svc ns (Some (PemCert ca)) (Some (PemKey cak)) s2 = Some (s', Inr (tc, tk))"
    and b: "b = \<lparr>CACertPEM = PemCert ca, CAKeyPEM = PemKey cak, TLSCertPEM = tc, TLSKeyPEM = tk\<rparr>"
    by (auto simp: GenerateCertificateBundle_def op_simps split: if_splits)
  have t: "clock env s \<le> clock env s2" using key [of s] k1 randomSerialNumber_ok [OF n rnd] by simp
  from GenerateTLSCertificate_ok [OF l key rnd] obtain leaf lk t1 where lf: "tc = PemCert leaf" "tk = PemKey lk"
    and i: "issuedLeaf ca (ServiceDNSNames svc ns) leaf lk t1" and t1: "clock env s2 \<le> t1" "t1 \<le> clock env s'" by auto
  have "signingCA ca \<and> CertKey ca = RsaPublic cak \<and> NotBefore ca = truncSec (clock env s - minute) \<and> NotAfter ca = truncSec (clock env s + caValidity)"
    using CreateCertificate_fields [OF cr]
    by (auto simp: signingCA_def serverAuth_def caTemplate_def Template.defs KeyUsageCertSign_def KeyUsageCRLSign_def)
  with b lf i t t1 GenerateTLS_service [OF l] show ?thesis
    by (intro exI [of _ ca] exI [of _ cak] exI [of _ leaf] exI [of _ lk] exI [of _ "clock env s"] exI [of _ t1]) auto
qed

text \<open>
  C21.  A certificate bundle that was just generated is renewed exactly on schedule: it is healthy until the renewal
  window before the end of the serving certificate, then only the serving certificate is renewed, and the whole bundle is
  replaced once the end of the CA comes within the window.  In particular a fresh bundle is not replaced at the next check.
\<close>

theorem bundle_renewal_schedule:
  assumes "GenerateCertificateBundle env svc ns s = Some (s', Inr b)" and "svc \<noteq> ''.''" and "0 \<le> w"
    and "\<And>s. clock env s \<le> clock env (fst (generateKey env s))" and "\<And>b s. clock env s \<le> clock env (fst (randInt env b s))"
  shows "\<exists>caIssued leafIssued. clock env s \<le> caIssued \<and> caIssued \<le> leafIssued \<and> leafIssued \<le> clock env s' \<and>
    (\<forall>t \<ge> clock env s'.
       EvaluateCertificateHealth (Some (CACertPEM b)) (Some (CAKeyPEM b)) (Some (TLSCertPEM b)) (Some (TLSKeyPEM b))
         \<lparr>HcServiceName = svc, HcNamespace = ns, HcRenewalWindow = w\<rparr> t =
       Inr (if truncSec (caIssued + caValidity) \<le> t + w then RotateCertificateBundle
            else if truncSec (leafIssued + leafValidity) \<le> t + w then RotateLeafCertificate
            else CertificateHealthy))"
proof -
  from bundle_parts [OF assms(1,4,5)] obtain ca cak leaf lk t0 t1 where p: "CACertPEM b = PemCert ca" "CAKeyPEM b = PemKey cak"
      "TLSCertPEM b = PemCert leaf" "TLSKeyPEM b = PemKey lk" "CertKey ca = RsaPublic cak"
    and ca: "signingCA ca" and nb: "NotBefore ca = truncSec (t0 - minute)" and na: "NotAfter ca = truncSec (t0 + caValidity)"
    and i: "issuedLeaf ca (ServiceDNSNames svc ns) leaf lk t1" and svc: "svc \<noteq> []"
    and o: "clock env s \<le> t0" "t0 \<le> t1" "t1 \<le> clock env s'" by auto
  note lf = i [unfolded issuedLeaf_def]
  have "EvaluateCertificateHealth (Some (CACertPEM b)) (Some (CAKeyPEM b)) (Some (TLSCertPEM b)) (Some (TLSKeyPEM b))
         \<lparr>HcServiceName = svc, HcNamespace = ns, HcRenewalWindow = w\<rparr> t =
       Inr (if truncSec (t0 + caValidity) \<le> t + w then RotateCertificateBundle
            else if truncSec (t1 + leafValidity) \<le> t + w then RotateLeafCertificate else CertificateHealthy)" if t: "clock env s' \<le> t" for t
  proof -
    have "truncSec (t0 - minute) \<le> t" "truncSec (t1 - minute) \<le> t"
      using truncSec_bounds(1) [of "t0 - minute"] truncSec_bounds(1) [of "t1 - minute"] duration_pos o t by linarith+
    then have h: "certTimeHealthy ca t w \<longleftrightarrow> \<not> truncSec (t0 + caValidity) \<le> t + w"
        "certTimeHealthy leaf t w \<longleftrightarrow> \<not> truncSec (t1 + leafValidity) \<le> t + w"
      using lf nb na assms(3) by (auto simp: certTimeHealthy_def)
    have "leafVerifiesAgainstCA leaf ca svc ns t" if "\<not> truncSec (t0 + caValidity) \<le> t + w" "\<not> truncSec (t1 + leafValidity) \<le> t + w"
    proof -
      have "timeValid leaf t" "timeValid ca t"
        using that lf nb na assms(3) \<open>truncSec (t0 - minute) \<le> t\<close> \<open>truncSec (t1 - minute) \<le> t\<close> by (auto simp: timeValid_def)
      moreover have "VerifyHostname leaf n" if "n \<in> set (ServiceDNSNames svc ns)" for n
      proof (rule VerifyHostname_listed)
        show "n \<in> set (DNSNames leaf)" using lf that by simp
        show "n \<noteq> []" "n \<noteq> ''.''" using that svc assms(2) by (cases svc; auto simp: ServiceDNSNames_def)+
      qed
      ultimately show ?thesis using lf ca
        by (auto simp: leafVerifiesAgainstCA_def list_all_iff Verify_def signingCA_def signatureFrom_def serverAuth_def)
    qed
    then show ?thesis using p h lf ca
      by (auto simp: EvaluateCertificateHealth_def parseCertificate_def parseRSAKey_def pemDecode_def ParseCertificate_def
          ParsePKCS1PrivateKey_def signingCA_def)
  qed
  with o show ?thesis by blast
qed

theorem bundle_renewal_schedule_witness:
  "\<exists>s' b. GenerateCertificateBundle demoEnv ''svc'' ''ns'' (1000, None, None) = Some (s', Inr b) \<and>
     EvaluateCertificateHealth (Some (CACertPEM b)) (Some (CAKeyPEM b)) (Some (TLSCertPEM b)) (Some (TLSKeyPEM b))
       \<lparr>HcServiceName = ''svc'', HcNamespace = ''ns'', HcRenewalWindow = minute\<rparr> (clock demoEnv s') = Inr CertificateHealthy"
proof -
  have "case GenerateCertificateBundle demoEnv ''svc'' ''ns'' (1000, None, None) of None \<Rightarrow> False |
    Some (s', x) \<Rightarrow> (case x of Inl _ \<Rightarrow> False | Inr _ \<Rightarrow> fst s' \<le> 2000)" by code_simp
  from op_result [OF this] obtain s' b where g: "GenerateCertificateBundle demoEnv ''svc'' ''ns'' (1000, None, None) = Some (s', Inr b)"
    and s': "fst s' \<le> 2000" by blast
  have m: "0 \<le> minute" by (simp add: minute_def second_def)
  from bundle_renewal_schedule [OF g _ m kubeOK_D(3,4) [OF demo_ok(1)]] obtain t0 t1 where "1000 \<le> t0" "t0 \<le> t1" "t1 \<le> fst s'"
    and h: "\<forall>t \<ge> clock demoEnv s'. EvaluateCertificateHealth (Some (CACertPEM b)) (Some (CAKeyPEM b)) (Some (TLSCertPEM b)) (Some (TLSKeyPEM b))
       \<lparr>HcServiceName = ''svc'', HcNamespace = ''ns'', HcRenewalWindow = minute\<rparr> t =
       Inr (if truncSec (t0 + caValidity) \<le> t + minute then RotateCertificateBundle
            else if truncSec (t1 + leafValidity) \<le> t + minute then RotateLeafCertificate else CertificateHealthy)"
    by (auto simp: demoEnv_def)
  have c: "clock demoEnv s' = fst s'" by (simp add: demoEnv_def)
  have "fst s' + minute < truncSec (t0 + caValidity)" "fst s' + minute < truncSec (t1 + leafValidity)"
    using truncSec_bounds(2) [of "t0 + caValidity"] truncSec_bounds(2) [of "t1 + leafValidity"] \<open>1000 \<le> t0\<close> \<open>t0 \<le> t1\<close> s'
    by (simp_all add: caValidity_def leafValidity_def minute_def second_def)
  with h have "EvaluateCertificateHealth (Some (CACertPEM b)) (Some (CAKeyPEM b)) (Some (TLSCertPEM b)) (Some (TLSKeyPEM b))
       \<lparr>HcServiceName = ''svc'', HcNamespace = ''ns'', HcRenewalWindow = minute\<rparr> (clock demoEnv s') = Inr CertificateHealthy"
    by (simp add: c)
  with g show ?thesis by blast
qed

section \<open>Serving while certificates change\<close>

lemma clone_id [simp]: "cloneCertificate c = c"
  by (simp add: cloneCertificate_def)

text \<open>The certificate in use is the old one or one that the manager gave.\<close>

definition servedFrom :: "(TlsCertificate \<Rightarrow> bool) \<Rightarrow> 's Serving \<Rightarrow> 's Serving \<Rightarrow> bool" where
  "servedFrom good v v' \<longleftrightarrow> reloader v' = reloader v \<or> (\<exists>c. reloader v' = Some c \<and> good c)"

lemma servedFrom_trans: "servedFrom good u v \<Longrightarrow> servedFrom good v w \<Longrightarrow> servedFrom good u w"
  by (auto simp: servedFrom_def)

lemma servedFrom_world [simp]: "servedFrom good (v\<lparr>world := s\<rparr>) v' = servedFrom good v v'" "servedFrom good v (v'\<lparr>world := s\<rparr>) = servedFrom good v v'"
  by (simp_all add: servedFrom_def)

lemma ensureAndReload_served:
  assumes "ensureAndReload ensure v = Some v'"
  shows "servedFrom (\<lambda>c. \<exists>s s'. ensure s = Some (s', Inr c)) v v'"
proof -
  from assms obtain s r where e: "ensure (world v) = Some (s, r)" by (auto simp: ensureAndReload_def split: option.splits)
  show ?thesis
  proof (cases r)
    case (Inl x)
    with assms e show ?thesis by (auto simp: ensureAndReload_def report_def servedFrom_def)
  next
    case (Inr c)
    with assms e show ?thesis by (auto simp: ensureAndReload_def SetCertificate_def servedFrom_def)
  qed
qed

lemma rotationLoop_served:
  assumes "rotationLoop ensure await v = Some v'"
  shows "servedFrom (\<lambda>c. \<exists>s s'. ensure s = Some (s', Inr c)) v v'"
proof -
  define P where "P = (\<lambda>(ensure :: ('a, lifecycle_error, TlsCertificate) op) (await :: 'a \<Rightarrow> 'a \<times> bool) (v :: 'a Serving) v'.
    servedFrom (\<lambda>c. \<exists>s s'. ensure s = Some (s', Inr c)) v v')"
  have "P ensure await v v'"
  proof (rule rotationLoop.raw_induct [OF _ assms, of P])
    fix loop ensure await v v'
    assume loop: "\<And>ensure await v v'. loop ensure await v = Some v' \<Longrightarrow> P ensure await v v'"
      and r: "(case await (world v) of (s, stop) \<Rightarrow> if stop then Some (v\<lparr>world := s\<rparr>)
        else Option.bind (ensureAndReload ensure (v\<lparr>world := s\<rparr>)) (loop ensure await)) = Some v'"
    obtain s stop where a: "await (world v) = (s, stop)" by fastforce
    show "P ensure await v v'"
    proof (cases stop)
      case True
      with r a show ?thesis by (auto simp: P_def servedFrom_def)
    next
      case False
      with r a obtain v1 where e: "ensureAndReload ensure (v\<lparr>world := s\<rparr>) = Some v1" and l: "loop ensure await v1 = Some v'"
        by (auto simp: bind_eq_Some_conv)
      from ensureAndReload_served [OF e] loop [OF l] show ?thesis unfolding P_def by (auto intro: servedFrom_trans)
    qed
  qed
  then show ?thesis by (simp add: P_def)
qed

text \<open>
  C33.  The rotation loop never takes the server down: however often a renewal fails while the loop runs, the server
  keeps a certificate once it has one, and every certificate that it serves is the one it started with or one
  that a successful run of the manager returned.
\<close>

theorem rotation_keeps_serving:
  assumes "RunRotation ensure interval await v = Some (v', r)"
  shows "(is_ok (GetCertificate v) \<longrightarrow> is_ok (GetCertificate v')) \<and>
    (\<forall>c. GetCertificate v' = Inr c \<longrightarrow> GetCertificate v = Inr c \<or> (\<exists>s s'. ensure s = Some (s', Inr c)))"
proof -
  have "servedFrom (\<lambda>c. \<exists>s s'. ensure s = Some (s', Inr c)) v v'"
  proof (cases "interval \<le> 0")
    case True
    with assms show ?thesis by (simp add: RunRotation_def servedFrom_def)
  next
    case False
    with assms obtain v1 where "ensureAndReload ensure v = Some v1" "rotationLoop ensure await v1 = Some v'"
      by (auto simp: RunRotation_def runRotation_def bind_eq_Some_conv)
    then show ?thesis using ensureAndReload_served rotationLoop_served by (blast intro: servedFrom_trans)
  qed
  then consider "reloader v' = reloader v" | c s s' where "reloader v' = Some c" "ensure s = Some (s', Inr c)"
    by (auto simp: servedFrom_def)
  then show ?thesis by cases (auto simp: GetCertificate_def split: option.splits)
qed

definition demoTicks :: "int \<Rightarrow> demo \<Rightarrow> demo \<times> bool" where
  "demoTicks n s = ((fst s + second, snd s), n \<le> fst s)"

text \<open>The world and the reports after a number of failed attempts and ticks.\<close>

primrec waitSteps :: "(Secret, 's) ObjApi \<Rightarrow> string \<Rightarrow> ('s \<Rightarrow> 's \<times> bool) \<Rightarrow> nat \<Rightarrow> 's \<Rightarrow> 's" where
  "waitSteps secrets name await 0 s = s"
| "waitSteps secrets name await (Suc k) s = waitSteps secrets name await k (fst (await (fst (LoadTLSCertificateFromSecret secrets name s))))"

lemma waitLoop_loads:
  assumes "snd (LoadTLSCertificateFromSecret secrets name (waitSteps secrets name await k (world v))) = Inr c"
    and "\<forall>s. \<not> snd (await s)"
  shows "\<exists>v' j d. waitLoop secrets name await v = Some (v', Inr ()) \<and> j \<le> k \<and> GetCertificate v' = Inr d \<and>
    snd (LoadTLSCertificateFromSecret secrets name (waitSteps secrets name await j (world v))) = Inr d"
  using assms(1)
proof (induction k arbitrary: v)
  case 0
  then obtain s1 where "LoadTLSCertificateFromSecret secrets name (world v) = (s1, Inr c)" by (cases "LoadTLSCertificateFromSecret secrets name (world v)") auto
  then show ?case
    by (subst waitLoop.simps) (auto simp: RefreshTLSCertificateFromSecret_def SetCertificate_def GetCertificate_def)
next
  case (Suc k)
  obtain s1 r where l: "LoadTLSCertificateFromSecret secrets name (world v) = (s1, r)" by fastforce
  obtain s2 where a: "await s1 = (s2, False)" using assms(2) by (metis prod.collapse)
  show ?case
  proof (cases r)
    case (Inr d)
    with l have "waitLoop secrets name await v = Some (SetCertificate d (v\<lparr>world := s1\<rparr>), Inr ())"
      by (subst waitLoop.simps) (simp add: RefreshTLSCertificateFromSecret_def)
    with l Inr show ?thesis by (auto simp: SetCertificate_def GetCertificate_def intro!: exI [of _ 0])
  next
    case (Inl e)
    let ?v = "report e (v\<lparr>world := s1\<rparr>)\<lparr>world := s2\<rparr>"
    have "waitLoop secrets name await v = waitLoop secrets name await ?v"
      using l Inl a by (subst waitLoop.simps) (simp add: RefreshTLSCertificateFromSecret_def report_def)
    moreover have "waitSteps secrets name await (Suc j) (world v) = waitSteps secrets name await j (world ?v)" for j
      using l a by simp
    ultimately show ?thesis using Suc.IH [of ?v] Suc.prems by (metis Suc_le_mono)
  qed
qed

text \<open>
  A replica that waits for its certificate gets it: when the secret holds a matching pair after some number of ticks and the
  context does not end, waiting returns without an error, and the server then serves a certificate that was in the secret.
\<close>

theorem WaitForTLSCertificate_loads:
  assumes "snd (LoadTLSCertificateFromSecret secrets name (waitSteps secrets name await k (world v))) = Inr c"
    and "\<forall>s. \<not> snd (await s)" and "0 < interval"
  shows "\<exists>v' j d. WaitForTLSCertificateFromSecret secrets name interval await v = Some (v', Inr ()) \<and> j \<le> k \<and>
    GetCertificate v' = Inr d \<and> snd (LoadTLSCertificateFromSecret secrets name (waitSteps secrets name await j (world v))) = Inr d"
  using waitLoop_loads [OF assms(1,2)] assms(3) by (auto simp: WaitForTLSCertificateFromSecret_def)

theorem rotation_keeps_serving_witness:
  "\<exists>v'. RunRotation (Ensure demoEnv demoConfig) 1 (demoTicks 0) \<lparr>world = (1000, None, None), reloader = None, reported = []\<rparr> = Some (v', Inr ()) \<and>
     is_ok (GetCertificate v') \<and> (\<forall>c. GetCertificate v' = Inr c \<longrightarrow> (\<exists>s s'. Ensure demoEnv demoConfig s = Some (s', Inr c)))"
proof -
  let ?v = "\<lparr>world = (1000, None, None), reloader = None, reported = []\<rparr>"
  have "case RunRotation (Ensure demoEnv demoConfig) 1 (demoTicks 0) ?v of None \<Rightarrow> False |
      Some (v', x) \<Rightarrow> (case x of Inl _ \<Rightarrow> False | Inr _ \<Rightarrow> is_ok (GetCertificate v'))" by code_simp
  from op_result [OF this] obtain v' where r: "RunRotation (Ensure demoEnv demoConfig) 1 (demoTicks 0) ?v = Some (v', Inr ())"
    and "is_ok (GetCertificate v')" by auto
  then show ?thesis using rotation_keeps_serving [OF r] by (auto simp: GetCertificate_def)
qed

definition loadedSecrets :: "(Secret, demo) ObjApi" where
  "loadedSecrets = demoSecrets\<lparr>objGet := (\<lambda>n s. (s, if fst s < 5 then Inl NotFound else Inr \<lparr>SecretName = n, SecretNamespace = ''ns'',
     SecretVersion = [], SecretType = SecretTypeTLS, SecretData = fmap_of_list
       [(TLSCertKey, PemCert (Template.extend (leafTemplate 1 [''svc''] 0) (Certificate.fields (RsaPublic 7) ''ca'' 3))), (TLSPrivateKeyKey, PemKey 7)]\<rparr>))\<rparr>"

theorem WaitForTLSCertificate_loads_witness:
  "\<exists>v' d. WaitForTLSCertificateFromSecret loadedSecrets ''tls'' 1 (\<lambda>s. ((fst s + 2, snd s), False))
      \<lparr>world = (0, None, None), reloader = None, reported = []\<rparr> = Some (v', Inr ()) \<and> GetCertificate v' = Inr d"
proof -
  let ?c = "\<lparr>TcChain = [Template.extend (leafTemplate 1 [''svc''] 0) (Certificate.fields (RsaPublic 7) ''ca'' 3)], TcKey = RsaPublic 7, TcLeaf = None\<rparr>"
  have l: "snd (LoadTLSCertificateFromSecret loadedSecrets ''tls'' (waitSteps loadedSecrets ''tls'' (\<lambda>s. ((fst s + 2, snd s), False)) 3
      (world \<lparr>world = (0, None, None), reloader = None, reported = []\<rparr>))) = Inr ?c"
    by code_simp
  show ?thesis using WaitForTLSCertificate_loads [OF l, of 1] by auto
qed

section \<open>The program\<close>

record serveConfig =
  bootstrapWebhook :: bool
  tlsCert :: string
  tlsKey :: string
  allowInsecureHTTP :: bool

datatype serve_error = IncompleteTLSFiles | InsecureHTTPDisabled

definition validateServeConfig :: "serveConfig \<Rightarrow> (serve_error, unit) result" where
  "validateServeConfig config =
     rguard ((tlsCert config = []) \<noteq> (tlsKey config = [])) IncompleteTLSFiles
     (if bootstrapWebhook config \<or> tlsCert config \<noteq> [] \<or> allowInsecureHTTP config then Inr () else Inl InsecureHTTPDisabled)"

text \<open>How \<open>main\<close> serves: with the certificate of the reloader, with a certificate from files, or without TLS.\<close>

datatype serve_mode = ServeReloader | ServeFiles string string | ServePlain

definition serveMode :: "serveConfig \<Rightarrow> serve_mode" where
  "serveMode config =
     (if bootstrapWebhook config then ServeReloader
      else if tlsCert config \<noteq> [] \<and> tlsKey config \<noteq> [] then ServeFiles (tlsCert config) (tlsKey config)
      else ServePlain)"

definition defaultNamespace :: "string \<Rightarrow> string" where
  "defaultNamespace podNamespace = (if podNamespace \<noteq> [] then podNamespace else ''sysbox-system'')"

definition leaderIdentity :: "('e, string) result \<Rightarrow> string \<Rightarrow> ('e, string) result" where
  "leaderIdentity hostname override = (if override \<noteq> [] then Inr override else hostname)"

record LeaderElectionConfig =
  LeaseDuration :: int
  RenewDeadline :: int
  RetryPeriod :: int

definition DefaultLeaderElectionConfig :: LeaderElectionConfig where
  "DefaultLeaderElectionConfig = \<lparr>LeaseDuration = 15 * second, RenewDeadline = 10 * second, RetryPeriod = 2 * second\<rparr>"

text \<open>The webhook is served without TLS only when that was asked for, and then no certificate was configured.\<close>

lemma serve_plain_only_on_request:
  "validateServeConfig config = Inr () \<Longrightarrow> serveMode config = ServePlain \<Longrightarrow> allowInsecureHTTP config \<and> tlsCert config = [] \<and> tlsKey config = []"
  by (auto simp: validateServeConfig_def serveMode_def result_simps split: if_splits)

text \<open>
  A CA that may only be used for other purposes than servers passes the checks of the CA, but no serving certificate
  below it is ever verified: at every check the serving certificate is replaced, to no effect.
\<close>

lemma restricted_CA_never_healthy:
  assumes "\<not> serverAuth ca" "parseCertificate caPEM = Inr ca" and "parseCertificate tls \<noteq> Inr ca"
  shows "EvaluateCertificateHealth caPEM caKey tls key hc t \<noteq> Inr CertificateHealthy"
proof -
  have "\<not> leafVerifiesAgainstCA leaf ca svc ns t" if "leaf \<noteq> ca" for leaf svc ns
    using assms(1) that by (simp add: leafVerifiesAgainstCA_def ServiceDNSNames_def Verify_def)
  with assms show ?thesis by (auto simp: EvaluateCertificateHealth_def split: sum.splits if_splits)
qed

end
