(* ===== verification/Go_Os.thy ===== *)
theory Go_Os
  imports Go_Filepath
begin

text \<open>
  A file system model for the \<open>os\<close> package: a finite map from resolved element lists to inodes, path
  resolution with symbolic links (at most 40 of them, as in the kernel), and the calls the sources
  make: \<open>Lstat\<close>, \<open>Stat\<close>, \<open>Mkdir\<close>, \<open>MkdirAll\<close>, \<open>Readlink\<close>, \<open>Symlink\<close>, file creation, \<open>Rename\<close>,
  \<open>Remove\<close>, directory listing.  The root directory is the empty element list and always exists.  Modes
  are the ones requested; the process umask, ownership and permission checks are not modelled.
\<close>

section \<open>State\<close>

datatype inode = IDir nat | IFile nat string | ILink string

datatype errno = ENOENT | ENOTDIR | ELOOP | EEXIST | EISDIR | ENOTEMPTY | EINVAL | EOTHER string

type_synonym fs = "(string list, inode) fmap"

definition inodeAt :: "fs \<Rightarrow> string list \<Rightarrow> inode option" where
  "inodeAt fs p = (if p = [] then Some (IDir 493) else fmlookup fs p)"

fun isDirNode :: "inode \<Rightarrow> bool" where
  "isDirNode (IDir _) = True"
| "isDirNode _ = False"

fun isLinkNode :: "inode \<Rightarrow> bool" where
  "isLinkNode (ILink _) = True"
| "isLinkNode _ = False"

text \<open>Every entry sits in an existing directory.\<close>

definition fsWF :: "fs \<Rightarrow> bool" where
  "fsWF fs \<longleftrightarrow> fmlookup fs [] = None \<and>
     (\<forall>p i. fmlookup fs p = Some i \<longrightarrow> (\<exists>m. inodeAt fs (butlast p) = Some (IDir m)))"

section \<open>Path resolution\<close>

definition rawComps :: "string \<Rightarrow> string list" where
  "rawComps p = filter (\<lambda>c. c \<noteq> [] \<and> c \<noteq> dot) (Split sep p)"

text \<open>
  Resolution of the remaining elements from a resolved directory; the number of links that may still
  be followed is threaded through.  The last element need not exist, and when it is a link it is
  followed only if \<open>follow\<close> is set.
\<close>

function walk :: "fs \<Rightarrow> nat \<Rightarrow> bool \<Rightarrow> string list \<Rightarrow> string list \<Rightarrow> (errno, nat \<times> string list) result" where
  "walk fs n follow cur [] = Inr (n, cur)"
| "walk fs n follow cur (c # cs) =
     (if c = dotdot then walk fs n follow (butlast cur) cs
      else case inodeAt fs (cur @ [c]) of
        None \<Rightarrow> if cs = [] then Inr (n, cur @ [c]) else Inl ENOENT
      | Some (IDir _) \<Rightarrow> walk fs n follow (cur @ [c]) cs
      | Some (IFile _ _) \<Rightarrow> if cs = [] then Inr (n, cur @ [c]) else Inl ENOTDIR
      | Some (ILink t) \<Rightarrow>
          if cs = [] \<and> \<not> follow then Inr (n, cur @ [c])
          else (case n of
                  0 \<Rightarrow> Inl ELOOP
                | Suc m \<Rightarrow> walk fs m follow (if IsAbs t then [] else cur) (rawComps t @ cs)))"
  by pat_completeness auto
termination
  by (relation "(\<lambda>(fs, n, follow, cur, cs). n) <*mlex*> measure (\<lambda>(fs, n, follow, cur, cs). length cs)")
    (auto simp: mlex_prod_def)

definition maxSymlinks :: nat where
  "maxSymlinks = 40"

definition resolve :: "fs \<Rightarrow> bool \<Rightarrow> string \<Rightarrow> (errno, string list) result" where
  "resolve fs follow p =
     (if p = [] then Inl ENOENT
      else rbind (walk fs maxSymlinks follow [] (rawComps p)) (\<lambda>(_, q). Inr q))"

section \<open>Calls\<close>

text \<open>Paths given to the calls are absolute.\<close>

definition statWith :: "bool \<Rightarrow> fs \<Rightarrow> string \<Rightarrow> (errno, inode) result" where
  "statWith follow fs p =
     rbind (resolve fs follow p) (\<lambda>q.
       case inodeAt fs q of None \<Rightarrow> Inl ENOENT | Some i \<Rightarrow> Inr i)"

definition Lstat :: "fs \<Rightarrow> string \<Rightarrow> (errno, inode) result" where
  "Lstat fs p = statWith False fs p"

definition Stat :: "fs \<Rightarrow> string \<Rightarrow> (errno, inode) result" where
  "Stat fs p = statWith True fs p"

text \<open>Where a call that creates its last element would create it: it must not exist yet.\<close>

definition newEntry :: "fs \<Rightarrow> string \<Rightarrow> (errno, string list) result" where
  "newEntry fs p =
     rbind (resolve fs False p) (\<lambda>q.
       if inodeAt fs q \<noteq> None then Inl EEXIST else Inr q)"

definition Mkdir :: "nat \<Rightarrow> string \<Rightarrow> fs \<Rightarrow> (errno, fs) result" where
  "Mkdir perm p fs = rbind (newEntry fs p) (\<lambda>q. Inr (fmupd q (IDir perm) fs))"

definition Symlink :: "string \<Rightarrow> string \<Rightarrow> fs \<Rightarrow> (errno, fs) result" where
  "Symlink target p fs = rbind (newEntry fs p) (\<lambda>q. Inr (fmupd q (ILink target) fs))"

definition Readlink :: "fs \<Rightarrow> string \<Rightarrow> (errno, string) result" where
  "Readlink fs p =
     rbind (Lstat fs p) (\<lambda>i. case i of ILink t \<Rightarrow> Inr t | _ \<Rightarrow> Inl EINVAL)"

text \<open>\<open>os.MkdirAll\<close> of a clean absolute path, given by its elements, innermost first.\<close>

definition absPathOf :: "string list \<Rightarrow> string" where
  "absPathOf cs = unComps True cs"

definition osPath :: "string list \<Rightarrow> string \<Rightarrow> string" where
  "osPath cwd p = (if IsAbs p then p else absPathOf cwd @ sep # p)"

fun mkdirAllRev :: "nat \<Rightarrow> string list \<Rightarrow> fs \<Rightarrow> (errno, fs) result" where
  "mkdirAllRev perm [] fs = Inr fs"
| "mkdirAllRev perm (c # rcs) fs =
     (let p = absPathOf (rev (c # rcs))
      in case Stat fs p of
           Inr i \<Rightarrow> if isDirNode i then Inr fs else Inl ENOTDIR
         | Inl _ \<Rightarrow>
             rbind (mkdirAllRev perm rcs fs) (\<lambda>fs1.
               case Mkdir perm p fs1 of
                 Inr fs2 \<Rightarrow> Inr fs2
               | Inl e \<Rightarrow> (case Lstat fs1 p of
                     Inr i \<Rightarrow> if isDirNode i then Inr fs1 else Inl e
                   | Inl _ \<Rightarrow> Inl e)))"

definition MkdirAll :: "nat \<Rightarrow> string \<Rightarrow> fs \<Rightarrow> (errno, fs) result" where
  "MkdirAll perm p fs = mkdirAllRev perm (rev (comps p)) fs"

text \<open>The entries of a directory, in the order of the map's keys.\<close>

definition children :: "fs \<Rightarrow> string list \<Rightarrow> string fset" where
  "children fs d = last |`| ffilter (\<lambda>p. p \<noteq> [] \<and> butlast p = d) (fmdom fs)"

definition readDirNames :: "fs \<Rightarrow> string \<Rightarrow> (errno, string fset) result" where
  "readDirNames fs p =
     rbind (resolve fs True p) (\<lambda>q.
       case inodeAt fs q of
         None \<Rightarrow> Inl ENOENT
       | Some (IDir _) \<Rightarrow> Inr (children fs q)
       | Some _ \<Rightarrow> Inl ENOTDIR)"

definition ReadFile :: "fs \<Rightarrow> string \<Rightarrow> (errno, string) result" where
  "ReadFile fs p =
     rbind (Stat fs p) (\<lambda>i. case i of IFile _ s \<Rightarrow> Inr s | IDir _ \<Rightarrow> Inl EISDIR | ILink _ \<Rightarrow> Inl ELOOP)"

text \<open>\<open>os.OpenFile(p, O_CREATE|O_EXCL|O_WRONLY, perm)\<close> and writing the whole content.\<close>

definition writeNewFile :: "nat \<Rightarrow> string \<Rightarrow> string \<Rightarrow> fs \<Rightarrow> (errno, fs) result" where
  "writeNewFile perm content p fs = rbind (newEntry fs p) (\<lambda>q. Inr (fmupd q (IFile perm content) fs))"

text \<open>Writing the whole content through the descriptor of a file that was just created.\<close>

definition setContent :: "string \<Rightarrow> string \<Rightarrow> fs \<Rightarrow> (errno, fs) result" where
  "setContent content p fs =
     rbind (resolve fs True p) (\<lambda>q.
       case inodeAt fs q of
         Some (IFile m _) \<Rightarrow> Inr (fmupd q (IFile m content) fs)
       | Some (IDir _) \<Rightarrow> Inl EISDIR
       | _ \<Rightarrow> Inl ENOENT)"

fun setMode :: "nat \<Rightarrow> inode \<Rightarrow> inode" where
  "setMode m (IDir _) = IDir m"
| "setMode m (IFile _ s) = IFile m s"
| "setMode m (ILink t) = ILink t"

definition Chmod :: "nat \<Rightarrow> string \<Rightarrow> fs \<Rightarrow> (errno, fs) result" where
  "Chmod m p fs =
     rbind (resolve fs True p) (\<lambda>q.
       case inodeAt fs q of
         None \<Rightarrow> Inl ENOENT
       | Some i \<Rightarrow> Inr (if q = [] then fs else fmupd q (setMode m i) fs))"

text \<open>\<open>os.Remove\<close> of a file, a link or an empty directory; \<open>os.Rename\<close> of a file onto a file or nothing.\<close>

definition Remove :: "string \<Rightarrow> fs \<Rightarrow> (errno, fs) result" where
  "Remove p fs =
     rbind (resolve fs False p) (\<lambda>q.
       case inodeAt fs q of
         None \<Rightarrow> Inl ENOENT
       | Some i \<Rightarrow> if isDirNode i \<and> (q = [] \<or> children fs q \<noteq> {||}) then Inl ENOTEMPTY else Inr (fmdrop q fs))"

definition RenameFile :: "string \<Rightarrow> string \<Rightarrow> fs \<Rightarrow> (errno, fs) result" where
  "RenameFile old new fs =
     rbind (resolve fs False old) (\<lambda>q.
     rbind (resolve fs False new) (\<lambda>r.
       case inodeAt fs q of
         None \<Rightarrow> Inl ENOENT
       | Some i \<Rightarrow>
           (if isDirNode i then Inl (EOTHER ''rename of a directory'')
            else case inodeAt fs r of
              Some (IDir _) \<Rightarrow> Inl EISDIR
            | _ \<Rightarrow> Inr (fmupd r i (if r = q then fs else fmdrop q fs)))))"

section \<open>Resolution without links\<close>

lemma rawComps_abs: "normComps True cs \<Longrightarrow> rawComps (absPathOf cs) = cs"
proof -
  assume n: "normComps True cs"
  have f: "filter (\<lambda>c. c \<noteq> [] \<and> c \<noteq> dot) cs = cs"
    using n by (intro filter_True) (auto simp: normComps_def)
  have "Split sep (sep # Join sep cs) = [] # Split sep (Join sep cs)" by (simp add: Split_Cons)
  moreover have "cs \<noteq> [] \<Longrightarrow> Split sep (Join sep cs) = cs"
    using n by (intro Split_Join) (auto simp: normComps_def)
  ultimately show ?thesis
    using f by (cases "cs = []") (simp_all add: rawComps_def absPathOf_def unComps_def)
qed

lemma absPathOf_nonempty [simp]: "absPathOf cs \<noteq> []"
  by (simp add: absPathOf_def unComps_def)

text \<open>Resolving a longer path goes through the directory that its front resolves to.\<close>

lemma walk_append:
  assumes "walk fs n True cur xs = Inr (m, d)" and "inodeAt fs d = Some (IDir k)" and "ys \<noteq> []"
  shows "walk fs n f cur (xs @ ys) = walk fs m f d ys"
  using assms
proof (induction fs n True cur xs rule: walk.induct)
  case (2 fs n cur c cs)
  show ?case
  proof (cases "c = dotdot")
    case True
    with 2 show ?thesis by simp
  next
    case nd: False
    show ?thesis
    proof (cases "inodeAt fs (cur @ [c])")
      case None
      with 2 nd show ?thesis by (auto split: if_splits)
    next
      case (Some i)
      show ?thesis
      proof (cases i)
        case (ILink t)
        with Some nd 2 obtain l where l: "n = Suc l" by (cases n) auto
        with Some nd 2 ILink show ?thesis by simp
      qed (use Some nd 2 in \<open>auto split: if_splits\<close>)
    qed
  qed
qed simp

fun dirPath :: "fs \<Rightarrow> string list \<Rightarrow> string list \<Rightarrow> bool" where
  "dirPath fs cur [] = True"
| "dirPath fs cur (c # cs) = ((\<exists>m. inodeAt fs (cur @ [c]) = Some (IDir m)) \<and> dirPath fs (cur @ [c]) cs)"

fun noLinks :: "fs \<Rightarrow> string list \<Rightarrow> string list \<Rightarrow> bool" where
  "noLinks fs cur [] = True"
| "noLinks fs cur (c # cs) = ((\<forall>t. inodeAt fs (cur @ [c]) \<noteq> Some (ILink t)) \<and> noLinks fs (cur @ [c]) cs)"

lemma dirPath_append [simp]: "dirPath fs cur (xs @ ys) \<longleftrightarrow> dirPath fs cur xs \<and> dirPath fs (cur @ xs) ys"
  by (induction xs arbitrary: cur) auto

lemma noLinks_append [simp]: "noLinks fs cur (xs @ ys) \<longleftrightarrow> noLinks fs cur xs \<and> noLinks fs (cur @ xs) ys"
  by (induction xs arbitrary: cur) auto

lemma dirPath_noLinks: "dirPath fs cur cs \<Longrightarrow> noLinks fs cur cs"
  by (induction cs arbitrary: cur) auto

lemma dirPath_last: "dirPath fs cur cs \<Longrightarrow> cs \<noteq> [] \<Longrightarrow> \<exists>m. inodeAt fs (cur @ cs) = Some (IDir m)"
  by (cases cs rule: rev_cases) auto

lemma walk_dirs:
  "dirPath fs cur cs \<Longrightarrow> dotdot \<notin> set cs \<Longrightarrow> walk fs n f cur (cs @ ds) = walk fs n f (cur @ cs) ds"
  by (induction cs arbitrary: cur) auto

lemma walk_noLinks:
  assumes "noLinks fs cur cs" and "dotdot \<notin> set cs" and "cs \<noteq> []"
  shows "walk fs n f cur cs = Inr (m, q) \<longleftrightarrow> m = n \<and> q = cur @ cs \<and> dirPath fs cur (butlast cs)"
  using assms
proof (induction cs arbitrary: cur)
  case (Cons c cs)
  show ?case
  proof (cases "cs = []")
    case True
    with Cons.prems show ?thesis by (auto split: option.splits inode.splits)
  next
    case False
    with Cons.prems Cons.IH [of "cur @ [c]"] show ?thesis
      by (auto split: option.splits inode.splits)
  qed
qed simp

section \<open>Creating directories below a root\<close>

definition extends :: "fs \<Rightarrow> fs \<Rightarrow> bool" where
  "extends fs fs' \<longleftrightarrow> (\<forall>p i. inodeAt fs p = Some i \<longrightarrow> inodeAt fs' p = Some i)"

lemma extends_refl [simp]: "extends fs fs"
  by (simp add: extends_def)

lemma extends_trans: "extends a b \<Longrightarrow> extends b c \<Longrightarrow> extends a c"
  by (auto simp: extends_def)

lemma extends_new: "inodeAt fs q = None \<Longrightarrow> extends fs (fmupd q i fs)"
  by (auto simp: extends_def inodeAt_def split: if_splits)

lemma inodeAt_upd: "q \<noteq> [] \<Longrightarrow> inodeAt (fmupd q i fs) p = (if p = q then Some i else inodeAt fs p)"
  by (auto simp: inodeAt_def)

lemma dirPath_extends: "extends fs fs' \<Longrightarrow> dirPath fs cur cs \<Longrightarrow> dirPath fs' cur cs"
  by (induction cs arbitrary: cur) (auto simp: extends_def)

lemma walk_extends:
  assumes "extends fs fs'" and "walk fs n f cur xs = Inr (m, d)" and "inodeAt fs d \<noteq> None"
  shows "walk fs' n f cur xs = Inr (m, d)"
  using assms
proof (induction fs n f cur xs rule: walk.induct)
  case (2 fs n f cur c cs)
  show ?case
  proof (cases "c = dotdot")
    case True
    with 2 show ?thesis by simp
  next
    case nd: False
    show ?thesis
    proof (cases "inodeAt fs (cur @ [c])")
      case None
      with 2 nd show ?thesis by (auto split: if_splits)
    next
      case (Some i)
      then have i': "inodeAt fs' (cur @ [c]) = Some i" using 2(4) by (simp add: extends_def)
      show ?thesis
      proof (cases i)
        case (ILink t)
        show ?thesis
        proof (cases "cs = [] \<and> \<not> f")
          case False
          with Some nd 2 ILink obtain l where l: "n = Suc l" by (cases n) auto
          have w: "walk fs l f (if IsAbs t then [] else cur) (rawComps t @ cs) = Inr (m, d)"
            using "2.prems"(2) False Some nd ILink l by (simp split del: if_split)
          have "walk fs' l f (if IsAbs t then [] else cur) (rawComps t @ cs) = Inr (m, d)"
            by (rule "2.IH"(3) [OF nd Some ILink False l "2.prems"(1) w "2.prems"(3)])
          with nd ILink i' l False show ?thesis by (cases "cs = []") (simp_all split del: if_split)
        qed (use Some nd 2 ILink i' in simp)
      qed (use Some nd 2 i' in \<open>auto split: if_splits\<close>)
    qed
  qed
qed simp

text \<open>The clean absolute path with elements \<open>rs\<close> leads to the directory \<open>R\<close>.\<close>

definition rootAt :: "fs \<Rightarrow> string list \<Rightarrow> string list \<Rightarrow> bool" where
  "rootAt fs rs R \<longleftrightarrow> normComps True rs \<and> (\<exists>n. walk fs maxSymlinks True [] rs = Inr (n, R)) \<and>
     (\<exists>k. inodeAt fs R = Some (IDir k))"

lemma rootAt_extends: "rootAt fs rs R \<Longrightarrow> extends fs fs' \<Longrightarrow> rootAt fs' rs R"
  unfolding rootAt_def using walk_extends [of fs fs'] by (fastforce simp: extends_def)

lemma resolve_below:
  assumes "rootAt fs rs R" and "normComps True (rs @ ys)" and "ys \<noteq> []" and "noLinks fs R ys"
  shows "resolve fs f (absPathOf (rs @ ys)) = Inr q \<longleftrightarrow> q = R @ ys \<and> dirPath fs R (butlast ys)"
proof -
  obtain n k where w: "walk fs maxSymlinks True [] rs = Inr (n, R)" and k: "inodeAt fs R = Some (IDir k)"
    using assms(1) by (auto simp: rootAt_def)
  have "dotdot \<notin> set ys" using assms(2) by (auto simp: normComps_def)
  with walk_noLinks [OF assms(4) this assms(3)] show ?thesis
    unfolding resolve_def rawComps_abs [OF assms(2)] walk_append [OF w k assms(3)]
    by (auto simp: rbind_Inr_iff)
qed

lemma Stat_root: "rootAt fs rs R \<Longrightarrow> \<exists>k. Stat fs (absPathOf rs) = Inr (IDir k)"
  by (auto simp: rootAt_def Stat_def statWith_def resolve_def rawComps_abs)

text \<open>\<open>MkdirAll\<close> on a path below the root changes only the missing elements of that path.\<close>

definition onlyBelow :: "string list \<Rightarrow> string list \<Rightarrow> fs \<Rightarrow> fs \<Rightarrow> bool" where
  "onlyBelow R ys fs fs' \<longleftrightarrow>
     (\<forall>p. inodeAt fs' p \<noteq> inodeAt fs p \<longrightarrow> (\<exists>zs. zs \<noteq> [] \<and> prefix zs ys \<and> p = R @ zs))"

lemma mkdirAllRev_below:
  assumes "rootAt fs rs R" and "normComps True (rs @ ys)" and "noLinks fs R ys"
    and "mkdirAllRev perm (rev (rs @ ys)) fs = Inr fs'"
  shows "extends fs fs' \<and> onlyBelow R ys fs fs' \<and> dirPath fs' R ys"
  using assms(2-)
proof (induction ys arbitrary: fs' rule: rev_induct)
  case Nil
  obtain k where "Stat fs (absPathOf rs) = Inr (IDir k)" using Stat_root [OF assms(1)] by blast
  with Nil have "fs' = fs" by (cases rs rule: rev_cases) auto
  then show ?case by (simp add: onlyBelow_def)
next
  case (snoc c ys)
  let ?p = "absPathOf (rs @ ys @ [c])"
  have norm: "normComps True (rs @ ys)" using snoc.prems(1) normComps_butlast [of True "rs @ ys" c] by simp
  have nl: "noLinks fs R ys" using snoc.prems(2) by simp
  note res = resolve_below [OF assms(1) snoc.prems(1) _ snoc.prems(2), simplified]
  show ?case
  proof (cases "\<exists>i. Stat fs ?p = Inr i")
    case True
    then obtain i where i: "Stat fs ?p = Inr i" by blast
    with snoc.prems(3) have "isDirNode i" "fs' = fs" by (auto split: if_splits)
    moreover from i have "inodeAt fs (R @ ys @ [c]) = Some i" "dirPath fs R ys"
      by (auto simp: Stat_def statWith_def rbind_Inr_iff res split: option.splits)
    ultimately show ?thesis by (cases i) (auto simp: onlyBelow_def)
  next
    case False
    then obtain e where e: "Stat fs ?p = Inl e" by (cases "Stat fs ?p") auto
    with snoc.prems(3) obtain fs1 where fs1: "mkdirAllRev perm (rev (rs @ ys)) fs = Inr fs1"
      and last: "(case Mkdir perm ?p fs1 of Inr fs2 \<Rightarrow> Inr fs2
               | Inl e \<Rightarrow> (case Lstat fs1 ?p of Inr i \<Rightarrow> if isDirNode i then Inr fs1 else Inl e
                   | Inl _ \<Rightarrow> Inl e)) = Inr fs'"
      by (auto simp: rbind_Inr_iff Let_def)
    have IH: "extends fs fs1" "onlyBelow R ys fs fs1" "dirPath fs1 R ys"
      using snoc.IH [OF norm nl fs1] by auto
    have same: "inodeAt fs1 (R @ ys @ [c]) = inodeAt fs (R @ ys @ [c])"
      using IH(2) by (auto simp: onlyBelow_def prefix_def)
    have res1: "resolve fs1 f ?p = Inr q \<longleftrightarrow> q = R @ ys @ [c]" for f q
      using resolve_below [OF rootAt_extends [OF assms(1) IH(1)] snoc.prems(1), of f q] IH(3) same snoc.prems(2)
      by (simp add: dirPath_noLinks)
    then have r: "resolve fs1 False ?p = Inr (R @ ys @ [c])" by blast
    have below1: "onlyBelow R (ys @ [c]) fs fs1"
      using IH(2) by (auto simp: onlyBelow_def)
    show ?thesis
    proof (cases "inodeAt fs1 (R @ ys @ [c])")
      case None
      then have "fs' = fmupd (R @ ys @ [c]) (IDir perm) fs1"
        using last r by (simp add: Mkdir_def newEntry_def)
      with IH None below1 show ?thesis
        by (auto simp: onlyBelow_def inodeAt_upd intro: extends_trans extends_new dirPath_extends)
    next
      case (Some i)
      then have "fs' = fs1 \<and> isDirNode i"
        using last r by (simp add: Mkdir_def newEntry_def Lstat_def statWith_def split: if_splits)
      with IH Some below1 show ?thesis by (cases i) auto
    qed
  qed
qed

text \<open>Without following the last element, only the elements before it must not be links.\<close>

lemma walk_noLinks_last:
  assumes "noLinks fs cur cs" and "dotdot \<notin> set (cs @ [c])"
  shows "walk fs n False cur (cs @ [c]) = Inr (m, q) \<longleftrightarrow> m = n \<and> q = cur @ cs @ [c] \<and> dirPath fs cur cs"
  using assms
proof (induction cs arbitrary: cur)
  case Nil
  then show ?case by (auto split: option.splits inode.splits)
next
  case (Cons d cs)
  with Cons.IH [of "cur @ [d]"] show ?case by (auto split: option.splits inode.splits)
qed

lemma resolve_below_last:
  assumes "rootAt fs rs R" and "normComps True (rs @ ys @ [c])" and "noLinks fs R ys"
  shows "resolve fs False (absPathOf (rs @ ys @ [c])) = Inr q \<longleftrightarrow> q = R @ ys @ [c] \<and> dirPath fs R ys"
proof -
  obtain n k where w: "walk fs maxSymlinks True [] rs = Inr (n, R)" and k: "inodeAt fs R = Some (IDir k)"
    using assms(1) by (auto simp: rootAt_def)
  have "dotdot \<notin> set (ys @ [c])" using assms(2) by (auto simp: normComps_def)
  with walk_noLinks_last [OF assms(3) this] show ?thesis
    unfolding resolve_def rawComps_abs [OF assms(2)] using walk_append [OF w k, of "ys @ [c]"]
    by (auto simp: rbind_Inr_iff)
qed

lemma walk_ENOENT:
  assumes "dirPath fs cur cs" and "dotdot \<notin> set (cs @ [c])" and "noLinks fs cur (cs @ [c])"
  shows "walk fs n f cur (cs @ [c]) = Inr (n, cur @ cs @ [c])"
  using walk_noLinks [OF assms(3,2)] assms(1) by simp

lemma noLinks_absent: "fsWF fs \<Longrightarrow> inodeAt fs q = None \<Longrightarrow> noLinks fs q ys"
proof (induction ys arbitrary: q)
  case (Cons y ys)
  have "inodeAt fs (q @ [y]) = None"
  proof (rule ccontr)
    assume "inodeAt fs (q @ [y]) \<noteq> None"
    then obtain i where "fmlookup fs (q @ [y]) = Some i" by (auto simp: inodeAt_def)
    with Cons.prems(1) have "\<exists>m. inodeAt fs (butlast (q @ [y])) = Some (IDir m)"
      unfolding fsWF_def by blast
    with Cons.prems(2) show False by simp
  qed
  with Cons.IH [of "q @ [y]"] Cons.prems(1) show ?case by simp
qed simp

lemma absent_not_dir:
  assumes "fsWF fs" and "\<nexists>m. inodeAt fs q = Some (IDir m)"
  shows "inodeAt fs (q @ [y]) = None"
proof (rule ccontr)
  assume "inodeAt fs (q @ [y]) \<noteq> None"
  then obtain i where "fmlookup fs (q @ [y]) = Some i" by (auto simp: inodeAt_def)
  with assms(1) have "\<exists>m. inodeAt fs (butlast (q @ [y])) = Some (IDir m)" unfolding fsWF_def by blast
  with assms(2) show False by simp
qed

text \<open>In a well-formed tree the elements before an existing one are directories.\<close>

lemma parent_dir: "fsWF fs \<Longrightarrow> inodeAt fs (q @ [c]) = Some i \<Longrightarrow> \<exists>m. inodeAt fs q = Some (IDir m)"
  unfolding fsWF_def by (metis append_is_Nil_conv butlast_snoc inodeAt_def not_Cons_self2)

lemma dirPath_closed: "fsWF fs \<Longrightarrow> inodeAt fs (q @ cs) = Some (IDir m) \<Longrightarrow> dirPath fs q cs"
proof (induction cs arbitrary: m rule: rev_induct)
  case (snoc c cs)
  then obtain k where "inodeAt fs (q @ cs) = Some (IDir k)"
    using parent_dir [of fs "q @ cs" c] by auto
  with snoc show ?case by auto
qed simp


lemma osPath_abs: "IsAbs p \<Longrightarrow> osPath cwd p = p"
  by (simp add: osPath_def)

lemma clean_absPathOf: "IsAbs p \<Longrightarrow> Clean p = p \<Longrightarrow> p = absPathOf (comps p)"
  by (metis Clean_def absPathOf_def)

section \<open>Canonical paths\<close>

text \<open>\<open>filepath.EvalSymlinks\<close> of an absolute path.\<close>

definition EvalSymlinks :: "fs \<Rightarrow> string \<Rightarrow> (errno, string) result" where
  "EvalSymlinks fs p =
     rbind (resolve fs True p) (\<lambda>q. if inodeAt fs q = None then Inl ENOENT else Inr (absPathOf q))"

lemma dirPath_butlast: "dirPath fs [] q \<Longrightarrow> dirPath fs [] (butlast q)"
  by (cases q rule: rev_cases) simp_all

lemma dirPath_not_link: "dirPath fs [] q \<Longrightarrow> inodeAt fs q \<noteq> Some (ILink t)"
  by (cases q rule: rev_cases) (auto simp: inodeAt_def)

text \<open>A path resolved with all its links has no link left.\<close>

lemma walk_canonical:
  assumes "walk fs n True cur cs = Inr (m, q)" and "dirPath fs [] cur"
  shows "dirPath fs [] (butlast q) \<and> (\<forall>t. inodeAt fs q \<noteq> Some (ILink t))"
  using assms
proof (induction fs n True cur cs rule: walk.induct)
  case (1 fs n cur)
  then show ?case using dirPath_butlast dirPath_not_link by auto
next
  case (2 fs n cur c cs)
  show ?case
  proof (cases "c = dotdot")
    case True
    with 2 show ?thesis by (simp add: dirPath_butlast)
  next
    case c: False
    show ?thesis
    proof (cases "inodeAt fs (cur @ [c])")
      case None
      with 2 c show ?thesis by (auto split: if_splits)
    next
      case (Some i)
      show ?thesis
      proof (cases i)
        case (IDir k)
        with 2 c Some show ?thesis by simp
      next
        case (IFile k s)
        with 2 c Some show ?thesis by (auto split: if_splits)
      next
        case (ILink t)
        with 2 c Some show ?thesis by (cases n) (auto split: if_splits)
      qed
    qed
  qed
qed

end
