(* ===== verification/Rootfs_Api.thy ===== *)
theory Rootfs_Api
  imports Go_Json Go_Os
begin

text \<open>
  \<open>sysbox-snapshotter/rootfs/types.go\<close>: the records that the parts of the persistent rootfs exchange
  and the interfaces between them.  The Go interfaces \<open>RootfsPreparer\<close> and
  \<open>PersistentSpecialHandoffStore\<close> become the locales \<open>rootfs_preparer\<close> and \<open>handoff_store\<close>: the
  operations the snapshotter calls, with the laws it relies on.  The implementations interpret them in
  the theory \<open>Rootfs\<close>.
\<close>

section \<open>OCI runtime specification\<close>

text \<open>The fields of \<open>specs.Spec\<close> and \<open>specs.Mount\<close> that the sources use.\<close>

record OciMount =
  Destination :: string
  MType :: string
  Source :: string
  Options :: "string list"

record OciSpec =
  RootPath :: "string option"
  OciAnnotations :: "(string, string) fmap"
  Mounts :: "OciMount list"

section \<open>Records\<close>

definition AnnotationRootfs :: string where
  "AnnotationRootfs = ''sysbox/rootfs-rw-layer''"

definition SidecarMountDir :: string where
  "SidecarMountDir = ''/var/lib/sysbox/rootfs-rw-volume''"

definition SidecarName :: string where
  "SidecarName = ''sysbox-rootfs''"

record RootfsRwLayerRequest =
  SnapshotKey :: string
  PodUID :: string
  ContainerName :: string
  RootfsRwLayerAnnotation :: string

record RootfsRwLayerSpec =
  SpecVolumeName :: string
  SpecPath :: string
  SpecPersistent :: bool
  SpecSpecialPath :: "string list"
  Sidecar :: bool
  sidecarSpec :: "OciSpec option"

definition zeroSpec :: RootfsRwLayerSpec where
  "zeroSpec = \<lparr>SpecVolumeName = [], SpecPath = [], SpecPersistent = False, SpecSpecialPath = [],
     Sidecar = False, sidecarSpec = None\<rparr>"

record PrepareRootfsRequest =
  PrepSnapshotKey :: string
  PrepPodUID :: string
  PrepContainerName :: string
  PrepPath :: string
  PVCMountPath :: string

record PreparedRootfs =
  UpperDir :: string
  WorkDir :: string

record PersistentSpecialHandoff =
  HVersion :: int
  HSnapshotKey :: string
  HPodUID :: string
  HContainerName :: string
  HVolumeName :: string
  HPVCMountPath :: string

record IntentEntry =
  EContainerName :: string
  EVolumeName :: string
  EPath :: string
  EPersistent :: bool
  ESpecialPath :: "string list"

datatype rootfs_error =
    ErrRootfsRwLayerNotConfigured
  | ErrContainerIdentityUnavailable
  | ErrContainerIdentityIncomplete
  | ErrUnsafeLayerPath
  | ErrUnmanagedRootfsLayer
  | ErrSidecarSpecUnavailable
  | ErrSidecarSpecAmbiguous
  | ErrSidecarSpecMalformed
  | ErrPVCMountNotFound
  | ErrDecodeAnnotation
  | ErrMissingPVCMountPath
  | ErrHandoffIncomplete
  | ErrHandoffStoreMissing
  | ErrContext string
  | ErrOs string errno
  | ErrContainerd string
  | ErrRel

section \<open>Interfaces\<close>

text \<open>A directory that is reached without following a link at its end.\<close>

definition realDir :: "fs \<Rightarrow> string \<Rightarrow> bool" where
  "realDir fs p \<longleftrightarrow> (\<exists>m. Lstat fs p = Inr (IDir m))"

locale rootfs_preparer =
  fixes prepare :: "PrepareRootfsRequest \<Rightarrow> fs \<Rightarrow> fs \<times> (rootfs_error, PreparedRootfs) result"
  assumes prepared_dirs: "prepare req fs = (fs', Inr p) \<Longrightarrow> realDir fs' (UpperDir p) \<and> realDir fs' (WorkDir p)"
    and prepared_inside: "prepare req fs = (fs', Inr p) \<Longrightarrow>
      inside (PVCMountPath req) (UpperDir p) \<and> inside (PVCMountPath req) (WorkDir p)"
    and prepared_distinct: "prepare req fs = (fs', Inr p) \<Longrightarrow>
      UpperDir p \<noteq> [] \<and> WorkDir p \<noteq> [] \<and> UpperDir p \<noteq> WorkDir p"
begin

lemma prepared_usable:
  "prepare req fs = (fs', Inr p) \<Longrightarrow>
   UpperDir p \<noteq> [] \<and> WorkDir p \<noteq> [] \<and> UpperDir p \<noteq> WorkDir p \<and>
   inside (PVCMountPath req) (UpperDir p) \<and> inside (PVCMountPath req) (WorkDir p) \<and>
   realDir fs' (UpperDir p) \<and> realDir fs' (WorkDir p)"
  using prepared_dirs prepared_inside prepared_distinct by simp

end

locale handoff_store =
  fixes invar :: "fs \<Rightarrow> bool"
    and store :: "PersistentSpecialHandoff \<Rightarrow> fs \<Rightarrow> fs \<times> rootfs_error option"
    and discard :: "string \<Rightarrow> fs \<Rightarrow> fs \<times> rootfs_error option"
    and fetch :: "fs \<Rightarrow> string \<Rightarrow> PersistentSpecialHandoff option"
  assumes store_fetch: "invar fs \<Longrightarrow> store h fs = (fs', None) \<Longrightarrow> fetch fs' (HSnapshotKey h) = Some h"
    and store_error: "invar fs \<Longrightarrow> store h fs = (fs', Some e) \<Longrightarrow> fetch fs' k = fetch fs k"
    and store_invar: "invar fs \<Longrightarrow> store h fs = (fs', r) \<Longrightarrow> invar fs'"
    and discard_fetch: "invar fs \<Longrightarrow> discard k fs = (fs', None) \<Longrightarrow> k \<noteq> [] \<Longrightarrow> fetch fs' k = None"
    and discard_error: "invar fs \<Longrightarrow> discard k fs = (fs', Some e) \<Longrightarrow> fs' = fs"
    and discard_invar: "invar fs \<Longrightarrow> discard k fs = (fs', r) \<Longrightarrow> invar fs'"
begin

lemma store_then_discard:
  "invar fs \<Longrightarrow> store h fs = (fs1, None) \<Longrightarrow> HSnapshotKey h \<noteq> [] \<Longrightarrow>
   discard (HSnapshotKey h) fs1 = (fs2, None) \<Longrightarrow>
   fetch fs1 (HSnapshotKey h) = Some h \<and> fetch fs2 (HSnapshotKey h) = None \<and> invar fs2"
  using store_fetch store_invar discard_fetch discard_invar by blast

text \<open>A key never shows anything but its old record or the one being written.\<close>

lemma store_atomic:
  "invar fs \<Longrightarrow> store h fs = (fs', r) \<Longrightarrow>
   fetch fs' (HSnapshotKey h) = (if r = None then Some h else fetch fs (HSnapshotKey h))"
  by (cases r) (simp_all add: store_fetch store_error)

end

end
