(* ===== verification/Go_Crypto.thy ===== *)
theory Go_Crypto
  imports Go_Strings
begin

unbundle bit_operations_syntax

text \<open>
  \<open>crypto/sha256.Sum256\<close> and \<open>encoding/hex.EncodeToString\<close> (FIPS 180-4): the file names of the
  handoff records are the hexadecimal digests of their snapshot keys.
\<close>

type_synonym u32 = "32 word"

definition sha_k :: "u32 list" where
  "sha_k = [
  1116352408, 1899447441, 3049323471, 3921009573, 961987163, 1508970993, 2453635748, 2870763221,
  3624381080, 310598401, 607225278, 1426881987, 1925078388, 2162078206, 2614888103, 3248222580,
  3835390401, 4022224774, 264347078, 604807628, 770255983, 1249150122, 1555081692, 1996064986,
  2554220882, 2821834349, 2952996808, 3210313671, 3336571891, 3584528711, 113926993, 338241895,
  666307205, 773529912, 1294757372, 1396182291, 1695183700, 1986661051, 2177026350, 2456956037,
  2730485921, 2820302411, 3259730800, 3345764771, 3516065817, 3600352804, 4094571909, 275423344,
  430227734, 506948616, 659060556, 883997877, 958139571, 1322822218, 1537002063, 1747873779,
  1955562222, 2024104815, 2227730452, 2361852424, 2428436474, 2756734187, 3204031479, 3329325298]"

definition sha_init :: "u32 list" where
  "sha_init = [1779033703, 3144134277, 1013904242, 2773480762, 1359893119, 2600822924, 528734635, 1541459225]"

definition rotr :: "nat \<Rightarrow> u32 \<Rightarrow> u32" where
  "rotr n w = drop_bit n w OR push_bit (32 - n) w"

text \<open>Padding: one bit, zeros, and the bit length as eight bytes, to a multiple of 64 bytes.\<close>

definition byte :: "int \<Rightarrow> char" where
  "byte n = char_of (n mod 256)"

definition sha_pad :: "string \<Rightarrow> string" where
  "sha_pad msg =
     msg @ [CHR 0x80] @ replicate ((119 - length msg mod 64) mod 64) (CHR 0x00) @
     map (\<lambda>i. byte (8 * int (length msg) div 256 ^ (7 - i))) [0..<8]"

fun words_of :: "string \<Rightarrow> u32 list" where
  "words_of (a # b # c # d # rest) =
     word_of_int (((of_char a * 256 + of_char b) * 256 + of_char c) * 256 + of_char d) # words_of rest"
| "words_of _ = []"

text \<open>The message schedule, extended word by word (newest word first).\<close>

definition sched_step :: "u32 list \<Rightarrow> u32 list" where
  "sched_step ws =
     (let v1 = ws ! 1; t1 = rotr 17 v1 XOR rotr 19 v1 XOR drop_bit 10 v1;
          v2 = ws ! 14; t2 = rotr 7 v2 XOR rotr 18 v2 XOR drop_bit 3 v2
      in (t1 + ws ! 6 + t2 + ws ! 15) # ws)"

definition schedule :: "u32 list \<Rightarrow> u32 list" where
  "schedule block = rev ((sched_step ^^ 48) (rev block))"

fun sha_round :: "u32 list \<Rightarrow> u32 \<times> u32 \<Rightarrow> u32 list" where
  "sha_round [a, b, c, d, e, f, g, h] (k, w) =
     (let t1 = h + (rotr 6 e XOR rotr 11 e XOR rotr 25 e) + ((e AND f) XOR (NOT e AND g)) + k + w;
          t2 = (rotr 2 a XOR rotr 13 a XOR rotr 22 a) + ((a AND b) XOR (a AND c) XOR (b AND c))
      in [t1 + t2, a, b, c, d + t1, e, f, g])"
| "sha_round st _ = st"

definition sha_block :: "u32 list \<Rightarrow> u32 list \<Rightarrow> u32 list" where
  "sha_block st block = map2 (+) st (foldl sha_round st (zip sha_k (schedule block)))"

definition blocks_of :: "u32 list \<Rightarrow> u32 list list" where
  "blocks_of ws = map (\<lambda>i. take 16 (drop (16 * i) ws)) [0..<length ws div 16]"

definition Sum256 :: "string \<Rightarrow> u32 list" where
  "Sum256 msg = foldl sha_block sha_init (blocks_of (words_of (sha_pad msg)))"

definition hexNibble :: "int \<Rightarrow> char" where
  "hexNibble d = (if d < 10 then char_of (48 + d) else char_of (87 + d))"

definition hex_word :: "u32 \<Rightarrow> string" where
  "hex_word w = map (\<lambda>i. hexNibble (uint w div 16 ^ (7 - i) mod 16)) [0..<8]"

definition sha256hex :: "string \<Rightarrow> string" where
  "sha256hex msg = concat (map hex_word (Sum256 msg))"

section \<open>Digests are safe file names\<close>

lemma sha_round_length: "length st = 8 \<Longrightarrow> length (sha_round st kw) = 8"
  by (cases "(st, kw)" rule: sha_round.cases) (auto simp: Let_def)

lemma sha_rounds_length: "length st = 8 \<Longrightarrow> length (foldl sha_round st kws) = 8"
  by (induction kws arbitrary: st) (auto simp: sha_round_length)

lemma Sum256_length: "length (Sum256 msg) = 8"
proof -
  have "length (foldl sha_block st bs) = 8" if "length st = 8" for st bs
    using that by (induction bs arbitrary: st) (auto simp: sha_block_def sha_rounds_length)
  then show ?thesis by (simp add: Sum256_def sha_init_def)
qed

definition hexChars :: "char set" where
  "hexChars = set ''0123456789abcdef''"

lemma hexNibble_char: "0 \<le> d \<Longrightarrow> d < 16 \<Longrightarrow> hexNibble d \<in> hexChars"
proof -
  have "\<forall>d \<in> set [0..15]. hexNibble d \<in> hexChars" by code_simp
  then show "0 \<le> d \<Longrightarrow> d < 16 \<Longrightarrow> hexNibble d \<in> hexChars" by auto
qed

lemma sha256hex_chars: "set (sha256hex msg) \<subseteq> hexChars"
  by (auto simp: sha256hex_def hex_word_def intro: hexNibble_char)

lemma sha256hex_length: "length (sha256hex msg) = 64"
proof -
  have "map length (map hex_word (Sum256 msg)) = replicate 8 8"
    by (rule nth_equalityI) (simp_all add: Sum256_length hex_word_def)
  then show ?thesis by (simp add: sha256hex_def length_concat sum_list_replicate del: map_map)
qed

end
