(* ===== verification/Rootfs.thy ===== *)
theory Rootfs
  imports Rootfs_Api Go_Crypto
begin

text \<open>
  \<open>sysbox-snapshotter/rootfs\<close>: resolving which persistent layer a container uses
  (\<open>sidecar_metadata.go\<close>, \<open>containerd_identity.go\<close>, \<open>containerd_sidecar_spec.go\<close>), finding the volume's
  mount path (\<open>pvc_mountpath_resolver.go\<close>), preparing its directories (\<open>local_preparer.go\<close>, \<open>path.go\<close>)
  and handing the path over to the runtime (\<open>persistent_special_handoff.go\<close>).  The containerd client is
  a parameter of the operations that use it.
\<close>

section \<open>path.go\<close>

definition safeLayerPath :: "string \<Rightarrow> (rootfs_error, string) result" where
  "safeLayerPath path =
     (if path = [] \<or> path = ''.'' then Inr []
      else rguard (IsAbs path) ErrUnsafeLayerPath
        (let cleaned = Clean path
         in if cleaned = ''.'' then Inr []
            else rguard (''..'' \<in> set (Split sep cleaned)) ErrUnsafeLayerPath (Inr cleaned)))"

text \<open>The working directory of the process is given by its elements.\<close>

definition safeJoin :: "string list \<Rightarrow> string \<Rightarrow> string \<Rightarrow> (rootfs_error, string) result" where
  "safeJoin cwd root path =
     rbind (safeLayerPath path) (\<lambda>cleaned. Inr (Abs (absPathOf cwd) (JoinPath [root, cleaned])))"

section \<open>local\_preparer.go\<close>

definition rejectSymlinkPath :: "string list \<Rightarrow> fs \<Rightarrow> string \<Rightarrow> (rootfs_error, unit) result" where
  "rejectSymlinkPath cwd fs path =
     (case Lstat fs (osPath cwd path) of
        Inl ENOENT \<Rightarrow> Inr ()
      | Inl e \<Rightarrow> Inl (ErrOs ''stat rootfs rw-layer path'' e)
      | Inr i \<Rightarrow> rguard (isLinkNode i) ErrUnsafeLayerPath (Inr ()))"

text \<open>This loop only runs when \<open>root\<close> is absolute: \<open>Rel\<close> of a relative root and an absolute path fails.\<close>

fun rejectElems :: "fs \<Rightarrow> string \<Rightarrow> string list \<Rightarrow> (rootfs_error, unit) result" where
  "rejectElems fs current [] = Inr ()"
| "rejectElems fs current (elem # elems) =
     (if elem = [] \<or> elem = ''.'' then rejectElems fs current elems
      else let next = JoinPath [current, elem]
           in case Lstat fs next of
                Inl ENOENT \<Rightarrow> Inr ()
              | Inl e \<Rightarrow> Inl (ErrOs ''stat rootfs rw-layer path'' e)
              | Inr i \<Rightarrow> rguard (isLinkNode i) ErrUnsafeLayerPath (rejectElems fs next elems))"

definition rejectSymlink :: "string list \<Rightarrow> fs \<Rightarrow> string \<Rightarrow> string \<Rightarrow> (rootfs_error, unit) result" where
  "rejectSymlink cwd fs root path =
     rbind (rejectSymlinkPath cwd fs root) (\<lambda>_.
       case Rel root path of
         None \<Rightarrow> Inl ErrRel
       | Some rel \<Rightarrow> rejectElems fs root (Split sep rel))"

text \<open>The two loops over \<open>upper\<close> and \<open>work\<close>: before the creation a missing path is fine.\<close>

definition checkManaged :: "fs \<Rightarrow> string \<Rightarrow> unit \<Rightarrow> (rootfs_error, unit) result" where
  "checkManaged fs path u =
     (case Lstat fs path of
        Inr i \<Rightarrow> rguard (isLinkNode i \<or> \<not> isDirNode i) ErrUnmanagedRootfsLayer (Inr ())
      | Inl _ \<Rightarrow> Inr ())"

definition checkCreated :: "fs \<Rightarrow> string \<Rightarrow> unit \<Rightarrow> (rootfs_error, unit) result" where
  "checkCreated fs path u =
     (case Lstat fs path of
        Inl e \<Rightarrow> Inl (ErrOs ''stat rootfs rw-layer path'' e)
      | Inr i \<Rightarrow> rguard (isLinkNode i \<or> \<not> isDirNode i) ErrUnmanagedRootfsLayer (Inr ()))"

definition osErr :: "string \<Rightarrow> (errno, 'a) result \<Rightarrow> (rootfs_error, 'a) result" where
  "osErr msg r = (case r of Inl e \<Rightarrow> Inl (ErrOs msg e) | Inr x \<Rightarrow> Inr x)"

definition PrepareRootfsRwLayer ::
  "string option \<Rightarrow> string list \<Rightarrow> PrepareRootfsRequest \<Rightarrow> fs \<Rightarrow> fs \<times> (rootfs_error, PreparedRootfs) result" where
  "PrepareRootfsRwLayer ctxErr cwd request fs =
     (case ctxErr of
        Some e \<Rightarrow> (fs, Inl (ErrContext e))
      | None \<Rightarrow>
          if PVCMountPath request = [] then (fs, Inl ErrMissingPVCMountPath)
          else case safeJoin cwd (PVCMountPath request) (PrepPath request) of
            Inl e \<Rightarrow> (fs, Inl e)
          | Inr layerRoot \<Rightarrow>
              (case rejectSymlink cwd fs (PVCMountPath request) layerRoot of
                 Inl e \<Rightarrow> (fs, Inl e)
               | Inr _ \<Rightarrow>
                   let upper = JoinPath [layerRoot, ''upper'']; work = JoinPath [layerRoot, ''work'']
                   in (case rfold (checkManaged fs) [upper, work] () of
                         Inl e \<Rightarrow> (fs, Inl e)
                       | Inr _ \<Rightarrow>
                           (case MkdirAll 493 upper fs of
                              Inl e \<Rightarrow> (fs, Inl (ErrOs ''create rootfs upperdir'' e))
                            | Inr fs1 \<Rightarrow>
                                (case MkdirAll 457 work fs1 of
                                   Inl e \<Rightarrow> (fs1, Inl (ErrOs ''create rootfs workdir'' e))
                                 | Inr fs2 \<Rightarrow>
                                     (case rfold (checkCreated fs2) [upper, work] () of
                                        Inl e \<Rightarrow> (fs2, Inl e)
                                      | Inr _ \<Rightarrow> (fs2, Inr \<lparr>UpperDir = upper, WorkDir = work\<rparr>)))))))"

section \<open>Layer paths stay inside the volume\<close>

lemma safeLayerPath_Inr:
  "safeLayerPath p = Inr c \<longleftrightarrow>
   \<not> IsAbs p \<and> dotdot \<notin> set (comps p) \<and> c = (if comps p = [] then [] else Clean p)"
proof (cases "p = [] \<or> p = ''.'' \<or> IsAbs p")
  case True
  have "comps [] = []" "comps ''.'' = []" by code_simp+
  with True show ?thesis by (auto simp: safeLayerPath_def rguard_def)
next
  case False
  then have "Clean p = ''.'' \<longleftrightarrow> comps p = []" using comps_Nil_iff [of p] by (simp add: dot_def)
  moreover have "comps p \<noteq> [] \<Longrightarrow> Split sep (Clean p) = comps p"
  proof -
    assume "comps p \<noteq> []"
    then have "Split sep (Join sep (comps p)) = comps p" using comps_elem by (intro Split_Join) blast+
    with False \<open>comps p \<noteq> []\<close> show ?thesis by (simp add: Clean_def unComps_def)
  qed
  ultimately show ?thesis
    using False by (cases "comps p = []") (auto simp: safeLayerPath_def rguard_def Let_def dotdot_def)
qed

lemma comps_Join_clean:
  assumes "root \<noteq> []" "\<not> IsAbs p" "dotdot \<notin> set (comps p)"
  shows "comps (JoinPath [root, if comps p = [] then [] else Clean p]) = comps root @ comps p \<and>
    IsAbs (JoinPath [root, if comps p = [] then [] else Clean p]) = IsAbs root"
proof (cases "comps p = []")
  case True
  with assms(1) show ?thesis by (simp add: JoinPath_def)
next
  case False
  have "\<forall>c \<in> set (comps p). c \<noteq> [] \<and> c \<noteq> dot \<and> c \<noteq> dotdot \<and> sep \<notin> set c"
    using comps_elem assms(3) by blast
  with assms False comps_append_names [OF assms(1) False] show ?thesis
    by (simp add: JoinPath2 IsAbs_append) (simp add: Clean_def unComps_def)
qed

lemma safeJoin_abs:
  assumes "safeJoin cwd root p = Inr q" and "IsAbs root"
  shows "IsAbs q" "comps q = comps root @ comps p" "Clean q = q" "dotdot \<notin> set (comps p)"
proof -
  have "root \<noteq> []" using assms(2) by auto
  moreover from assms(1) have p: "\<not> IsAbs p" "dotdot \<notin> set (comps p)"
    and q: "q = Abs (absPathOf cwd) (JoinPath [root, if comps p = [] then [] else Clean p])"
    by (auto simp: safeJoin_def rbind_Inr_iff safeLayerPath_Inr)
  ultimately show "IsAbs q" "comps q = comps root @ comps p" "Clean q = q" "dotdot \<notin> set (comps p)"
    using comps_Join_clean [of root p] assms(2) by (simp_all add: Abs_def)
qed

lemma IsAbs_Abs: "IsAbs (Abs (absPathOf cwd) p)"
proof (cases "IsAbs p")
  case False
  have "IsAbs (absPathOf cwd)" by (simp add: absPathOf_def unComps_def)
  with False show ?thesis
    by (cases "p = []") (simp_all add: Abs_def JoinPath2 IsAbs_append, simp add: JoinPath_def)
qed (simp add: Abs_def)

lemma safeJoin_IsAbs: "safeJoin cwd root p = Inr q \<Longrightarrow> IsAbs q"
  by (auto simp: safeJoin_def rbind_Inr_iff IsAbs_Abs)

section \<open>The preparer creates real directories, and only below the volume\<close>

lemma prepare_Inr:
  assumes "PrepareRootfsRwLayer ctxErr cwd req fs = (fs', Inr p)"
  obtains layerRoot fs1 where "safeJoin cwd (PVCMountPath req) (PrepPath req) = Inr layerRoot"
    "rejectSymlink cwd fs (PVCMountPath req) layerRoot = Inr ()"
    "p = \<lparr>UpperDir = JoinPath [layerRoot, ''upper''], WorkDir = JoinPath [layerRoot, ''work'']\<rparr>"
    "checkManaged fs (UpperDir p) () = Inr ()" "checkManaged fs (WorkDir p) () = Inr ()"
    "MkdirAll 493 (UpperDir p) fs = Inr fs1" "MkdirAll 457 (WorkDir p) fs1 = Inr fs'"
    "checkCreated fs' (UpperDir p) () = Inr ()" "checkCreated fs' (WorkDir p) () = Inr ()"
  using assms
  by (auto simp: PrepareRootfsRwLayer_def Let_def rbind_Inr_iff split: option.splits if_splits sum.splits)

lemma checkCreated_realDir: "checkCreated fs q u = Inr () \<Longrightarrow> realDir fs q"
  by (auto simp: checkCreated_def realDir_def rguard_Inr_iff split: sum.splits) (metis isDirNode.elims(2))

lemma rejectSymlink_abs: "rejectSymlink cwd fs root q = Inr () \<Longrightarrow> IsAbs q \<Longrightarrow> IsAbs root"
  by (auto simp: rejectSymlink_def rbind_Inr_iff Rel_def Clean_eq_iff split: if_splits option.splits)

lemma layer_names:
  assumes "IsAbs layerRoot" "c = ''upper'' \<or> c = ''work''"
  shows "comps (JoinPath [layerRoot, c]) = comps layerRoot @ [c]" "IsAbs (JoinPath [layerRoot, c])"
    "JoinPath [layerRoot, c] \<noteq> []" "Clean (JoinPath [layerRoot, c]) = JoinPath [layerRoot, c]"
proof -
  have ne: "layerRoot \<noteq> []" using assms(1) by auto
  have c: "c \<noteq> []" "c \<noteq> dot" "c \<noteq> dotdot" "sep \<notin> set c" using assms(2) by (auto simp: dot_def dotdot_def)
  show "comps (JoinPath [layerRoot, c]) = comps layerRoot @ [c]" "IsAbs (JoinPath [layerRoot, c])"
    using comps_JoinPath_name [OF ne c] assms(1) by simp_all
  show "JoinPath [layerRoot, c] \<noteq> []" "Clean (JoinPath [layerRoot, c]) = JoinPath [layerRoot, c]"
    using ne c(1) by (simp_all add: JoinPath2)
qed

lemma prepared_paths:
  assumes "PrepareRootfsRwLayer ctxErr cwd req fs = (fs', Inr p)"
  shows "IsAbs (PVCMountPath req)"
    "IsAbs (UpperDir p)" "comps (UpperDir p) = comps (PVCMountPath req) @ comps (PrepPath req) @ [''upper'']"
    "IsAbs (WorkDir p)" "comps (WorkDir p) = comps (PVCMountPath req) @ comps (PrepPath req) @ [''work'']"
    "UpperDir p \<noteq> []" "WorkDir p \<noteq> []" "Clean (UpperDir p) = UpperDir p" "Clean (WorkDir p) = WorkDir p"
proof -
  from assms obtain layerRoot where j: "safeJoin cwd (PVCMountPath req) (PrepPath req) = Inr layerRoot"
    and r: "rejectSymlink cwd fs (PVCMountPath req) layerRoot = Inr ()"
    and p: "p = \<lparr>UpperDir = JoinPath [layerRoot, ''upper''], WorkDir = JoinPath [layerRoot, ''work'']\<rparr>"
    by (rule prepare_Inr)
  have l: "IsAbs layerRoot" by (rule safeJoin_IsAbs [OF j])
  show a: "IsAbs (PVCMountPath req)" by (rule rejectSymlink_abs [OF r l])
  note c = safeJoin_abs [OF j a]
  show "IsAbs (UpperDir p)" "comps (UpperDir p) = comps (PVCMountPath req) @ comps (PrepPath req) @ [''upper'']"
    "IsAbs (WorkDir p)" "comps (WorkDir p) = comps (PVCMountPath req) @ comps (PrepPath req) @ [''work'']"
    "UpperDir p \<noteq> []" "WorkDir p \<noteq> []" "Clean (UpperDir p) = UpperDir p" "Clean (WorkDir p) = WorkDir p"
    using layer_names [OF l, of "''upper''"] layer_names [OF l, of "''work''"] by (simp_all add: p c)
qed

interpretation local_preparer: rootfs_preparer "PrepareRootfsRwLayer ctxErr cwd"
proof
  fix req fs fs' p
  assume ok: "PrepareRootfsRwLayer ctxErr cwd req fs = (fs', Inr p)"
  show "realDir fs' (UpperDir p) \<and> realDir fs' (WorkDir p)"
    using ok by (rule prepare_Inr) (simp add: checkCreated_realDir)
  show "inside (PVCMountPath req) (UpperDir p) \<and> inside (PVCMountPath req) (WorkDir p)"
    using prepared_paths [OF ok] by (simp add: inside_def)
  have "UpperDir p \<noteq> WorkDir p"
  proof
    assume "UpperDir p = WorkDir p"
    then have "comps (UpperDir p) = comps (WorkDir p)" by simp
    then show False using prepared_paths(3,5) [OF ok] by simp
  qed
  then show "UpperDir p \<noteq> [] \<and> WorkDir p \<noteq> [] \<and> UpperDir p \<noteq> WorkDir p"
    using prepared_paths [OF ok] by simp
qed

section \<open>The preparer stays below the volume\<close>

text \<open>When the walk over the elements accepts, none of them is a link.\<close>

lemma rejectElems_noLinks:
  assumes "fsWF fs" and root: "rootAt fs rs R"
    and "rejectElems fs cur ys = Inr ()" "IsAbs cur" "comps cur = rs @ xs" "normComps True (rs @ xs @ ys)"
    and "dirPath fs R xs"
  shows "noLinks fs (R @ xs) ys"
  using assms(3-)
proof (induction ys arbitrary: cur xs)
  case (Cons y ys)
  have y: "y \<noteq> []" "y \<noteq> dot" "y \<noteq> dotdot" "sep \<notin> set y"
    using Cons.prems(4) by (auto simp: normComps_def)
  let ?next = "JoinPath [cur, y]"
  have "cur \<noteq> []" using Cons.prems(2) by auto
  from comps_JoinPath_name [OF this y] Cons.prems(2,3)
  have nxt: "comps ?next = rs @ xs @ [y]" "IsAbs ?next" by simp_all
  have "?next = absPathOf (rs @ xs @ [y])"
    using nxt clean_absPathOf [of ?next] \<open>cur \<noteq> []\<close> y(1) by (simp add: JoinPath2)
  moreover have "normComps True (rs @ xs @ [y])" using nxt comps_norm [of ?next] by simp
  ultimately have "resolve fs False ?next = Inr (R @ xs @ [y])"
    using resolve_below_last [OF root _ dirPath_noLinks] Cons.prems(5) by simp
  then have l: "Lstat fs ?next = (case inodeAt fs (R @ xs @ [y]) of None \<Rightarrow> Inl ENOENT | Some i \<Rightarrow> Inr i)"
    by (simp add: Lstat_def statWith_def)
  show ?case
  proof (cases "inodeAt fs (R @ xs @ [y])")
    case None
    with noLinks_absent [OF assms(1)] show ?thesis by simp
  next
    case (Some i)
    with Cons.prems(1) y l have ok: "\<not> isLinkNode i" "rejectElems fs ?next ys = Inr ()"
      by (auto simp: rguard_Inr_iff dot_def)
    have "noLinks fs (R @ xs @ [y]) ys"
    proof (cases i)
      case (IDir m)
      with Cons.IH [OF ok(2) nxt(2), of "xs @ [y]"] Cons.prems(4,5) Some nxt(1) show ?thesis by simp
    next
      case (IFile m s)
      show ?thesis
      proof (cases ys)
        case (Cons z zs)
        have "inodeAt fs ((R @ xs @ [y]) @ [z]) = None"
          by (rule absent_not_dir [OF assms(1)]) (simp add: Some IFile)
        with noLinks_absent [OF assms(1)] show ?thesis by (simp add: Cons)
      qed simp
    qed (use ok in simp)
    with Some ok(1) show ?thesis by auto
  qed
qed simp

lemma rejectSymlink_noLinks:
  assumes "fsWF fs" "rootAt fs (comps root) R" "rejectSymlink cwd fs root q = Inr ()"
    and "IsAbs root" "IsAbs q" "comps q = comps root @ es"
  shows "noLinks fs R es"
proof (cases "es = []")
  case False
  have n: "normComps True (comps root @ [] @ es)" using comps_norm [of q] assms(5,6) by simp
  have "Split sep (Join sep es) = es"
    using False n by (intro Split_Join) (auto simp: normComps_def)
  with assms(3) Rel_below [OF assms(4-6) False] have "rejectElems fs root es = Inr ()"
    by (simp add: rejectSymlink_def rbind_Inr_iff)
  from rejectElems_noLinks [OF assms(1,2) this assms(4) _ n] show ?thesis by simp
qed simp

lemma checkManaged_noLinks:
  assumes "fsWF fs" "rootAt fs rs R" "noLinks fs R es" "IsAbs p" "Clean p = p" "comps p = rs @ es @ [c]"
    and "checkManaged fs p () = Inr ()"
  shows "noLinks fs R (es @ [c])"
proof -
  have n: "normComps True (rs @ es @ [c])" using comps_norm [of p] assms(4,6) by simp
  have p: "p = absPathOf (rs @ es @ [c])" using clean_absPathOf [OF assms(4,5)] assms(6) by simp
  have "inodeAt fs (R @ es @ [c]) \<noteq> Some (ILink t)" for t
  proof (cases "dirPath fs R es")
    case True
    then have "resolve fs False p = Inr (R @ es @ [c])"
      using resolve_below_last [OF assms(2) n assms(3)] p by simp
    with assms(7) show ?thesis by (auto simp: checkManaged_def Lstat_def statWith_def rguard_Inr_iff)
  next
    case False
    then have "es \<noteq> []" by auto
    have "\<nexists>m. inodeAt fs (R @ es) = Some (IDir m)"
      using dirPath_closed [OF assms(1)] False \<open>es \<noteq> []\<close> by blast
    with absent_not_dir [OF assms(1), of "R @ es" c] show ?thesis by simp
  qed
  with assms(3) show ?thesis by simp
qed

text \<open>The change that creating one of the two directories may make.\<close>

definition layerChange :: "string list \<Rightarrow> string list \<Rightarrow> fs \<Rightarrow> fs \<Rightarrow> bool" where
  "layerChange R es fs fs' \<longleftrightarrow> extends fs fs' \<and>
     (\<forall>p. inodeAt fs' p \<noteq> inodeAt fs p \<longrightarrow>
        (\<exists>zs. zs \<noteq> [] \<and> (prefix zs (es @ [''upper'']) \<or> prefix zs (es @ [''work''])) \<and> p = R @ zs))"

lemma layerChange_refl [simp]: "layerChange R es fs fs"
  by (simp add: layerChange_def)

lemma layerChange_step:
  assumes "layerChange R es fs fs1" "extends fs1 fs2" "onlyBelow R (es @ [c]) fs1 fs2"
    and "c = ''upper'' \<or> c = ''work''"
  shows "layerChange R es fs fs2"
proof -
  have "\<exists>zs. zs \<noteq> [] \<and> (prefix zs (es @ [''upper'']) \<or> prefix zs (es @ [''work''])) \<and> p = R @ zs"
    if "inodeAt fs2 p \<noteq> inodeAt fs p" for p
  proof (cases "inodeAt fs1 p = inodeAt fs p")
    case True
    with that have "inodeAt fs2 p \<noteq> inodeAt fs1 p" by simp
    with assms(3) obtain zs where "zs \<noteq> []" "prefix zs (es @ [c])" "p = R @ zs"
      unfolding onlyBelow_def by blast
    with assms(4) show ?thesis by blast
  qed (use assms(1) in \<open>simp add: layerChange_def\<close>)
  moreover have "extends fs fs2" using assms(1,2) extends_trans unfolding layerChange_def by blast
  ultimately show ?thesis by (simp add: layerChange_def)
qed

lemma MkdirAll_layer:
  assumes "rootAt fs rs R" "noLinks fs R ys" "IsAbs p" "comps p = rs @ ys" "MkdirAll perm p fs = Inr fs'"
  shows "extends fs fs' \<and> onlyBelow R ys fs fs' \<and> dirPath fs' R ys"
  using mkdirAllRev_below [OF assms(1) _ assms(2)] assms(3-) comps_norm [of p] by (simp add: MkdirAll_def)

lemma prepare_layer:
  assumes wf: "fsWF fs" and root: "rootAt fs (comps (PVCMountPath req)) R"
    and j: "safeJoin cwd (PVCMountPath req) (PrepPath req) = Inr layerRoot"
    and r: "rejectSymlink cwd fs (PVCMountPath req) layerRoot = Inr ()"
    and mu: "checkManaged fs (JoinPath [layerRoot, ''upper'']) () = Inr ()"
    and mw: "checkManaged fs (JoinPath [layerRoot, ''work'']) () = Inr ()"
    and up: "MkdirAll 493 (JoinPath [layerRoot, ''upper'']) fs = Inr fs1"
  shows "layerChange R (comps (PrepPath req)) fs fs1"
    and "MkdirAll 457 (JoinPath [layerRoot, ''work'']) fs1 = Inr fs2 \<Longrightarrow>
      layerChange R (comps (PrepPath req)) fs fs2 \<and> dirPath fs2 R (comps (PrepPath req) @ [''upper'']) \<and>
      dirPath fs2 R (comps (PrepPath req) @ [''work''])"
proof -
  let ?es = "comps (PrepPath req)"
  have a: "IsAbs layerRoot" by (rule safeJoin_IsAbs [OF j])
  have b: "IsAbs (PVCMountPath req)" by (rule rejectSymlink_abs [OF r a])
  have c: "comps layerRoot = comps (PVCMountPath req) @ ?es" by (rule safeJoin_abs(2) [OF j b])
  note names = layer_names [OF a, of "''upper''"] layer_names [OF a, of "''work''"]
  have nl: "noLinks fs R ?es" by (rule rejectSymlink_noLinks [OF wf root r b a c])
  have nu: "noLinks fs R (?es @ [''upper''])"
    by (rule checkManaged_noLinks [OF wf root nl _ _ _ mu]) (use names c in simp_all)
  have nw: "noLinks fs R (?es @ [''work''])"
    by (rule checkManaged_noLinks [OF wf root nl _ _ _ mw]) (use names c in simp_all)
  have s1: "extends fs fs1 \<and> onlyBelow R (?es @ [''upper'']) fs fs1 \<and> dirPath fs1 R (?es @ [''upper''])"
    by (rule MkdirAll_layer [OF root nu _ _ up]) (use names c in simp_all)
  then show l1: "layerChange R ?es fs fs1" using layerChange_step [OF layerChange_refl] by blast
  have "inodeAt fs1 (R @ ?es @ [''work'']) = inodeAt fs (R @ ?es @ [''work''])"
  proof (rule ccontr)
    assume "\<not> ?thesis"
    then have "prefix (?es @ [''work'']) (?es @ [''upper''])" using s1 by (auto simp: onlyBelow_def)
    then show False by simp
  qed
  with nw s1 have n1: "noLinks fs1 R (?es @ [''work''])" by (auto simp: dirPath_noLinks)
  show "MkdirAll 457 (JoinPath [layerRoot, ''work'']) fs1 = Inr fs2 \<Longrightarrow>
      layerChange R ?es fs fs2 \<and> dirPath fs2 R (?es @ [''upper'']) \<and> dirPath fs2 R (?es @ [''work''])"
  proof -
    assume wk: "MkdirAll 457 (JoinPath [layerRoot, ''work'']) fs1 = Inr fs2"
    have "rootAt fs1 (comps (PVCMountPath req)) R" using rootAt_extends [OF root] s1 by blast
    then have s2: "extends fs1 fs2 \<and> onlyBelow R (?es @ [''work'']) fs1 fs2 \<and> dirPath fs2 R (?es @ [''work''])"
      by (rule MkdirAll_layer [OF _ n1 _ _ wk]) (use names c in simp_all)
    with s1 have "dirPath fs2 R (?es @ [''upper''])" using dirPath_extends by blast
    with s2 layerChange_step [OF l1] show ?thesis by blast
  qed
qed

lemma prepare_cases:
  assumes "PrepareRootfsRwLayer ctxErr cwd req fs = (fs', res)"
  obtains (early) "fs' = fs" "\<not> is_ok res"
  | (created) layerRoot fs1 where "safeJoin cwd (PVCMountPath req) (PrepPath req) = Inr layerRoot"
    "rejectSymlink cwd fs (PVCMountPath req) layerRoot = Inr ()"
    "checkManaged fs (JoinPath [layerRoot, ''upper'']) () = Inr ()"
    "checkManaged fs (JoinPath [layerRoot, ''work'']) () = Inr ()"
    "MkdirAll 493 (JoinPath [layerRoot, ''upper'']) fs = Inr fs1"
    "fs' = fs1 \<and> \<not> is_ok res \<or> MkdirAll 457 (JoinPath [layerRoot, ''work'']) fs1 = Inr fs'"
  using assms
  by (auto simp: PrepareRootfsRwLayer_def Let_def rbind_Inr_iff split: option.splits if_splits sum.splits)

text \<open>
  C5.  Preparing a layer never leaves the volume: whether it succeeds or fails, every path that existed
  is unchanged, and every new path is an element on the way to the \<open>upper\<close> or \<open>work\<close> directory of the
  layer, counted from the directory that the volume's mount path leads to.  When it succeeds, both
  directories are reached from there through real directories only, never through a link.
\<close>

theorem PrepareRootfsRwLayer_contained:
  assumes "fsWF fs" and "rootAt fs (comps (PVCMountPath req)) R"
    and "PrepareRootfsRwLayer ctxErr cwd req fs = (fs', res)"
  shows "layerChange R (comps (PrepPath req)) fs fs' \<and>
    (is_ok res \<longrightarrow> dirPath fs' R (comps (PrepPath req) @ [''upper'']) \<and> dirPath fs' R (comps (PrepPath req) @ [''work'']))"
  using assms(3)
proof (cases rule: prepare_cases)
  case early
  then show ?thesis by simp
next
  case (created layerRoot fs1)
  from created(6) show ?thesis
    using prepare_layer [OF assms(1,2) created(1-5)] by blast
qed

definition exampleFs :: fs where
  "exampleFs = fmap_of_list [([''pvc''], IDir 493), ([''pvc'', ''data''], IFile 420 ''x'')]"

definition exampleRequest :: PrepareRootfsRequest where
  "exampleRequest = \<lparr>PrepSnapshotKey = ''k'', PrepPodUID = ''u'', PrepContainerName = ''c'',
     PrepPath = ''a/./b'', PVCMountPath = ''/pvc''\<rparr>"

lemma example_prepare:
  "fsWF exampleFs" "rootAt exampleFs (comps ''/pvc'') [''pvc'']"
  "is_ok (snd (PrepareRootfsRwLayer None [] exampleRequest exampleFs))"
proof -
  have d: "exampleFs = fmupd [''pvc''] (IDir 493) (fmupd [''pvc'', ''data''] (IFile 420 ''x'') fmempty)"
    by (simp add: exampleFs_def)
  show "fsWF exampleFs" by (auto simp: d fsWF_def inodeAt_def split: if_splits)
  have "walk exampleFs maxSymlinks True [] (comps ''/pvc'') = Inr (40, [''pvc''])"
    "inodeAt exampleFs [''pvc''] = Some (IDir 493)" by code_simp+
  then show "rootAt exampleFs (comps ''/pvc'') [''pvc'']"
    using comps_norm [of "''/pvc''"] by (auto simp: rootAt_def IsAbs_def)
  show "is_ok (snd (PrepareRootfsRwLayer None [] exampleRequest exampleFs))" by code_simp
qed

theorem PrepareRootfsRwLayer_contained_witness:
  "dirPath (fst (PrepareRootfsRwLayer None [] exampleRequest exampleFs)) [''pvc''] [''a'', ''b'', ''upper'']"
proof -
  have c: "comps (PrepPath exampleRequest) = [''a'', ''b'']" by code_simp
  have p: "PVCMountPath exampleRequest = ''/pvc''" by (simp add: exampleRequest_def)
  show ?thesis
    using PrepareRootfsRwLayer_contained [of exampleFs exampleRequest "[''pvc'']" None "[]"
        "fst (PrepareRootfsRwLayer None [] exampleRequest exampleFs)"
        "snd (PrepareRootfsRwLayer None [] exampleRequest exampleFs)"] example_prepare
    by (simp add: c p)
qed

end
