(* ===== verification/Handoff.thy ===== *)
theory Handoff
  imports Rootfs
begin

text \<open>
  \<open>sysbox-snapshotter/rootfs/persistent_special_handoff.go\<close>: the file store through which the
  snapshotter hands the mount path of a volume over to the runtime.  A record is a JSON file named
  by the digest of its snapshot key; it is written to a temporary file and renamed.  The store
  interprets the locale \<open>handoff_store\<close>.
\<close>

section \<open>Records\<close>

definition PersistentSpecialHandoffVersion :: int where
  "PersistentSpecialHandoffVersion = 1"

definition PersistentSpecialHandoffDir :: string where
  "PersistentSpecialHandoffDir = ''/run/sysbox/rootfs-pvc-handoff''"

definition handoffJson :: "PersistentSpecialHandoff \<Rightarrow> json" where
  "handoffJson h = JObj [
     (''version'', JNum (Itoa (HVersion h))), (''snapshotKey'', JStr (HSnapshotKey h)),
     (''podUID'', JStr (HPodUID h)), (''containerName'', JStr (HContainerName h)),
     (''volumeName'', JStr (HVolumeName h)), (''pvcMountPath'', JStr (HPVCMountPath h))]"

definition zeroHandoff :: PersistentSpecialHandoff where
  "zeroHandoff = \<lparr>HVersion = 0, HSnapshotKey = [], HPodUID = [], HContainerName = [], HVolumeName = [],
     HPVCMountPath = []\<rparr>"

definition handoffField :: "string \<Rightarrow> json \<Rightarrow> PersistentSpecialHandoff \<Rightarrow> PersistentSpecialHandoff option" where
  "handoffField k v h =
     (if fieldMatch ''version'' k then map_option (\<lambda>i. h\<lparr>HVersion := i\<rparr>) (setInt v (HVersion h))
      else if fieldMatch ''snapshotKey'' k then map_option (\<lambda>s. h\<lparr>HSnapshotKey := s\<rparr>) (setString v (HSnapshotKey h))
      else if fieldMatch ''podUID'' k then map_option (\<lambda>s. h\<lparr>HPodUID := s\<rparr>) (setString v (HPodUID h))
      else if fieldMatch ''containerName'' k then map_option (\<lambda>s. h\<lparr>HContainerName := s\<rparr>) (setString v (HContainerName h))
      else if fieldMatch ''volumeName'' k then map_option (\<lambda>s. h\<lparr>HVolumeName := s\<rparr>) (setString v (HVolumeName h))
      else if fieldMatch ''pvcMountPath'' k then map_option (\<lambda>s. h\<lparr>HPVCMountPath := s\<rparr>) (setString v (HPVCMountPath h))
      else Some h)"

definition handoffPath :: "string \<Rightarrow> string \<Rightarrow> string" where
  "handoffPath root snapshotKey = JoinPath [root, sha256hex snapshotKey @ ''.json'']"

section \<open>Operations\<close>

text \<open>
  \<open>os.CreateTemp(dir, pre)\<close>: the first of the random names that is free, at most 10000 of them.
  The random numbers are an argument.
\<close>

definition tempName :: "string \<Rightarrow> string \<Rightarrow> nat \<Rightarrow> string" where
  "tempName dir pre r =
     (if dir \<noteq> [] \<and> last dir = sep then dir @ pre @ dec r else dir @ sep # pre @ dec r)"

fun createTemp :: "string \<Rightarrow> string \<Rightarrow> nat list \<Rightarrow> fs \<Rightarrow> (errno, fs \<times> string) result" where
  "createTemp dir pre [] fs = Inl EEXIST"
| "createTemp dir pre (r # rs) fs =
     (case writeNewFile 384 [] (tempName dir pre r) fs of
        Inr fs' \<Rightarrow> Inr (fs', tempName dir pre r)
      | Inl EEXIST \<Rightarrow> createTemp dir pre rs fs
      | Inl e \<Rightarrow> Inl e)"

definition handoffComplete :: "PersistentSpecialHandoff \<Rightarrow> bool" where
  "handoffComplete h \<longleftrightarrow> HVersion h = PersistentSpecialHandoffVersion \<and> HSnapshotKey h \<noteq> [] \<and> HPodUID h \<noteq> [] \<and>
     HContainerName h \<noteq> [] \<and> HVolumeName h \<noteq> [] \<and> HPVCMountPath h \<noteq> []"

text \<open>The deferred \<open>os.Remove\<close>, whose error is ignored.\<close>

definition removeQuietly :: "string \<Rightarrow> fs \<Rightarrow> fs" where
  "removeQuietly p fs = (case Remove p fs of Inl _ \<Rightarrow> fs | Inr fs' \<Rightarrow> fs')"

text \<open>What happens between creating the temporary file and the deferred removal.\<close>

definition commitTemp :: "string \<Rightarrow> string \<Rightarrow> string \<Rightarrow> fs \<Rightarrow> fs \<times> rootfs_error option" where
  "commitTemp tmpName data target fs =
     (case Chmod 384 tmpName fs of
        Inl e \<Rightarrow> (fs, Some (ErrOs ''chmod persistent special handoff'' e))
      | Inr fs1 \<Rightarrow>
          (case setContent data tmpName fs1 of
             Inl e \<Rightarrow> (fs1, Some (ErrOs ''write persistent special handoff'' e))
           | Inr fs2 \<Rightarrow>
               (case RenameFile tmpName target fs2 of
                  Inl e \<Rightarrow> (fs2, Some (ErrOs ''commit persistent special handoff'' e))
                | Inr fs3 \<Rightarrow> (fs3, None))))"

definition handoffWrite ::
  "string option \<Rightarrow> nat list \<Rightarrow> string \<Rightarrow> PersistentSpecialHandoff \<Rightarrow> fs \<Rightarrow> fs \<times> rootfs_error option" where
  "handoffWrite ctxErr rnds root h fs =
     (case ctxErr of
        Some e \<Rightarrow> (fs, Some (ErrContext e))
      | None \<Rightarrow>
          if \<not> handoffComplete h then (fs, Some ErrHandoffIncomplete)
          else (case MkdirAll 448 root fs of
            Inl e \<Rightarrow> (fs, Some (ErrOs ''create persistent special handoff directory'' e))
          | Inr fs1 \<Rightarrow>
              (case Chmod 448 root fs1 of
                 Inl e \<Rightarrow> (fs1, Some (ErrOs ''chmod persistent special handoff directory'' e))
               | Inr fs2 \<Rightarrow>
                   (case createTemp root ''.handoff-'' rnds fs2 of
                      Inl e \<Rightarrow> (fs2, Some (ErrOs ''create persistent special handoff'' e))
                    | Inr (fs3, tmpName) \<Rightarrow>
                        (let (fs4, err) = commitTemp tmpName (printJson (handoffJson h))
                               (handoffPath root (HSnapshotKey h)) fs3
                         in (removeQuietly tmpName fs4, err))))))"

definition handoffRemove :: "string option \<Rightarrow> string \<Rightarrow> string \<Rightarrow> fs \<Rightarrow> fs \<times> rootfs_error option" where
  "handoffRemove ctxErr root snapshotKey fs =
     (case ctxErr of
        Some e \<Rightarrow> (fs, Some (ErrContext e))
      | None \<Rightarrow>
          if snapshotKey = [] then (fs, None)
          else (case Remove (handoffPath root snapshotKey) fs of
            Inr fs' \<Rightarrow> (fs', None)
          | Inl ENOENT \<Rightarrow> (fs, None)
          | Inl e \<Rightarrow> (fs, Some (ErrOs ''remove persistent special handoff'' e))))"

text \<open>What a reader of the store sees for a key.\<close>

definition decodeHandoff :: "string \<Rightarrow> PersistentSpecialHandoff option" where
  "decodeHandoff s = Option.bind (parseJson s) (decodeStruct handoffField zeroHandoff)"

definition readHandoff :: "string \<Rightarrow> fs \<Rightarrow> string \<Rightarrow> PersistentSpecialHandoff option" where
  "readHandoff root fs key =
     (case ReadFile fs (handoffPath root key) of Inl _ \<Rightarrow> None | Inr s \<Rightarrow> decodeHandoff s)"

section \<open>The directory of the store\<close>

text \<open>
  The store's root is a clean absolute path, no link lies on the way to it, and no entry of it is a
  link: this is what the store keeps, and what makes its file names mean what they say.
\<close>

definition storeInv :: "string \<Rightarrow> fs \<Rightarrow> bool" where
  "storeInv root fs \<longleftrightarrow> IsAbs root \<and> Clean root = root \<and> fsWF fs \<and> noLinks fs [] (comps root) \<and>
     (\<forall>c t. inodeAt fs (comps root @ [c]) \<noteq> Some (ILink t))"

definition plainName :: "string \<Rightarrow> bool" where
  "plainName c \<longleftrightarrow> c \<noteq> [] \<and> c \<noteq> dot \<and> c \<noteq> dotdot \<and> sep \<notin> set c"

lemma rootAt_top: "rootAt fs [] []"
  by (simp add: rootAt_def inodeAt_def)

lemma storeInvD:
  assumes "storeInv root fs"
  shows "IsAbs root" "Clean root = root" "fsWF fs" "noLinks fs [] (comps root)" "noLinks fs [] (comps root @ [c])"
    "normComps True (comps root)"
  using assms comps_norm [of root] by (simp_all add: storeInv_def)

lemma entry_norm:
  "storeInv root fs \<Longrightarrow> plainName c \<Longrightarrow> normComps True (comps root @ [c])"
  using normComps_snoc_name [of True "comps root" c] comps_norm [of root]
  by (simp add: storeInv_def plainName_def)

lemma resolve_entry:
  assumes "storeInv root fs" "plainName c"
  shows "resolve fs f (absPathOf (comps root @ [c])) = Inr q \<longleftrightarrow> q = comps root @ [c] \<and> dirPath fs [] (comps root)"
  using resolve_below [OF rootAt_top, of "comps root @ [c]" fs f q] entry_norm [OF assms] storeInvD(5) [OF assms(1)]
  by simp

lemma resolve_root:
  assumes "storeInv root fs" "dirPath fs [] (comps root)"
  shows "resolve fs f root = Inr (comps root)"
proof -
  have r: "root = absPathOf (comps root)" by (rule clean_absPathOf [OF storeInvD(1,2) [OF assms(1)]])
  have "resolve fs f (absPathOf (comps root)) = Inr (comps root)"
  proof (cases "comps root" rule: rev_cases)
    case Nil
    show ?thesis by (simp add: Nil resolve_def rawComps_abs)
  next
    case (snoc cs c)
    with resolve_below [OF rootAt_top, of "comps root" fs f] storeInvD [OF assms(1)] assms(2)
    show ?thesis by simp
  qed
  with r show ?thesis by simp
qed

text \<open>Changing one entry with nothing below it keeps the invariant.\<close>

lemma dirPath_cong:
  "(\<And>zs. prefix zs cs \<Longrightarrow> zs \<noteq> [] \<Longrightarrow> inodeAt fs' (cur @ zs) = inodeAt fs (cur @ zs)) \<Longrightarrow>
   dirPath fs' cur cs = dirPath fs cur cs \<and> noLinks fs' cur cs = noLinks fs cur cs"
proof (induction cs arbitrary: cur)
  case (Cons c cs)
  have "inodeAt fs' (cur @ [c]) = inodeAt fs (cur @ [c])" using Cons.prems [of "[c]"] by simp
  moreover have "inodeAt fs' ((cur @ [c]) @ zs) = inodeAt fs ((cur @ [c]) @ zs)" if "prefix zs cs" for zs
    using Cons.prems [of "c # zs"] that by simp
  ultimately show ?case using Cons.IH [of "cur @ [c]"] by simp
qed simp

lemma entry_change:
  assumes "storeInv root fs" "dirPath fs [] (comps root)" "fmlookup fs' [] = None"
    and old: "\<And>d. inodeAt fs (comps root @ [c, d]) = None"
    and new: "\<And>t. inodeAt fs' (comps root @ [c]) \<noteq> Some (ILink t)"
    and other: "\<And>p. p \<noteq> comps root @ [c] \<Longrightarrow> inodeAt fs' p = inodeAt fs p"
  shows "storeInv root fs' \<and> dirPath fs' [] (comps root)"
proof -
  have same: "dirPath fs' [] (comps root) = dirPath fs [] (comps root) \<and>
      noLinks fs' [] (comps root) = noLinks fs [] (comps root)"
    by (rule dirPath_cong) (use other in \<open>auto simp: prefix_def\<close>)
  have "fsWF fs'"
    unfolding fsWF_def
  proof (intro conjI allI impI)
    fix p i
    assume p: "fmlookup fs' p = Some i"
    then have ne: "p \<noteq> []" using assms(3) by auto
    then obtain q d where q: "p = q @ [d]" by (cases p rule: rev_cases) auto
    show "\<exists>m. inodeAt fs' (butlast p) = Some (IDir m)"
    proof (cases "p = comps root @ [c]")
      case True
      have "\<exists>m. inodeAt fs' ([] @ comps root) = Some (IDir m)"
      proof (cases "comps root = []")
        case False
        then show ?thesis using dirPath_last [of fs' "[]"] same assms(2) by blast
      qed (simp add: inodeAt_def)
      with True show ?thesis by simp
    next
      case False
      then have "inodeAt fs p = Some i" using other [OF False] p ne by (simp add: inodeAt_def)
      then obtain m where m: "inodeAt fs q = Some (IDir m)"
        using parent_dir [OF storeInvD(3) [OF assms(1)]] q by blast
      have "q \<noteq> comps root @ [c]" using old [of d] \<open>inodeAt fs p = Some i\<close> q by auto
      with m other q show ?thesis by auto
    qed
  qed (rule assms(3))
  with same assms(1,2) new other show ?thesis
    unfolding storeInv_def by (metis append1_eq_conv)
qed

lemma inodeAt_drop: "q \<noteq> [] \<Longrightarrow> inodeAt (fmdrop q fs) p = (if p = q then None else inodeAt fs p)"
  by (auto simp: inodeAt_def)

lemma fsWF_top: "fsWF fs \<Longrightarrow> fmlookup fs [] = None"
  by (simp add: fsWF_def)

lemma entry_leaf:
  assumes "storeInv root fs" "\<And>m. inodeAt fs (comps root @ [c]) \<noteq> Some (IDir m)"
  shows "inodeAt fs (comps root @ [c, d]) = None"
  using absent_not_dir [OF storeInvD(3) [OF assms(1)], of "comps root @ [c]" d] assms(2) by simp

lemma entry_upd:
  assumes "storeInv root fs" "dirPath fs [] (comps root)" "\<And>m. inodeAt fs (comps root @ [c]) \<noteq> Some (IDir m)"
  shows "storeInv root (fmupd (comps root @ [c]) (IFile m s) fs) \<and>
    dirPath (fmupd (comps root @ [c]) (IFile m s) fs) [] (comps root)"
  by (rule entry_change [OF assms(1,2) _ entry_leaf [OF assms(1,3)]])
    (use storeInvD(3) [OF assms(1)] in \<open>auto simp: fsWF_top inodeAt_upd\<close>)

lemma entry_drop:
  assumes "storeInv root fs" "dirPath fs [] (comps root)" "\<And>d. inodeAt fs (comps root @ [c, d]) = None"
  shows "storeInv root (fmdrop (comps root @ [c]) fs) \<and> dirPath (fmdrop (comps root @ [c]) fs) [] (comps root)"
  by (rule entry_change [OF assms(1,2) _ assms(3)])
    (use storeInvD(3) [OF assms(1)] in \<open>auto simp: fsWF_top inodeAt_drop\<close>)

lemma mkdirAllRev_top:
  "mkdirAllRev perm rcs fs = Inr fs' \<Longrightarrow> fmlookup fs [] = None \<Longrightarrow> fmlookup fs' [] = None"
proof (induction rcs arbitrary: fs')
  case (Cons c rcs)
  let ?p = "absPathOf (rev rcs @ [c])"
  have new: "Mkdir perm ?p fs1 = Inr fs2 \<Longrightarrow> fmlookup fs1 [] = None \<Longrightarrow> fmlookup fs2 [] = None" for fs1 fs2
    by (auto simp: Mkdir_def newEntry_def inodeAt_def rbind_Inr_iff split: if_splits)
  show ?case
  proof (cases "Stat fs ?p")
    case (Inl e)
    with Cons.prems(1) obtain fs1 where fs1: "mkdirAllRev perm rcs fs = Inr fs1"
      and rest: "(case Mkdir perm ?p fs1 of Inr fs2 \<Rightarrow> Inr fs2
               | Inl e \<Rightarrow> (case Lstat fs1 ?p of Inr i \<Rightarrow> if isDirNode i then Inr fs1 else Inl e
                   | Inl _ \<Rightarrow> Inl e)) = Inr fs'"
      by (auto simp: Let_def rbind_Inr_iff)
    have "Mkdir perm ?p fs1 = Inr fs' \<or> fs' = fs1"
      using rest by (cases "Mkdir perm ?p fs1") (auto split: sum.splits if_splits)
    with fs1 Cons.IH Cons.prems(2) new show ?thesis by metis
  qed (use Cons.prems in \<open>auto simp: Let_def split: if_splits\<close>)
qed simp

text \<open>Creating directories keeps the tree well-formed.\<close>

lemma mkdirAllRev_WF:
  assumes "rootAt fs rs R" "normComps True (rs @ ys)" "noLinks fs R ys" "mkdirAllRev perm (rev (rs @ ys)) fs = Inr fs'"
    and wf: "fsWF fs"
  shows "fsWF fs'"
  unfolding fsWF_def
proof (intro conjI allI impI)
  have ch: "extends fs fs'" "onlyBelow R ys fs fs'" "dirPath fs' R ys"
    using mkdirAllRev_below [OF assms(1-4)] by auto
  show top: "fmlookup fs' [] = None" by (rule mkdirAllRev_top [OF assms(4) fsWF_top [OF wf]])
  fix p i
  assume p: "fmlookup fs' p = Some i"
  then have "p \<noteq> []" using top by auto
  show "\<exists>m. inodeAt fs' (butlast p) = Some (IDir m)"
  proof (cases "inodeAt fs p = None")
    case True
    with p \<open>p \<noteq> []\<close> have "inodeAt fs' p \<noteq> inodeAt fs p" by (simp add: inodeAt_def)
    then obtain zs where zs: "zs \<noteq> []" "prefix zs ys" "p = R @ zs"
      using ch(2) unfolding onlyBelow_def by blast
    then obtain us where "ys = zs @ us" by (auto simp: prefix_def)
    then have d: "dirPath fs' R (butlast zs)"
      using ch(3) zs(1) by (metis append_butlast_last_id dirPath_append)
    obtain k where k: "inodeAt fs' R = Some (IDir k)"
      using rootAt_extends [OF assms(1) ch(1)] by (auto simp: rootAt_def)
    show ?thesis
      using dirPath_last [OF d] k zs(1,3) by (cases "butlast zs = []") (auto simp: butlast_append)
  next
    case False
    then obtain j where "inodeAt fs p = Some j" by blast
    then obtain m where "inodeAt fs (butlast p) = Some (IDir m)"
      using parent_dir [OF wf, of "butlast p" "last p"] \<open>p \<noteq> []\<close> by auto
    with ch(1) show ?thesis by (auto simp: extends_def)
  qed
qed

lemma MkdirAll_store:
  assumes "storeInv root fs" "MkdirAll perm root fs = Inr fs'"
  shows "storeInv root fs' \<and> dirPath fs' [] (comps root) \<and> (\<forall>c. inodeAt fs' (comps root @ [c]) = inodeAt fs (comps root @ [c]))"
proof -
  note D = storeInvD [OF assms(1)]
  have m: "mkdirAllRev perm (rev ([] @ comps root)) fs = Inr fs'" using assms(2) by (simp add: MkdirAll_def)
  have ch: "extends fs fs'" "onlyBelow [] (comps root) fs fs'" "dirPath fs' [] (comps root)"
    using mkdirAllRev_below [OF rootAt_top _ D(4) m] D(6) by auto
  have wf: "fsWF fs'" using mkdirAllRev_WF [OF rootAt_top _ D(4) m D(3)] D(6) by simp
  have same: "inodeAt fs' (comps root @ [c]) = inodeAt fs (comps root @ [c])" for c
  proof (rule ccontr)
    assume "\<not> ?thesis"
    then obtain zs where "prefix zs (comps root)" "comps root @ [c] = [] @ zs"
      using ch(2) unfolding onlyBelow_def by blast
    then show False by (auto simp: prefix_def)
  qed
  with wf ch(3) assms(1) show ?thesis by (simp add: storeInv_def dirPath_noLinks)
qed

lemma Chmod_store:
  assumes "storeInv root fs" "dirPath fs [] (comps root)" "Chmod m root fs = Inr fs'"
  shows "storeInv root fs' \<and> dirPath fs' [] (comps root) \<and> (\<forall>c. inodeAt fs' (comps root @ [c]) = inodeAt fs (comps root @ [c]))"
proof (cases "comps root = []")
  case True
  with assms resolve_root [OF assms(1,2)] have "fs' = fs" by (auto simp: Chmod_def split: option.splits)
  with assms show ?thesis by simp
next
  case False
  obtain k where k: "inodeAt fs (comps root) = Some (IDir k)" using dirPath_last [OF assms(2) False] by auto
  with assms(3) resolve_root [OF assms(1,2)] False have fs': "fs' = fmupd (comps root) (IDir m) fs"
    by (simp add: Chmod_def)
  have isdir: "(\<exists>j. inodeAt fs' p = Some (IDir j)) = (\<exists>j. inodeAt fs p = Some (IDir j))" for p
    using k False by (simp add: fs' inodeAt_upd)
  have link: "(inodeAt fs' p = Some (ILink t)) = (inodeAt fs p = Some (ILink t))" for p t
    using k False by (simp add: fs' inodeAt_upd)
  have "dirPath fs' cur cs = dirPath fs cur cs" "noLinks fs' cur cs = noLinks fs cur cs" for cur cs
    by (induction cs arbitrary: cur) (simp_all add: isdir link)
  moreover have "fsWF fs'"
    unfolding fsWF_def isdir
  proof (intro conjI allI impI)
    show "fmlookup fs' [] = None" using fsWF_top [OF storeInvD(3) [OF assms(1)]] False by (simp add: fs')
    fix p i
    assume "fmlookup fs' p = Some i"
    then obtain j where "fmlookup fs p = Some j"
      using k False by (cases "p = comps root") (auto simp: fs' inodeAt_def)
    then show "\<exists>j. inodeAt fs (butlast p) = Some (IDir j)"
      using storeInvD(3) [OF assms(1)] unfolding fsWF_def by blast
  qed
  ultimately show ?thesis using assms(1,2) False by (simp add: storeInv_def link) (simp add: fs' inodeAt_upd)
qed

section \<open>File names\<close>

definition handoffName :: "string \<Rightarrow> string" where
  "handoffName key = sha256hex key @ ''.json''"

definition tmpEntry :: "nat \<Rightarrow> string" where
  "tmpEntry r = ''.handoff-'' @ dec r"

lemma plain_handoffName: "plainName (handoffName key)"
proof -
  have "set (sha256hex key) \<subseteq> hexChars" by (rule sha256hex_chars)
  then have "sep \<notin> set (sha256hex key)" by (auto simp: hexChars_def)
  moreover have "length (handoffName key) = 69" by (simp add: handoffName_def sha256hex_length)
  ultimately show ?thesis by (auto simp: plainName_def handoffName_def dot_def dotdot_def)
qed

lemma plain_tmpEntry: "plainName (tmpEntry r)"
proof -
  have "sep \<notin> set (dec r)" using dec_digits by (fastforce simp: isDigit_def)
  then show ?thesis by (auto simp: plainName_def tmpEntry_def dot_def dotdot_def)
qed

lemma tmp_not_handoff: "tmpEntry r \<noteq> handoffName key"
proof
  assume eq: "tmpEntry r = handoffName key"
  have "sha256hex key \<noteq> []" using sha256hex_length [of key] by auto
  then have "hd (handoffName key) = hd (sha256hex key)" "hd (sha256hex key) \<in> hexChars"
    using sha256hex_chars [of key] hd_in_set [of "sha256hex key"] by (auto simp: handoffName_def)
  with eq have "hd (tmpEntry r) \<in> hexChars" by simp
  then show False by (simp add: tmpEntry_def hexChars_def)
qed

lemma handoffPath_abs:
  assumes "storeInv root fs"
  shows "handoffPath root key = absPathOf (comps root @ [handoffName key])"
proof -
  have ne: "root \<noteq> []" using storeInvD(1) [OF assms] by auto
  have pl: "handoffName key \<noteq> []" "handoffName key \<noteq> dot" "handoffName key \<noteq> dotdot" "sep \<notin> set (handoffName key)"
    using plain_handoffName [of key] by (auto simp: plainName_def)
  from comps_JoinPath_name [OF ne pl] show ?thesis
    using clean_absPathOf [of "JoinPath [root, handoffName key]"] storeInvD(1) [OF assms] ne pl(1)
    by (simp add: handoffPath_def JoinPath2 flip: handoffName_def)
qed

lemma Join_snoc: "cs \<noteq> [] \<Longrightarrow> Join d (cs @ [c]) = Join d cs @ d # c"
  by (induction cs rule: induct_list012) auto

lemma last_Join: "cs \<noteq> [] \<Longrightarrow> last cs \<noteq> [] \<Longrightarrow> last (Join d cs) = last (last cs) \<and> Join d cs \<noteq> []"
  by (induction cs rule: induct_list012) auto

lemma tempName_abs:
  assumes "storeInv root fs"
  shows "tempName root ''.handoff-'' r = absPathOf (comps root @ [tmpEntry r])"
proof (cases "comps root = []")
  case True
  then have "root = ''/''" using clean_absPathOf [OF storeInvD(1,2) [OF assms]] by (simp add: absPathOf_def unComps_def)
  then have "tempName root ''.handoff-'' r = sep # tmpEntry r" by (simp add: tempName_def tmpEntry_def)
  then show ?thesis unfolding True by (simp add: absPathOf_def unComps_def)
next
  case False
  have root: "root = sep # Join sep (comps root)"
    using clean_absPathOf [OF storeInvD(1,2) [OF assms]] by (simp add: absPathOf_def unComps_def)
  have "last (comps root) \<noteq> []" "sep \<notin> set (last (comps root))"
    using comps_elem [of "last (comps root)" root] False by auto
  then have "last (Join sep (comps root)) \<noteq> sep" "Join sep (comps root) \<noteq> []"
    using last_Join [OF False] by (auto dest: last_in_set)
  then have "last root \<noteq> sep" using root by (metis last_ConsR)
  then have "tempName root ''.handoff-'' r = root @ sep # tmpEntry r" by (simp add: tempName_def tmpEntry_def)
  also have "\<dots> = absPathOf (comps root @ [tmpEntry r])"
    using root False by (simp add: absPathOf_def unComps_def Join_snoc)
  finally show ?thesis .
qed

section \<open>What a reader sees\<close>

lemma readHandoff_view:
  assumes "storeInv root fs"
  shows "readHandoff root fs key =
    (case inodeAt fs (comps root @ [handoffName key]) of Some (IFile m s) \<Rightarrow> decodeHandoff s | _ \<Rightarrow> None)"
proof (cases "dirPath fs [] (comps root)")
  case True
  then have "resolve fs True (handoffPath root key) = Inr (comps root @ [handoffName key])"
    using resolve_entry [OF assms plain_handoffName] by (simp add: handoffPath_abs [OF assms])
  then show ?thesis
    by (auto simp: readHandoff_def ReadFile_def Stat_def statWith_def split: option.splits inode.splits)
next
  case False
  then have "\<not> is_ok (resolve fs True (handoffPath root key))"
    using resolve_entry [OF assms plain_handoffName] by (auto simp: handoffPath_abs [OF assms] is_ok_iff)
  then obtain e where "resolve fs True (handoffPath root key) = Inl e" by (auto simp: is_ok_def split: sum.splits)
  then have "readHandoff root fs key = None" by (simp add: readHandoff_def ReadFile_def Stat_def statWith_def)
  moreover have "\<nexists>m. inodeAt fs ([] @ comps root) = Some (IDir m)"
    using dirPath_closed [OF storeInvD(3) [OF assms], of "[]" "comps root"] False by auto
  then have "inodeAt fs (comps root @ [handoffName key]) = None"
    using absent_not_dir [OF storeInvD(3) [OF assms], of "comps root"] by simp
  ultimately show ?thesis by simp
qed

lemma readHandoff_cong:
  assumes "storeInv root fs" "storeInv root fs'"
    and "inodeAt fs' (comps root @ [handoffName key]) = inodeAt fs (comps root @ [handoffName key])"
  shows "readHandoff root fs' key = readHandoff root fs key"
  using assms by (simp add: readHandoff_view)

section \<open>The store's operations\<close>

lemma createTemp_store:
  assumes "storeInv root fs" "dirPath fs [] (comps root)" "createTemp root ''.handoff-'' rnds fs = Inr (fs', tmp)"
  obtains r where "tmp = absPathOf (comps root @ [tmpEntry r])" "inodeAt fs (comps root @ [tmpEntry r]) = None"
    "fs' = fmupd (comps root @ [tmpEntry r]) (IFile 384 []) fs"
proof -
  have res: "resolve fs False (absPathOf (comps root @ [tmpEntry r])) = Inr (comps root @ [tmpEntry r])" for r
    using resolve_entry [OF assms(1) plain_tmpEntry] assms(2) by simp
  have "\<exists>r. tmp = absPathOf (comps root @ [tmpEntry r]) \<and> inodeAt fs (comps root @ [tmpEntry r]) = None \<and>
      fs' = fmupd (comps root @ [tmpEntry r]) (IFile 384 []) fs"
    using assms(3)
  proof (induction rnds)
    case (Cons r rnds)
    then show ?case
      by (cases "inodeAt fs (comps root @ [tmpEntry r])")
        (auto simp: writeNewFile_def newEntry_def res tempName_abs [OF assms(1)])
  qed simp
  with that show thesis by blast
qed

lemma commitTemp_store:
  assumes inv: "storeInv root fs" "dirPath fs [] (comps root)" and none: "inodeAt fs (comps root @ [tmpEntry r]) = None"
    and c: "commitTemp (absPathOf (comps root @ [tmpEntry r])) data (handoffPath root key)
      (fmupd (comps root @ [tmpEntry r]) (IFile 384 []) fs) = (fs4, err)"
  shows "(err = None \<longleftrightarrow> (\<nexists>m. inodeAt fs (comps root @ [handoffName key]) = Some (IDir m))) \<and>
    storeInv root (removeQuietly (absPathOf (comps root @ [tmpEntry r])) fs4) \<and>
    (\<forall>c. inodeAt (removeQuietly (absPathOf (comps root @ [tmpEntry r])) fs4) (comps root @ [c]) =
       (if err = None \<and> c = handoffName key then Some (IFile 384 data) else inodeAt fs (comps root @ [c])))"
proof -
  let ?D = "comps root" let ?q = "?D @ [tmpEntry r]" let ?r = "?D @ [handoffName key]"
  let ?p = "absPathOf ?q"
  have isf: "storeInv root (fmupd ?q (IFile m s) fs)" "dirPath (fmupd ?q (IFile m s) fs) [] ?D" for m s
    using entry_upd [OF inv, where c = "tmpEntry r" and m = m and s = s] none by simp_all
  have rt: "resolve (fmupd ?q (IFile m s) fs) f ?p = Inr ?q" for m s f
    using resolve_entry [OF isf(1) plain_tmpEntry] isf(2) by simp
  have rh: "resolve (fmupd ?q (IFile m s) fs) f (handoffPath root key) = Inr ?r" for m s f
    using resolve_entry [OF isf(1) plain_handoffName] isf(2) by (simp add: handoffPath_abs [OF inv(1)])
  let ?fs2 = "fmupd ?q (IFile 384 data) fs"
  have q: "inodeAt (fmupd ?q (IFile m s) fs) ?q = Some (IFile m s)" for m s by (simp add: inodeAt_upd)
  have c': "(fs4, err) = (case RenameFile ?p (handoffPath root key) ?fs2 of
      Inl e \<Rightarrow> (?fs2, Some (ErrOs ''commit persistent special handoff'' e)) | Inr fs3 \<Rightarrow> (fs3, None))"
    using c by (simp add: commitTemp_def Chmod_def setContent_def rt q)
  show ?thesis
  proof (cases "\<exists>m. inodeAt fs ?r = Some (IDir m)")
    case True
    then have "RenameFile ?p (handoffPath root key) ?fs2 = Inl EISDIR"
      using tmp_not_handoff [of r key] by (auto simp: RenameFile_def rt rh inodeAt_upd)
    with c' have r4: "fs4 = ?fs2" "err \<noteq> None" by simp_all
    have "Remove ?p ?fs2 = Inr (fmdrop ?q ?fs2)" by (simp add: Remove_def rt q)
    then have "removeQuietly ?p fs4 = fmdrop ?q ?fs2" by (simp add: removeQuietly_def r4)
    moreover have "storeInv root (fmdrop ?q ?fs2)" using entry_drop [OF isf entry_leaf [OF isf(1)]] by (simp add: q)
    ultimately show ?thesis using r4(2) none True by (auto simp: inodeAt_drop inodeAt_upd)
  next
    case False
    let ?fs3 = "fmupd ?r (IFile 384 data) (fmdrop ?q ?fs2)"
    have "RenameFile ?p (handoffPath root key) ?fs2 = Inr ?fs3"
      using False tmp_not_handoff [of r key]
      by (auto simp: RenameFile_def rt rh inodeAt_upd split: option.splits inode.splits)
    with c' have r4: "fs4 = ?fs3" "err = None" by simp_all
    have d: "storeInv root (fmdrop ?q ?fs2) \<and> dirPath (fmdrop ?q ?fs2) [] ?D"
      by (rule entry_drop [OF isf entry_leaf [OF isf(1)]]) (simp add: q)
    have s3: "storeInv root ?fs3 \<and> dirPath ?fs3 [] ?D"
      by (rule entry_upd) (use d False in \<open>auto simp: inodeAt_drop inodeAt_upd split: if_splits\<close>)
    have "resolve ?fs3 False ?p = Inr ?q" using resolve_entry [OF _ plain_tmpEntry] s3 by blast
    moreover have "inodeAt ?fs3 ?q = None" using tmp_not_handoff [of r key] by (simp add: inodeAt_upd inodeAt_drop)
    ultimately have "removeQuietly ?p fs4 = ?fs3" by (simp add: removeQuietly_def r4 Remove_def)
    with s3 none r4(2) False show ?thesis by (auto simp: inodeAt_drop inodeAt_upd)
  qed
qed

lemma handoffWrite_store:
  assumes "storeInv root fs" "handoffWrite ctxErr rnds root h fs = (fs', err)"
  shows "storeInv root fs' \<and> (\<forall>c. inodeAt fs' (comps root @ [c]) =
    (if err = None \<and> c = handoffName (HSnapshotKey h) then Some (IFile 384 (printJson (handoffJson h)))
     else inodeAt fs (comps root @ [c]))) \<and> (err = None \<longrightarrow> handoffComplete h)"
proof -
  consider (early) "fs' = fs" "err \<noteq> None"
    | (dir) fs1 where "MkdirAll 448 root fs = Inr fs1" "fs' = fs1" "err \<noteq> None"
    | (mode) fs1 fs2 where "MkdirAll 448 root fs = Inr fs1" "Chmod 448 root fs1 = Inr fs2" "fs' = fs2" "err \<noteq> None"
    | (temp) fs1 fs2 fs3 tmp fs4 where "MkdirAll 448 root fs = Inr fs1" "Chmod 448 root fs1 = Inr fs2"
      "createTemp root ''.handoff-'' rnds fs2 = Inr (fs3, tmp)" "handoffComplete h"
      "commitTemp tmp (printJson (handoffJson h)) (handoffPath root (HSnapshotKey h)) fs3 = (fs4, err)"
      "fs' = removeQuietly tmp fs4"
    using assms(2) by (auto simp: handoffWrite_def split: option.splits if_splits sum.splits prod.splits)
  then show ?thesis
  proof cases
    case temp
    have s2: "storeInv root fs2" "dirPath fs2 [] (comps root)"
      "\<And>c. inodeAt fs2 (comps root @ [c]) = inodeAt fs (comps root @ [c])"
    proof -
      from MkdirAll_store [OF assms(1) temp(1)] have s1: "storeInv root fs1" "dirPath fs1 [] (comps root)"
        "\<And>c. inodeAt fs1 (comps root @ [c]) = inodeAt fs (comps root @ [c])" by auto
      from Chmod_store [OF s1(1,2) temp(2)] s1(3)
      show "storeInv root fs2" "dirPath fs2 [] (comps root)"
        "\<And>c. inodeAt fs2 (comps root @ [c]) = inodeAt fs (comps root @ [c])" by simp_all
    qed
    from createTemp_store [OF s2(1,2) temp(3)] obtain r where r: "tmp = absPathOf (comps root @ [tmpEntry r])"
      "inodeAt fs2 (comps root @ [tmpEntry r]) = None" "fs3 = fmupd (comps root @ [tmpEntry r]) (IFile 384 []) fs2" .
    from commitTemp_store [OF s2(1,2) r(2) temp(5) [unfolded r(1,3)]] show ?thesis
      using temp(4,6) s2(3) by (auto simp: r(1))
  next
    case early
    with assms(1) show ?thesis by auto
  next
    case dir
    with MkdirAll_store [OF assms(1) dir(1)] show ?thesis by auto
  next
    case mode
    from MkdirAll_store [OF assms(1) mode(1)] have "storeInv root fs1" "dirPath fs1 [] (comps root)"
      "\<And>c. inodeAt fs1 (comps root @ [c]) = inodeAt fs (comps root @ [c])" by auto
    with Chmod_store [OF this(1,2) mode(2)] mode(3,4) show ?thesis by auto
  qed
qed

lemma fieldMatch_length: "length a \<noteq> length b \<Longrightarrow> \<not> fieldMatch a b"
  unfolding fieldMatch_def by (metis length_map)

lemma handoff_fields:
  "\<not> fieldMatch ''version'' ''snapshotKey''" "\<not> fieldMatch ''version'' ''podUID''" "\<not> fieldMatch ''version'' ''containerName''"
  "\<not> fieldMatch ''version'' ''volumeName''" "\<not> fieldMatch ''version'' ''pvcMountPath''"
  "\<not> fieldMatch ''snapshotKey'' ''podUID''" "\<not> fieldMatch ''snapshotKey'' ''containerName''"
  "\<not> fieldMatch ''snapshotKey'' ''volumeName''" "\<not> fieldMatch ''snapshotKey'' ''pvcMountPath''"
  "\<not> fieldMatch ''podUID'' ''containerName''" "\<not> fieldMatch ''podUID'' ''volumeName''" "\<not> fieldMatch ''podUID'' ''pvcMountPath''"
  "\<not> fieldMatch ''containerName'' ''volumeName''" "\<not> fieldMatch ''containerName'' ''pvcMountPath''"
  "\<not> fieldMatch ''volumeName'' ''pvcMountPath''"
  by (simp_all add: fieldMatch_length)

lemma fieldMatch_refl [simp]: "fieldMatch k k"
  by (simp add: fieldMatch_def)

lemma decodeHandoff_print:
  assumes "HVersion h = PersistentSpecialHandoffVersion"
  shows "decodeHandoff (printJson (handoffJson h)) = Some h"
proof -
  have "wfJson (handoffJson h)" by (auto simp: handoffJson_def numLit_def)
  moreover have "Atoi (Itoa (HVersion h)) = (HVersion h, None)"
    by (rule Atoi_Itoa) (simp_all add: assms PersistentSpecialHandoffVersion_def)
  ultimately show ?thesis
    by (simp add: decodeHandoff_def parseJson_printJson)
      (simp add: handoffJson_def decodeStruct_def handoffField_def handoff_fields setString_def setInt_def zeroHandoff_def)
qed

lemma children_none: "children fs q = {||} \<Longrightarrow> inodeAt fs (q @ [d]) = None"
proof (rule ccontr)
  assume c: "children fs q = {||}" and "inodeAt fs (q @ [d]) \<noteq> None"
  then have "q @ [d] |\<in>| fmdom fs" by (auto simp: inodeAt_def dest: fmdomI)
  then have "q @ [d] |\<in>| ffilter (\<lambda>p. p \<noteq> [] \<and> butlast p = q) (fmdom fs)" by simp
  then have "last (q @ [d]) |\<in>| children fs q" unfolding children_def by (rule fimageI)
  with c show False by simp
qed

lemma children_iff: "n |\<in>| children fs d \<longleftrightarrow> inodeAt fs (d @ [n]) \<noteq> None"
proof
  assume "n |\<in>| children fs d"
  then obtain p where "p |\<in>| fmdom fs" "p \<noteq> []" "butlast p = d" "n = last p" by (auto simp: children_def)
  then have "d @ [n] |\<in>| fmdom fs" by auto
  then show "inodeAt fs (d @ [n]) \<noteq> None" by (simp add: inodeAt_def fmdom_notI fmlookup_dom_iff)
next
  assume "inodeAt fs (d @ [n]) \<noteq> None"
  then have "d @ [n] |\<in>| ffilter (\<lambda>p. p \<noteq> [] \<and> butlast p = d) (fmdom fs)" by (auto simp: inodeAt_def dest: fmdomI)
  then have "last (d @ [n]) |\<in>| children fs d" unfolding children_def by (rule fimageI)
  then show "n |\<in>| children fs d" by simp
qed

lemma handoffRemove_store:
  assumes "storeInv root fs" "handoffRemove ctxErr root key fs = (fs', err)"
  shows "storeInv root fs' \<and> (err \<noteq> None \<longrightarrow> fs' = fs) \<and>
    (err = None \<and> key \<noteq> [] \<longrightarrow> inodeAt fs' (comps root @ [handoffName key]) = None)"
proof (cases "ctxErr \<noteq> None \<or> key = []")
  case True
  then show ?thesis using assms by (auto simp: handoffRemove_def split: option.splits if_splits)
next
  case False
  let ?q = "comps root @ [handoffName key]"
  have r: "resolve fs False (handoffPath root key) = Inr q \<longleftrightarrow> q = ?q \<and> dirPath fs [] (comps root)" for q
    using resolve_entry [OF assms(1) plain_handoffName] by (simp add: handoffPath_abs [OF assms(1)])
  show ?thesis
  proof (cases "dirPath fs [] (comps root)")
    case True
    with r have res: "resolve fs False (handoffPath root key) = Inr ?q" by simp
    show ?thesis
    proof (cases "inodeAt fs ?q")
      case None
      with False assms res show ?thesis by (auto simp: handoffRemove_def Remove_def)
    next
      case (Some i)
      show ?thesis
      proof (cases i)
        case (IDir m)
        show ?thesis
        proof (cases "children fs ?q = {||}")
          case True
          then have "fs' = fmdrop ?q fs" "err = None" using Some IDir False assms(2) res
            by (auto simp: handoffRemove_def Remove_def)
          moreover have "inodeAt fs (comps root @ [handoffName key, d]) = None" for d
            using children_none [OF True, of d] by simp
          then have "storeInv root (fmdrop ?q fs)"
            using entry_drop [OF assms(1) \<open>dirPath fs [] (comps root)\<close>] by blast
          ultimately show ?thesis by (simp add: inodeAt_drop)
        next
          case ne: False
          then have "fs' = fs" "err \<noteq> None" using Some IDir False assms(2) res
            by (auto simp: handoffRemove_def Remove_def)
          with assms(1) show ?thesis by auto
        qed
      next
        case (IFile m s)
        then have "fs' = fmdrop ?q fs" "err = None" using Some False assms(2) res
          by (auto simp: handoffRemove_def Remove_def)
        moreover have "storeInv root (fmdrop ?q fs)"
          using entry_drop [OF assms(1) True entry_leaf [OF assms(1)]] Some IFile by simp
        ultimately show ?thesis by (simp add: inodeAt_drop)
      next
        case (ILink t)
        with Some assms(1) show ?thesis by (simp add: storeInv_def)
      qed
    qed
  next
    case nd: False
    then have "inodeAt fs ?q = None"
      using absent_not_dir [OF storeInvD(3) [OF assms(1)], of "comps root"]
        dirPath_closed [OF storeInvD(3) [OF assms(1)], of "[]" "comps root"] by auto
    moreover have "fs' = fs"
      using nd False assms(2) r by (auto simp: handoffRemove_def Remove_def rbind_Inr_iff split: sum.splits errno.splits)
    ultimately show ?thesis using assms(1) by simp
  qed
qed

interpretation handoff_files: handoff_store "storeInv root" "handoffWrite ctxErr rnds root"
  "handoffRemove ctxErr root" "readHandoff root"
proof
  fix fs h fs' assume "storeInv root fs" "handoffWrite ctxErr rnds root h fs = (fs', None)"
  from handoffWrite_store [OF this] show "readHandoff root fs' (HSnapshotKey h) = Some h"
    by (simp add: readHandoff_view decodeHandoff_print handoffComplete_def)
next
  fix fs h fs' e k assume "storeInv root fs" "handoffWrite ctxErr rnds root h fs = (fs', Some e)"
  from handoffWrite_store [OF this] \<open>storeInv root fs\<close> show "readHandoff root fs' k = readHandoff root fs k"
    by (simp add: readHandoff_view)
next
  fix fs h fs' r assume "storeInv root fs" "handoffWrite ctxErr rnds root h fs = (fs', r)"
  from handoffWrite_store [OF this] show "storeInv root fs'" by blast
next
  fix fs k fs' assume "storeInv root fs" "handoffRemove ctxErr root k fs = (fs', None)" "k \<noteq> []"
  from handoffRemove_store [OF this(1,2)] this(3) show "readHandoff root fs' k = None"
    by (simp add: readHandoff_view)
next
  fix fs k fs' e assume "storeInv root fs" "handoffRemove ctxErr root k fs = (fs', Some e)"
  from handoffRemove_store [OF this] show "fs' = fs" by blast
next
  fix fs k fs' r assume "storeInv root fs" "handoffRemove ctxErr root k fs = (fs', r)"
  from handoffRemove_store [OF this] show "storeInv root fs'" by blast
qed

text \<open>Nothing but a failure of the file system makes a complete record's write fail.\<close>

lemma createTemp_succeeds:
  assumes "storeInv root fs" "dirPath fs [] (comps root)" "\<exists>r \<in> set rnds. inodeAt fs (comps root @ [tmpEntry r]) = None"
  shows "is_ok (createTemp root ''.handoff-'' rnds fs)"
  using assms(3)
proof (induction rnds)
  case (Cons r rnds)
  have "resolve fs False (absPathOf (comps root @ [tmpEntry r])) = Inr (comps root @ [tmpEntry r])"
    using resolve_entry [OF assms(1) plain_tmpEntry] assms(2) by simp
  with Cons show ?case
    by (cases "inodeAt fs (comps root @ [tmpEntry r])")
      (auto simp: writeNewFile_def newEntry_def tempName_abs [OF assms(1)])
qed simp

lemma handoffWrite_succeeds:
  assumes "storeInv root fs" "handoffComplete h" "is_ok (MkdirAll 448 root fs)"
    "\<exists>r \<in> set rnds. inodeAt fs (comps root @ [tmpEntry r]) = None"
    "\<nexists>m. inodeAt fs (comps root @ [handoffName (HSnapshotKey h)]) = Some (IDir m)"
  shows "snd (handoffWrite None rnds root h fs) = None"
proof -
  from assms(3) obtain fs1 where m: "MkdirAll 448 root fs = Inr fs1" by (auto simp: is_ok_iff)
  from MkdirAll_store [OF assms(1) m] have s1: "storeInv root fs1" "dirPath fs1 [] (comps root)"
    "\<And>c. inodeAt fs1 (comps root @ [c]) = inodeAt fs (comps root @ [c])" by auto
  obtain i where "inodeAt fs1 (comps root) = Some i"
    using dirPath_last [OF s1(2)] by (cases "comps root = []") (auto simp: inodeAt_def)
  with resolve_root [OF s1(1,2)] obtain fs2 where ch: "Chmod 448 root fs1 = Inr fs2" by (simp add: Chmod_def)
  from Chmod_store [OF s1(1,2) ch] s1(3) have s2: "storeInv root fs2" "dirPath fs2 [] (comps root)"
    "\<And>c. inodeAt fs2 (comps root @ [c]) = inodeAt fs (comps root @ [c])" by auto
  obtain fs3 tmp where ct: "createTemp root ''.handoff-'' rnds fs2 = Inr (fs3, tmp)"
  proof -
    have "is_ok (createTemp root ''.handoff-'' rnds fs2)"
      by (rule createTemp_succeeds [OF s2(1,2)]) (use assms(4) s2(3) in simp)
    with that show thesis by (auto simp: is_ok_iff)
  qed
  from createTemp_store [OF s2(1,2) ct] obtain r where r: "tmp = absPathOf (comps root @ [tmpEntry r])"
    "inodeAt fs2 (comps root @ [tmpEntry r]) = None" "fs3 = fmupd (comps root @ [tmpEntry r]) (IFile 384 []) fs2" .
  obtain fs4 err where c: "commitTemp tmp (printJson (handoffJson h)) (handoffPath root (HSnapshotKey h)) fs3 = (fs4, err)"
    by (cases "commitTemp tmp (printJson (handoffJson h)) (handoffPath root (HSnapshotKey h)) fs3")
  have "err = None" using commitTemp_store [OF s2(1,2) r(2) c [unfolded r(1,3)]] assms(5) s2(3) by auto
  with m ch ct c assms(2) show ?thesis by (simp add: handoffWrite_def)
qed


definition exampleHandoff :: PersistentSpecialHandoff where
  "exampleHandoff = \<lparr>HVersion = 1, HSnapshotKey = ''k8s.io/7/abc'', HPodUID = ''u'', HContainerName = ''app'',
     HVolumeName = ''data'', HPVCMountPath = ''/pvc''\<rparr>"

lemma storeInv_empty: "IsAbs root \<Longrightarrow> Clean root = root \<Longrightarrow> storeInv root fmempty"
proof -
  have "noLinks fmempty cur cs" for cur cs by (induction cs arbitrary: cur) (simp_all add: inodeAt_def)
  then show "IsAbs root \<Longrightarrow> Clean root = root \<Longrightarrow> ?thesis"
    by (auto simp: storeInv_def fsWF_def inodeAt_def)
qed


end
