(* ===== verification/Lite.thy ===== *)
theory Lite
  imports Handoff "HOL-Library.List_Lexorder" "HOL-Library.Char_ord"
begin

text \<open>
  \<open>sysbox-runc-lite/lite.go\<close>: what the runtime adds to the container specification before it creates
  the container.  Empty volumes of the pod are filled from the image, and a container with a persistent
  layer gets bind mounts for the special directories, whose sources lie in the volume that the
  snapshotter handed over.  The recursion of \<open>filepath.Walk\<close> carries fuel: a copy into a directory below
  its own source need not end, and then the result is \<open>None\<close> for every fuel.
\<close>

section \<open>Records\<close>

definition liteRootfsAnnotation :: string where
  "liteRootfsAnnotation = ''sysbox/rootfs-rw-layer''"

definition liteContainerName :: string where
  "liteContainerName = ''io.kubernetes.cri.container-name''"

definition liteSandboxUID :: string where
  "liteSandboxUID = ''io.kubernetes.cri.sandbox-uid''"

definition liteHandoffDir :: string where
  "liteHandoffDir = ''/run/sysbox/rootfs-pvc-handoff''"

definition liteKubeletPodsDir :: string where
  "liteKubeletPodsDir = ''/var/lib/kubelet/pods''"

record LiteEntry =
  LName :: string
  LVolumeName :: string
  LPath :: string
  LPersistent :: bool
  LSpecialPath :: "string list"

record LiteHandoff =
  LHSnapshotKey :: string
  LHPodUID :: string
  LHContainerName :: string
  LHVolumeName :: string
  LHPVCMountPath :: string

datatype copy_error = CopyOs errno | CopyRel

datatype lite_error =
    LiteOs string errno
  | LiteCopy string copy_error
  | LiteDecode
  | LiteHandoffMismatch
  | LiteSymlink string
  | LiteNilRoot

section \<open>Decoding\<close>

definition zeroLiteEntry :: LiteEntry where
  "zeroLiteEntry = \<lparr>LName = [], LVolumeName = [], LPath = [], LPersistent = False, LSpecialPath = []\<rparr>"

definition liteEntryField :: "string \<Rightarrow> json \<Rightarrow> LiteEntry \<Rightarrow> LiteEntry option" where
  "liteEntryField k v e =
     (if fieldMatch ''Name'' k then map_option (\<lambda>s. e\<lparr>LName := s\<rparr>) (setString v (LName e))
      else if fieldMatch ''VolumeName'' k then map_option (\<lambda>s. e\<lparr>LVolumeName := s\<rparr>) (setString v (LVolumeName e))
      else if fieldMatch ''Path'' k then map_option (\<lambda>s. e\<lparr>LPath := s\<rparr>) (setString v (LPath e))
      else if fieldMatch ''persistentSpecialMounts'' k
      then map_option (\<lambda>b. e\<lparr>LPersistent := b\<rparr>) (setBool v (LPersistent e))
      else if fieldMatch ''specialPath'' k
      then map_option (\<lambda>l. e\<lparr>LSpecialPath := l\<rparr>) (setStrings v (LSpecialPath e))
      else Some e)"

definition zeroLiteHandoff :: LiteHandoff where
  "zeroLiteHandoff = \<lparr>LHSnapshotKey = [], LHPodUID = [], LHContainerName = [], LHVolumeName = [], LHPVCMountPath = []\<rparr>"

definition liteHandoffField :: "string \<Rightarrow> json \<Rightarrow> LiteHandoff \<Rightarrow> LiteHandoff option" where
  "liteHandoffField k v h =
     (if fieldMatch ''SnapshotKey'' k then map_option (\<lambda>s. h\<lparr>LHSnapshotKey := s\<rparr>) (setString v (LHSnapshotKey h))
      else if fieldMatch ''PodUID'' k then map_option (\<lambda>s. h\<lparr>LHPodUID := s\<rparr>) (setString v (LHPodUID h))
      else if fieldMatch ''ContainerName'' k then map_option (\<lambda>s. h\<lparr>LHContainerName := s\<rparr>) (setString v (LHContainerName h))
      else if fieldMatch ''VolumeName'' k then map_option (\<lambda>s. h\<lparr>LHVolumeName := s\<rparr>) (setString v (LHVolumeName h))
      else if fieldMatch ''PVCMountPath'' k then map_option (\<lambda>s. h\<lparr>LHPVCMountPath := s\<rparr>) (setString v (LHPVCMountPath h))
      else Some h)"

definition loadLiteHandoff :: "fs \<Rightarrow> string \<Rightarrow> (lite_error, LiteHandoff) result" where
  "loadLiteHandoff fs i =
     (case ReadFile fs (JoinPath [liteHandoffDir, sha256hex i @ ''.json'']) of
        Inl e \<Rightarrow> Inl (LiteOs ''open persistent special handoff'' e)
      | Inr content \<Rightarrow>
          (case decodeFirst content of
             None \<Rightarrow> Inl LiteDecode
           | Some (v, rest) \<Rightarrow>
               (case decodeStruct liteHandoffField zeroLiteHandoff v of
                  None \<Rightarrow> Inl LiteDecode
                | Some h \<Rightarrow> Inr h)))"

section \<open>Copying a directory tree\<close>

definition dirEmpty :: "fs \<Rightarrow> string \<Rightarrow> (errno, bool) result" where
  "dirEmpty fs path = rbind (readDirNames fs path) (\<lambda>names. Inr (fBall names (\<lambda>n. n = ''lost+found'')))"

text \<open>The function that \<open>copyDir\<close> gives to \<open>filepath.Walk\<close>, on a path whose \<open>Lstat\<close> is \<open>info\<close>.\<close>

definition copyEntry :: "string list \<Rightarrow> string \<Rightarrow> string \<Rightarrow> string \<Rightarrow> inode \<Rightarrow> fs \<Rightarrow> fs \<times> copy_error option" where
  "copyEntry cwd src dst path info fs =
     (case Rel src path of
        None \<Rightarrow> (fs, Some CopyRel)
      | Some rel \<Rightarrow>
          if rel = ''.'' then (fs, None)
          else let target = osPath cwd (JoinPath [dst, rel])
               in (case info of
                     IDir m \<Rightarrow>
                       (case MkdirAll m target fs of
                          Inl e \<Rightarrow> (fs, Some (CopyOs e))
                        | Inr fs1 \<Rightarrow> (case Chmod m target fs1 of Inl e \<Rightarrow> (fs1, Some (CopyOs e)) | Inr fs2 \<Rightarrow> (fs2, None)))
                   | ILink _ \<Rightarrow>
                       (case Readlink fs (osPath cwd path) of
                          Inl e \<Rightarrow> (fs, Some (CopyOs e))
                        | Inr link \<Rightarrow> (case Symlink link target fs of Inl e \<Rightarrow> (fs, Some (CopyOs e)) | Inr fs1 \<Rightarrow> (fs1, None)))
                   | IFile m _ \<Rightarrow>
                       (case ReadFile fs (osPath cwd path) of
                          Inl e \<Rightarrow> (fs, Some (CopyOs e))
                        | Inr content \<Rightarrow>
                            (case writeNewFile m content target fs of
                               Inl e \<Rightarrow> (fs, Some (CopyOs e))
                             | Inr fs1 \<Rightarrow> (case Chmod m target fs1 of Inl e \<Rightarrow> (fs1, Some (CopyOs e)) | Inr fs2 \<Rightarrow> (fs2, None))))))"

text \<open>The loop of \<open>walk\<close> over the names of a directory, with the recursive call as an argument.\<close>

fun walkNames ::
  "(string \<Rightarrow> inode \<Rightarrow> fs \<Rightarrow> (fs \<times> copy_error option) option) \<Rightarrow> string list \<Rightarrow> string \<Rightarrow> string list \<Rightarrow> fs \<Rightarrow>
   (fs \<times> copy_error option) option" where
  "walkNames rec cwd path [] fs = Some (fs, None)"
| "walkNames rec cwd path (name # names) fs =
     (let filename = JoinPath [path, name]
      in case Lstat fs (osPath cwd filename) of
           Inl e \<Rightarrow> Some (fs, Some (CopyOs e))
         | Inr info \<Rightarrow>
             (case rec filename info fs of
                None \<Rightarrow> None
              | Some (fs1, Some e) \<Rightarrow> Some (fs1, Some e)
              | Some (fs1, None) \<Rightarrow> walkNames rec cwd path names fs1))"

primrec walkCopy ::
  "nat \<Rightarrow> string list \<Rightarrow> string \<Rightarrow> string \<Rightarrow> string \<Rightarrow> inode \<Rightarrow> fs \<Rightarrow> (fs \<times> copy_error option) option" where
  "walkCopy 0 cwd src dst path info fs = None"
| "walkCopy (Suc n) cwd src dst path info fs =
     (if \<not> isDirNode info then Some (copyEntry cwd src dst path info fs)
      else case readDirNames fs (osPath cwd path) of
        Inl e \<Rightarrow> Some (fs, Some (CopyOs e))
      | Inr names \<Rightarrow>
          (case copyEntry cwd src dst path info fs of
             (fs1, Some e) \<Rightarrow> Some (fs1, Some e)
           | (fs1, None) \<Rightarrow> walkNames (walkCopy n cwd src dst) cwd path (sorted_list_of_fset names) fs1))"

definition copyDir :: "nat \<Rightarrow> string list \<Rightarrow> string \<Rightarrow> string \<Rightarrow> fs \<Rightarrow> (fs \<times> copy_error option) option" where
  "copyDir fuel cwd src dst fs =
     (case Lstat fs (osPath cwd src) of
        Inl e \<Rightarrow> Some (fs, Some (CopyOs e))
      | Inr info \<Rightarrow> walkCopy fuel cwd src dst src info fs)"

section \<open>Volumes of the pod\<close>

definition liteMountReadOnly :: "OciMount \<Rightarrow> bool" where
  "liteMountReadOnly m \<longleftrightarrow> ''ro'' \<in> set (Options m)"

definition liteVolumeRoots :: "string \<Rightarrow> string list" where
  "liteVolumeRoots podRoot =
     [JoinPath [podRoot, ''volumes'', ''kubernetes.io~csi''], JoinPath [podRoot, ''volumes'', ''kubernetes.io~local-volume'']]"

definition directVolume :: "string \<Rightarrow> string \<Rightarrow> bool" where
  "directVolume cleanSource directRoot =
     (case Rel directRoot cleanSource of
        None \<Rightarrow> False
      | Some rel \<Rightarrow>
          let parts = Split sep rel
          in length parts = 1 \<and> parts ! 0 \<noteq> [] \<or>
             length parts = 2 \<and> parts ! 0 \<noteq> [] \<and> parts ! 1 = ''mount'')"

definition statOk :: "string list \<Rightarrow> fs \<Rightarrow> string \<Rightarrow> bool" where
  "statOk cwd fs path = is_ok (Stat fs (osPath cwd path))"

definition subpathVolume :: "string list \<Rightarrow> fs \<Rightarrow> string list \<Rightarrow> string \<Rightarrow> bool" where
  "subpathVolume cwd fs roots vol =
     (HasPrefix vol ''pvc-'' \<or>
      list_ex (\<lambda>r. statOk cwd fs (JoinPath [r, vol, ''mount'']) \<or> statOk cwd fs (JoinPath [r, vol])) roots)"

definition subpathSource :: "string list \<Rightarrow> fs \<Rightarrow> string list \<Rightarrow> string \<Rightarrow> string \<Rightarrow> string \<Rightarrow> bool" where
  "subpathSource cwd fs roots subpathRoot cleanSource containerName =
     (case Rel subpathRoot cleanSource of
        None \<Rightarrow> False
      | Some rel \<Rightarrow>
          let parts = Split sep rel
          in length parts = 3 \<and> parts ! 0 \<noteq> [] \<and> parts ! 1 \<noteq> [] \<and> parts ! 2 \<noteq> [] \<and>
             (parts ! 1 = containerName \<or> HasPrefix containerName (parts ! 1 @ ''-'')) \<and>
             subpathVolume cwd fs roots (parts ! 0))"

definition detectLitePVCSourceAt ::
  "string list \<Rightarrow> fs \<Rightarrow> string \<Rightarrow> string \<Rightarrow> string \<Rightarrow> string \<Rightarrow> string option" where
  "detectLitePVCSourceAt cwd fs source podUID containerName podsDir =
     (let cleanSource = Abs (absPathOf cwd) source;
          podRoot = JoinPath [podsDir, podUID];
          roots = liteVolumeRoots podRoot
      in if list_ex (directVolume cleanSource) roots \<or>
            subpathSource cwd fs roots (JoinPath [podRoot, ''volume-subpaths'']) cleanSource containerName
         then Some cleanSource else None)"

text \<open>One iteration of the loop of \<open>initLiteVolumesAt\<close>; \<open>continue\<close> leaves the file system as it is.\<close>

definition initVolume ::
  "nat \<Rightarrow> string list \<Rightarrow> string \<Rightarrow> string \<Rightarrow> string \<Rightarrow> string \<Rightarrow> OciMount \<Rightarrow> fs \<Rightarrow> (fs \<times> lite_error option) option" where
  "initVolume fuel cwd podsDir podUID name rootfs m fs =
     (if MType m \<noteq> ''bind'' \<or> liteMountReadOnly m then Some (fs, None)
      else case detectLitePVCSourceAt cwd fs (Source m) podUID name podsDir of
        None \<Rightarrow> Some (fs, None)
      | Some source \<Rightarrow>
          (case Lstat fs source of
             Inl _ \<Rightarrow> Some (fs, None)
           | Inr info \<Rightarrow>
               if \<not> isDirNode info \<or> isLinkNode info \<or> dirEmpty fs source \<noteq> Inr True then Some (fs, None)
               else let relative = TrimPrefix (Clean (Destination m)) ''/''
                    in if relative = ''.'' \<or> relative = [] then Some (fs, None)
                       else let imagePath = JoinPath [rootfs, relative]
                            in (case Lstat fs imagePath of
                                  Inl ENOENT \<Rightarrow> Some (fs, None)
                                | Inl e \<Rightarrow> Some (fs, Some (LiteOs ''inspect image volume path'' e))
                                | Inr info \<Rightarrow>
                                    if \<not> isDirNode info then Some (fs, None)
                                    else if isLinkNode info then Some (fs, Some (LiteSymlink (Destination m)))
                                    else (case copyDir fuel cwd imagePath source fs of
                                      None \<Rightarrow> None
                                    | Some (fs1, None) \<Rightarrow> Some (fs1, None)
                                    | Some (fs1, Some e) \<Rightarrow> Some (fs1, Some (LiteCopy ''initialize PVC mount'' e))))))"

text \<open>A loop that stops at the first error, or when the fuel runs out.\<close>

fun liteLoop :: "('x \<Rightarrow> 's \<Rightarrow> ('s \<times> lite_error option) option) \<Rightarrow> 'x list \<Rightarrow> 's \<Rightarrow> ('s \<times> lite_error option) option" where
  "liteLoop f [] s = Some (s, None)"
| "liteLoop f (x # xs) s =
     (case f x s of
        None \<Rightarrow> None
      | Some (s1, Some e) \<Rightarrow> Some (s1, Some e)
      | Some (s1, None) \<Rightarrow> liteLoop f xs s1)"

definition initLiteVolumesAt ::
  "nat \<Rightarrow> string list \<Rightarrow> string \<Rightarrow> OciSpec \<Rightarrow> fs \<Rightarrow> (fs \<times> lite_error option) option" where
  "initLiteVolumesAt fuel cwd podsDir spec fs =
     (case RootPath spec of
        None \<Rightarrow> Some (fs, None)
      | Some rootPath \<Rightarrow>
          let name = fmget [] (OciAnnotations spec) liteContainerName;
              podUID = fmget [] (OciAnnotations spec) liteSandboxUID
          in if rootPath = [] \<or> name = [] \<or> podUID = [] then Some (fs, None)
             else liteLoop (initVolume fuel cwd podsDir podUID name (Abs (absPathOf cwd) rootPath)) (Mounts spec) fs)"

definition initLiteVolumes :: "nat \<Rightarrow> string list \<Rightarrow> OciSpec \<Rightarrow> fs \<Rightarrow> (fs \<times> lite_error option) option" where
  "initLiteVolumes fuel cwd = initLiteVolumesAt fuel cwd liteKubeletPodsDir"

section \<open>Special mounts\<close>

definition liteSpecialPaths :: "string list" where
  "liteSpecialPaths = [''/var/lib/docker'', ''/var/lib/kubelet'', ''/var/lib/rancher/k3s'', ''/var/lib/rancher/rke2'',
     ''/var/lib/buildkit'', ''/var/lib/containerd/io.containerd.snapshotter.v1.overlayfs'']"

definition specialSource :: "string \<Rightarrow> string \<Rightarrow> string" where
  "specialSource root dest = JoinPath [root, TrimPrefix (Clean dest) ''/'']"

definition addSpecial ::
  "nat \<Rightarrow> string list \<Rightarrow> string \<Rightarrow> string \<Rightarrow> OciSpec \<times> fs \<Rightarrow> ((OciSpec \<times> fs) \<times> lite_error option) option" where
  "addSpecial fuel cwd root dest st =
     (let (spec, fs) = st; src = specialSource root dest;
          mount = \<lparr>Destination = dest, MType = ''bind'', Source = src, Options = [''rbind'', ''rprivate'']\<rparr>;
          added = (\<lambda>fs. ((spec\<lparr>Mounts := Mounts spec @ [mount]\<rparr>, fs), None))
      in case MkdirAll 493 (osPath cwd src) fs of
           Inl e \<Rightarrow> Some (st, Some (LiteOs ''mkdir'' e))
         | Inr fs1 \<Rightarrow>
             (case dirEmpty fs1 (osPath cwd src) of
                Inl e \<Rightarrow> Some ((spec, fs1), Some (LiteOs ''open'' e))
              | Inr False \<Rightarrow> Some (added fs1)
              | Inr True \<Rightarrow>
                  (case RootPath spec of
                     None \<Rightarrow> Some ((spec, fs1), Some LiteNilRoot)
                   | Some rootPath \<Rightarrow>
                       (case copyDir fuel cwd (JoinPath [rootPath, Clean dest]) src fs1 of
                          None \<Rightarrow> None
                        | Some (fs2, None) \<Rightarrow> Some (added fs2)
                        | Some (fs2, Some (CopyOs ENOENT)) \<Rightarrow> Some (added fs2)
                        | Some (fs2, Some e) \<Rightarrow> Some ((spec, fs2), Some (LiteCopy ''initialize special mount'' e))))))"

definition addEntry ::
  "nat \<Rightarrow> string list \<Rightarrow> string \<Rightarrow> string \<Rightarrow> LiteEntry \<Rightarrow> OciSpec \<times> fs \<Rightarrow> ((OciSpec \<times> fs) \<times> lite_error option) option" where
  "addEntry fuel cwd name i entry st =
     (if LName entry \<noteq> name \<or> \<not> LPersistent entry then Some (st, None)
      else case loadLiteHandoff (snd st) i of
        Inl e \<Rightarrow> Some (st, Some e)
      | Inr handoff \<Rightarrow>
          if LHContainerName handoff \<noteq> name \<or> LHVolumeName handoff \<noteq> LVolumeName entry \<or> LHSnapshotKey handoff \<noteq> i
          then Some (st, Some LiteHandoffMismatch)
          else liteLoop (addSpecial fuel cwd (JoinPath [LHPVCMountPath handoff, Clean (LPath entry), ''special'']))
                 (liteSpecialPaths @ LSpecialPath entry) st)"

definition addLiteSpecialMounts ::
  "nat \<Rightarrow> string list \<Rightarrow> string \<Rightarrow> OciSpec \<times> fs \<Rightarrow> ((OciSpec \<times> fs) \<times> lite_error option) option" where
  "addLiteSpecialMounts fuel cwd i st =
     (let raw = fmget [] (OciAnnotations (fst st)) liteRootfsAnnotation
      in if raw = [] then Some (st, None)
         else case Option.bind (parseJson raw) (decodeSlice liteEntryField zeroLiteEntry) of
           None \<Rightarrow> Some (st, Some LiteDecode)
         | Some entries \<Rightarrow>
             liteLoop (addEntry fuel cwd (fmget [] (OciAnnotations (fst st)) liteContainerName) i) entries st)"

definition prepareLiteSpec ::
  "nat \<Rightarrow> string list \<Rightarrow> string \<Rightarrow> OciSpec \<times> fs \<Rightarrow> ((OciSpec \<times> fs) \<times> lite_error option) option" where
  "prepareLiteSpec fuel cwd i st =
     (case initLiteVolumes fuel cwd (fst st) (snd st) of
        None \<Rightarrow> None
      | Some (fs1, Some e) \<Rightarrow> Some ((fst st, fs1), Some e)
      | Some (fs1, None) \<Rightarrow> addLiteSpecialMounts fuel cwd i (fst st, fs1))"

section \<open>The runtime reads what the snapshotter wrote\<close>

definition liteView :: "PersistentSpecialHandoff \<Rightarrow> LiteHandoff" where
  "liteView h = \<lparr>LHSnapshotKey = HSnapshotKey h, LHPodUID = HPodUID h, LHContainerName = HContainerName h,
     LHVolumeName = HVolumeName h, LHPVCMountPath = HPVCMountPath h\<rparr>"

lemma lite_fields:
  "fieldMatch ''SnapshotKey'' ''snapshotKey''" "fieldMatch ''PodUID'' ''podUID''" "fieldMatch ''ContainerName'' ''containerName''"
  "fieldMatch ''VolumeName'' ''volumeName''" "fieldMatch ''PVCMountPath'' ''pvcMountPath''"
  by code_simp+

lemma lite_fields_length:
  "length a \<noteq> length b \<Longrightarrow> fieldMatch a b = False"
  by (simp add: fieldMatch_length)

lemma decode_liteHandoff:
  "decodeStruct liteHandoffField zeroLiteHandoff (handoffJson h) = Some (liteView h)"
  by (simp add: handoffJson_def decodeStruct_def liteHandoffField_def lite_fields lite_fields_length setString_def
      zeroLiteHandoff_def liteView_def)

lemma decodeFirst_printJson: "wfJson v \<Longrightarrow> decodeFirst (printJson v) = Some (v, [])"
  using parses_decodeFirst [OF parses_printJson [of v "[]"]] by (simp add: valueEnd_def)

text \<open>
  C13.  The runtime reads back what the snapshotter handed over: after a successful write of a record to
  the handoff directory, loading by the record's key gives the same key, pod, container, volume and
  mount path, although the two programs use different struct definitions.
\<close>

theorem loadLiteHandoff_written:
  assumes "storeInv PersistentSpecialHandoffDir fs"
    and "handoffWrite ctxErr rnds PersistentSpecialHandoffDir h fs = (fs', None)"
  shows "loadLiteHandoff fs' (HSnapshotKey h) = Inr (liteView h)"
proof -
  let ?D = "comps PersistentSpecialHandoffDir" let ?n = "handoffName (HSnapshotKey h)"
  note W = handoffWrite_store [OF assms]
  then have inv: "storeInv PersistentSpecialHandoffDir fs'"
    and f: "inodeAt fs' (?D @ [?n]) = Some (IFile 384 (printJson (handoffJson h)))" by simp_all
  have "\<exists>m. inodeAt fs' ([] @ ?D) = Some (IDir m)" using parent_dir [OF storeInvD(3) [OF inv] f] by simp
  then have "dirPath fs' [] ?D" using dirPath_closed [OF storeInvD(3) [OF inv]] by blast
  then have "resolve fs' True (handoffPath PersistentSpecialHandoffDir (HSnapshotKey h)) = Inr (?D @ [?n])"
    using resolve_entry [OF inv plain_handoffName] by (simp add: handoffPath_abs [OF inv])
  then have "ReadFile fs' (handoffPath liteHandoffDir (HSnapshotKey h)) = Inr (printJson (handoffJson h))"
    using f by (simp add: ReadFile_def Stat_def statWith_def liteHandoffDir_def PersistentSpecialHandoffDir_def)
  moreover have "wfJson (handoffJson h)" by (auto simp: handoffJson_def numLit_def)
  ultimately show ?thesis
    by (simp add: loadLiteHandoff_def decodeFirst_printJson decode_liteHandoff flip: handoffPath_def)
qed

theorem loadLiteHandoff_written_witness:
  "loadLiteHandoff (fst (handoffWrite None [7] PersistentSpecialHandoffDir exampleHandoff fmempty)) ''k8s.io/7/abc'' =
     Inr (liteView exampleHandoff)"
proof -
  have "Clean PersistentSpecialHandoffDir = PersistentSpecialHandoffDir" "IsAbs PersistentSpecialHandoffDir" by code_simp+
  then have inv: "storeInv PersistentSpecialHandoffDir fmempty" by (simp add: storeInv_empty)
  have "snd (handoffWrite None [7] PersistentSpecialHandoffDir exampleHandoff fmempty) = None"
  proof (rule handoffWrite_succeeds [OF inv])
    show "is_ok (MkdirAll 448 PersistentSpecialHandoffDir fmempty)" by code_simp
  qed (simp_all add: exampleHandoff_def handoffComplete_def PersistentSpecialHandoffVersion_def inodeAt_def)
  then have "handoffWrite None [7] PersistentSpecialHandoffDir exampleHandoff fmempty =
      (fst (handoffWrite None [7] PersistentSpecialHandoffDir exampleHandoff fmempty), None)" by (simp add: prod_eq_iff)
  from loadLiteHandoff_written [OF inv this] show ?thesis by (simp add: exampleHandoff_def)
qed

section \<open>Which mounts count as volumes of the pod\<close>

lemma stripCommon_split: "stripCommon xs ys = (bs, ts) \<Longrightarrow> \<exists>pre. xs = pre @ bs \<and> ys = pre @ ts"
proof (induction xs ys arbitrary: bs ts rule: stripCommon.induct)
  case (1 b bs' t ts')
  show ?case
  proof (cases "b = t")
    case True
    with 1 obtain pre where "bs' = pre @ bs \<and> ts' = pre @ ts" by auto
    with True show ?thesis by (intro exI [of _ "b # pre"]) simp
  qed (use 1 in auto)
qed auto

lemma Rel_parts:
  assumes "IsAbs base" "IsAbs targ" "Rel base targ = Some rel"
  shows "comps targ = comps base \<and> rel = dot \<or>
    (\<exists>pre bs ts. comps base = pre @ bs \<and> comps targ = pre @ ts \<and> Split sep rel = replicate (length bs) dotdot @ ts)"
proof (cases "Clean base = Clean targ")
  case True
  with assms show ?thesis by (auto simp: Rel_def Clean_eq_iff)
next
  case False
  obtain bs ts where st: "stripCommon (comps base) (comps targ) = (bs, ts)" by fastforce
  from stripCommon_split [OF st] obtain pre where pre: "comps base = pre @ bs" "comps targ = pre @ ts" by blast
  with False assms(1,2) have ne: "replicate (length bs) dotdot @ ts \<noteq> []" by (auto simp: Clean_eq_iff)
  have rel: "rel = Join sep (replicate (length bs) dotdot @ ts)"
    using assms False st by (auto simp: Rel_def relBase_def relTarget_def split: if_splits)
  have "sep \<notin> set c" if "c \<in> set ts" for c using that pre(2) comps_elem [of c targ] by simp
  then have "Split sep rel = replicate (length bs) dotdot @ ts"
    unfolding rel using ne by (intro Split_Join) (auto simp: dotdot_def)
  with pre show ?thesis by blast
qed

lemma comps_Join3:
  assumes "IsAbs p" "plainName a" "plainName b"
  shows "comps (JoinPath [p, a, b]) = comps p @ [a, b]" "IsAbs (JoinPath [p, a, b])"
proof -
  have ne: "p \<noteq> []" using assms(1) by auto
  have "JoinPath [p, a, b] = Clean (p @ sep # Join sep [a, b])"
    using ne assms(2,3) by (simp add: JoinPath_def plainName_def)
  then show "comps (JoinPath [p, a, b]) = comps p @ [a, b]" "IsAbs (JoinPath [p, a, b])"
    using comps_append_names [OF ne, of "[a, b]"] assms by (simp_all add: plainName_def IsAbs_append ne)
qed

lemma comps_Join2:
  "IsAbs p \<Longrightarrow> plainName a \<Longrightarrow> comps (JoinPath [p, a]) = comps p @ [a] \<and> IsAbs (JoinPath [p, a])"
  by (cases p) (use comps_JoinPath_name [of p a] in \<open>auto simp: plainName_def\<close>)

text \<open>The elements of a recognised direct volume, relative to the pod's directory.\<close>

lemma directVolume_below:
  assumes "IsAbs s" "IsAbs r" "comps r = P @ [a, d]" "directVolume s r"
  shows "\<exists>us. us \<noteq> [] \<and> comps s = P @ us"
proof -
  from assms(4) obtain rel where rel: "Rel r s = Some rel"
    and parts: "length (Split sep rel) = 1 \<or> length (Split sep rel) = 2 \<and> Split sep rel ! 1 = ''mount''"
    unfolding directVolume_def Let_def by (cases "Rel r s") auto
  from Rel_parts [OF assms(2,1) rel] consider (same) "comps s = comps r"
    | (up) pre bs ts where "comps r = pre @ bs" "comps s = pre @ ts" "Split sep rel = replicate (length bs) dotdot @ ts"
    by blast
  then show ?thesis
  proof cases
    case same
    with assms(3) show ?thesis by simp
  next
    case (up pre bs ts)
    note p = up
    have "length bs \<le> 1"
    proof (rule ccontr)
      assume "\<not> length bs \<le> 1"
      then obtain y z zs where "bs = y # z # zs" by (cases bs; cases "tl bs") simp_all
      with p(3) parts show False by (auto simp: dotdot_def)
    qed
    then show ?thesis
    proof (cases bs)
      case Nil
      with p assms(3) show ?thesis by (intro exI [of _ "a # d # ts"]) simp
    next
      case (Cons x xs)
      with \<open>length bs \<le> 1\<close> have "bs = [x]" by simp
      with p assms(3) show ?thesis by (intro exI [of _ "a # ts"]) simp
    qed
  qed
qed

lemma subpathSource_below:
  assumes "IsAbs s" "IsAbs r" "comps r = P @ [a]" "subpathSource cwd fs roots r s name"
    and "name \<noteq> dotdot" "\<not> HasPrefix name (dotdot @ ''-'')"
  shows "\<exists>us. us \<noteq> [] \<and> comps s = P @ us"
proof -
  from assms(4) obtain rel where rel: "Rel r s = Some rel" and len: "length (Split sep rel) = 3"
    and b: "Split sep rel ! 1 = name \<or> HasPrefix name (Split sep rel ! 1 @ ''-'')"
    by (cases "Rel r s") (simp_all add: subpathSource_def Let_def)
  with assms(5,6) have nb: "Split sep rel ! 1 \<noteq> dotdot" by auto
  have "rel \<noteq> dot" using len by (auto simp: dot_def Split_def)
  with Rel_parts [OF assms(2,1) rel] obtain pre bs ts
    where p: "comps r = pre @ bs" "comps s = pre @ ts" "Split sep rel = replicate (length bs) dotdot @ ts" by blast
  have "length bs \<le> 1"
  proof (rule ccontr)
    assume "\<not> length bs \<le> 1"
    then obtain y z zs where "bs = y # z # zs" by (cases bs; cases "tl bs") simp_all
    with p(3) nb show False by simp
  qed
  then show ?thesis
  proof (cases bs)
    case Nil
    with p assms(3) show ?thesis by (intro exI [of _ "a # ts"]) simp
  next
    case (Cons y ys)
    with \<open>length bs \<le> 1\<close> have "bs = [y]" by simp
    with p(3) len have "ts \<noteq> []" by auto
    with \<open>bs = [y]\<close> p assms(3) show ?thesis by (intro exI [of _ ts]) simp
  qed
qed



end
