(* ===== verification/Lite_Copy.thy ===== *)
theory Lite_Copy
  imports Lite
begin

text \<open>
  Correctness of \<open>copyDir\<close> of \<open>sysbox-runc-lite/lite.go\<close>: when neither directory lies below the other and
  the target is empty, the copy ends without error, the target becomes an exact image of the source
  (directories, modes, contents and links as they are), and nothing else changes.
\<close>

section \<open>Paths below the two roots\<close>

lemma dirPath_cong2:
  "(\<And>zs. prefix zs cs \<Longrightarrow> zs \<noteq> [] \<Longrightarrow> inodeAt fs' (cur' @ zs) = inodeAt fs (cur @ zs)) \<Longrightarrow>
   dirPath fs' cur' cs = dirPath fs cur cs"
proof (induction cs arbitrary: cur cur')
  case (Cons c cs)
  have "inodeAt fs' (cur' @ [c]) = inodeAt fs (cur @ [c])" using Cons.prems [of "[c]"] by simp
  moreover have "inodeAt fs' ((cur' @ [c]) @ zs) = inodeAt fs ((cur @ [c]) @ zs)" if "prefix zs cs" for zs
    using Cons.prems [of "c # zs"] that by simp
  ultimately show ?case using Cons.IH [of "cur' @ [c]" "cur @ [c]"] by simp
qed simp

lemma fmupd_again: "fmlookup m k = Some v \<Longrightarrow> fmupd k v m = m"
  by (rule fmap_ext) auto

text \<open>An entry that is a link is resolved only as the last element, without following it.\<close>

lemma resolve_dirs:
  assumes "rootAt fs rs R" "normComps True (rs @ ys @ [c])" "dirPath fs R ys" "IsAbs p" "Clean p = p" "comps p = rs @ ys @ [c]"
  shows "resolve fs False p = Inr (R @ ys @ [c])"
    and "(\<And>t. inodeAt fs (R @ ys @ [c]) \<noteq> Some (ILink t)) \<Longrightarrow> resolve fs True p = Inr (R @ ys @ [c])"
proof -
  have p: "p = absPathOf (rs @ ys @ [c])" using clean_absPathOf [OF assms(4,5)] assms(6) by simp
  show "resolve fs False p = Inr (R @ ys @ [c])"
    using resolve_below_last [OF assms(1,2) dirPath_noLinks [OF assms(3)]] assms(3) p by simp
  assume "\<And>t. inodeAt fs (R @ ys @ [c]) \<noteq> Some (ILink t)"
  then have "noLinks fs R (ys @ [c])" using dirPath_noLinks [OF assms(3)] by simp
  with resolve_below [OF assms(1,2)] assms(3) p show "resolve fs True p = Inr (R @ ys @ [c])" by simp
qed

lemma Stat_dirs:
  assumes "rootAt fs rs R" "normComps True (rs @ ys)" "dirPath fs R ys"
  shows "\<exists>m. Stat fs (absPathOf (rs @ ys)) = Inr (IDir m)"
proof (cases ys rule: rev_cases)
  case Nil
  then show ?thesis using Stat_root [OF assms(1)] by simp
next
  case (snoc zs c)
  then have "\<exists>m. inodeAt fs (R @ ys) = Some (IDir m)" using dirPath_last [OF assms(3)] by simp
  moreover have "resolve fs True (absPathOf (rs @ ys)) = Inr (R @ ys)"
    using resolve_below [OF assms(1,2) _ dirPath_noLinks [OF assms(3)]] assms(3) snoc by simp
  ultimately show ?thesis by (auto simp: Stat_def statWith_def)
qed

text \<open>Creating one missing directory below existing ones.\<close>

lemma MkdirAll_one:
  assumes "rootAt fs rs R" "dirPath fs R ys" "inodeAt fs (R @ ys @ [c]) = None"
    and "IsAbs p" "Clean p = p" "comps p = rs @ ys @ [c]"
  shows "MkdirAll m p fs = Inr (fmupd (R @ ys @ [c]) (IDir m) fs)"
proof -
  have n: "normComps True (rs @ ys @ [c])" using comps_norm [of p] assms(4,6) by simp
  have p: "absPathOf (rs @ ys @ [c]) = p" using clean_absPathOf [OF assms(4,5)] assms(6) by simp
  note res = resolve_dirs [OF assms(1) n assms(2,4-6)]
  have st: "Stat fs p = Inl ENOENT" using res(2) assms(3) by (simp add: Stat_def statWith_def)
  have mk: "Mkdir m p fs = Inr (fmupd (R @ ys @ [c]) (IDir m) fs)" using res(1) assms(3) by (simp add: Mkdir_def newEntry_def)
  have "mkdirAllRev m (rev (rs @ ys)) fs = Inr fs"
  proof (cases "rs @ ys" rule: rev_cases)
    case (snoc zs d)
    have "normComps True (rs @ ys)" using n normComps_butlast [of True "rs @ ys" c] by simp
    from Stat_dirs [OF assms(1) this assms(2)] snoc show ?thesis by auto
  qed simp
  with st mk show ?thesis by (simp add: MkdirAll_def assms(6) p)
qed

lemma rootAt_upd:
  "rootAt fs rs R \<Longrightarrow> inodeAt fs q = None \<Longrightarrow> rootAt (fmupd q i fs) rs R"
  using rootAt_extends extends_new by blast

section \<open>The state of the copy\<close>

definition copySetup :: "string \<Rightarrow> string \<Rightarrow> string list \<Rightarrow> string list \<Rightarrow> fs \<Rightarrow> bool" where
  "copySetup src dst S D fs \<longleftrightarrow>
     IsAbs src \<and> Clean src = src \<and> IsAbs dst \<and> Clean dst = dst \<and> fsWF fs \<and>
     rootAt fs (comps src) S \<and> rootAt fs (comps dst) D \<and> \<not> prefix S D \<and> \<not> prefix D S \<and>
     (\<forall>c. inodeAt fs (D @ [c]) = None) \<and>
     (\<forall>y. inodeAt fs (S @ y) \<noteq> None \<longrightarrow> list_all plainName y)"

text \<open>The relative paths in \<open>X\<close> have been copied, and nothing else has changed.\<close>

definition copied :: "string list \<Rightarrow> string list \<Rightarrow> fs \<Rightarrow> string list set \<Rightarrow> fs \<Rightarrow> bool" where
  "copied S D fs0 X fs \<longleftrightarrow>
     [] \<notin> X \<and>
     (\<forall>p. inodeAt fs p = (if \<exists>z \<in> X. p = D @ z then inodeAt fs0 (S @ drop (length D) p) else inodeAt fs0 p))"

definition subtree :: "string list \<Rightarrow> fs \<Rightarrow> string list \<Rightarrow> string list set" where
  "subtree S fs z = {z @ y |y. inodeAt fs (S @ z @ y) \<noteq> None}"

lemma empty_below:
  assumes "fsWF fs" "\<forall>c. inodeAt fs (D @ [c]) = None" "y \<noteq> []"
  shows "inodeAt fs (D @ y) = None"
  using assms(3)
proof (induction y rule: rev_induct)
  case (snoc c y)
  show ?case
  proof (cases "y = []")
    case False
    then have "\<nexists>m. inodeAt fs (D @ y) = Some (IDir m)" using snoc by simp
    with absent_not_dir [OF assms(1), of "D @ y" c] show ?thesis by simp
  qed (use assms(2) in simp)
qed simp

lemma copied_src:
  assumes "copySetup src dst S D fs0" "copied S D fs0 X fs"
  shows "inodeAt fs (S @ y) = inodeAt fs0 (S @ y)"
proof -
  have "S @ y \<noteq> D @ z" for z
    using assms(1) prefix_same_cases [of S "S @ y" D] by (auto simp: copySetup_def prefix_def)
  with assms(2) show ?thesis by (auto simp: copied_def)
qed

lemma copied_dst:
  assumes "copySetup src dst S D fs0" "copied S D fs0 X fs" "z \<noteq> []"
  shows "inodeAt fs (D @ z) = (if z \<in> X then inodeAt fs0 (S @ z) else None)"
  using assms(2) empty_below [of fs0 D z] assms(1,3) by (auto simp: copied_def copySetup_def)

lemma copied_extends:
  assumes "copySetup src dst S D fs0" "copied S D fs0 X fs"
  shows "extends fs0 fs"
  unfolding extends_def
proof (intro allI impI)
  fix p i
  assume p: "inodeAt fs0 p = Some i"
  have "p \<noteq> D @ z" if "z \<in> X" for z
  proof -
    have "z \<noteq> []" using assms(2) that by (auto simp: copied_def)
    then have "inodeAt fs0 (D @ z) = None" using empty_below [of fs0 D z] assms(1) by (simp add: copySetup_def)
    with p show ?thesis by auto
  qed
  with assms(2) p show "inodeAt fs p = Some i" by (auto simp: copied_def)
qed

lemma copied_roots:
  assumes "copySetup src dst S D fs0" "copied S D fs0 X fs"
  shows "rootAt fs (comps src) S" "rootAt fs (comps dst) D"
  using assms rootAt_extends copied_extends [OF assms] unfolding copySetup_def by blast+

lemma copied_insert:
  assumes "copySetup src dst S D fs0" "copied S D fs0 X fs" "z \<noteq> []" "inodeAt fs0 (S @ z) = Some i"
  shows "copied S D fs0 (insert z X) (fmupd (D @ z) i fs)"
  using assms(2-4) unfolding copied_def by (auto simp: inodeAt_upd)

lemma tree_paths:
  assumes "copySetup src dst S D fs0" "copied S D fs0 X fs"
    and "inodeAt fs0 (S @ z @ [n]) = Some i" "\<And>y. prefix y z \<Longrightarrow> y \<noteq> [] \<Longrightarrow> y \<in> X"
  shows "dirPath fs S z" "dirPath fs D z" "list_all plainName (z @ [n])"
proof -
  have "\<exists>m. inodeAt fs0 (S @ z) = Some (IDir m)"
    using parent_dir [of fs0 "S @ z" n] assms(1,3) by (auto simp: copySetup_def)
  then have d: "dirPath fs0 S z" using dirPath_closed [of fs0 S z] assms(1) by (auto simp: copySetup_def)
  have "dirPath fs S z = dirPath fs0 S z"
    by (rule dirPath_cong2) (rule copied_src [OF assms(1,2)])
  with d show "dirPath fs S z" by simp
  have "dirPath fs D z = dirPath fs0 S z"
    by (rule dirPath_cong2) (use copied_dst [OF assms(1,2)] assms(4) in simp)
  with d show "dirPath fs D z" by simp
  show "list_all plainName (z @ [n])" using assms(1,3) unfolding copySetup_def by blast
qed

definition pathTo :: "string \<Rightarrow> string list \<Rightarrow> string \<Rightarrow> bool" where
  "pathTo root z p \<longleftrightarrow> IsAbs p \<and> Clean p = p \<and> comps p = comps root @ z"

lemma pathTo_name: "pathTo root z p \<Longrightarrow> plainName n \<Longrightarrow> pathTo root (z @ [n]) (JoinPath [p, n])"
  using comps_Join2 [of p n] by (cases "p = []") (auto simp: pathTo_def JoinPath2 plainName_def)

lemma pathTo_rel:
  assumes "IsAbs root" "list_all plainName z" "z \<noteq> []"
  shows "pathTo root z (JoinPath [root, Join sep z])"
proof -
  have ne: "root \<noteq> []" using assms(1) by auto
  have j: "Join sep z \<noteq> []"
    using assms(2,3) by (cases z; cases "tl z = []") (auto simp: plainName_def Join_Cons)
  have "comps (root @ sep # Join sep z) = comps root @ z"
    by (rule comps_append_names [OF ne assms(3)]) (use assms(2) in \<open>auto simp: list_all_iff plainName_def\<close>)
  with assms(1) ne j show ?thesis by (simp add: pathTo_def JoinPath2 IsAbs_append)
qed

lemma Rel_pathTo:
  assumes "IsAbs src" "pathTo src z path" "z \<noteq> []" "list_all plainName z"
  shows "Rel src path = Some (Join sep z)" "Join sep z \<noteq> ''.''"
proof -
  show "Rel src path = Some (Join sep z)"
    using assms by (intro Rel_below) (simp_all add: pathTo_def)
  have "Split sep (Join sep z) = z" using assms(3,4) by (intro Split_Join) (auto simp: list_all_iff plainName_def)
  moreover have "Split sep ''.'' = [dot]" by (simp add: Split_def dot_def)
  ultimately have "z = [dot]" if "Join sep z = ''.''" using that by simp
  with assms(4) show "Join sep z \<noteq> ''.''" by (auto simp: plainName_def)
qed

lemma copyEntry_ok:
  assumes su: "copySetup src dst S D fs0" and co: "copied S D fs0 X fs"
    and i: "inodeAt fs0 (S @ z @ [n]) = Some i" and pre: "\<And>y. prefix y z \<Longrightarrow> y \<noteq> [] \<Longrightarrow> y \<in> X"
    and new: "z @ [n] \<notin> X" and path: "pathTo src (z @ [n]) path"
  shows "copyEntry cwd src dst path i fs = (fmupd (D @ z @ [n]) i fs, None)"
proof -
  note T = tree_paths [OF su co i pre] and roots = copied_roots [OF su co]
  have abs: "IsAbs src" "IsAbs dst" using su by (simp_all add: copySetup_def)
  let ?t = "JoinPath [dst, Join sep (z @ [n])]"
  have t: "IsAbs ?t" "Clean ?t = ?t" "comps ?t = comps dst @ z @ [n]"
    using pathTo_rel [OF abs(2) T(3)] by (simp_all add: pathTo_def)
  have p: "IsAbs path" "Clean path = path" "comps path = comps src @ z @ [n]" using path by (simp_all add: pathTo_def)
  have nt: "normComps True (comps dst @ z @ [n])" using comps_norm [of ?t] t by simp
  have np: "normComps True (comps src @ z @ [n])" using comps_norm [of path] p by simp
  have none: "inodeAt fs (D @ z @ [n]) = None" using copied_dst [OF su co, of "z @ [n]"] new by simp
  have si: "inodeAt fs (S @ z @ [n]) = Some i" using copied_src [OF su co] i by simp
  note rp = resolve_dirs [OF roots(1) np T(1) p]
  note rt = resolve_dirs [OF roots(2) nt T(2) t]
  have up: "rootAt (fmupd (D @ z @ [n]) j fs) (comps dst) D" for j by (rule rootAt_upd [OF roots(2) none])
  have dp: "dirPath (fmupd (D @ z @ [n]) j fs) D z" for j
    by (rule dirPath_extends [OF extends_new [OF none] T(2)])
  have ru: "resolve (fmupd (D @ z @ [n]) j fs) True ?t = Inr (D @ z @ [n])" if "\<And>t. j \<noteq> ILink t" for j
    by (rule resolve_dirs(2) [OF up nt dp t]) (simp add: inodeAt_upd that)
  have again: "fmupd (D @ z @ [n]) j (fmupd (D @ z @ [n]) j fs) = fmupd (D @ z @ [n]) j fs" for j
    by (rule fmupd_again) simp
  have ch: "Chmod m ?t (fmupd (D @ z @ [n]) j fs) = Inr (fmupd (D @ z @ [n]) j fs)"
    if "\<And>t. j \<noteq> ILink t" "setMode m j = j" for m j
    using that by (simp add: Chmod_def ru inodeAt_upd again)
  have rel: "Rel src path = Some (Join sep (z @ [n]))" "Join sep (z @ [n]) \<noteq> ''.''"
    using Rel_pathTo [OF abs(1) path _ T(3)] by simp_all
  show ?thesis
  proof (cases i)
    case (IDir m)
    have "MkdirAll m ?t fs = Inr (fmupd (D @ z @ [n]) (IDir m) fs)"
      by (rule MkdirAll_one [OF roots(2) T(2) none t])
    with ch [of "IDir m" m] show ?thesis by (simp add: copyEntry_def rel IDir osPath_abs t(1))
  next
    case (IFile m s)
    have "ReadFile fs path = Inr s" using rp(2) si IFile by (simp add: ReadFile_def Stat_def statWith_def)
    moreover have "writeNewFile m s ?t fs = Inr (fmupd (D @ z @ [n]) (IFile m s) fs)"
      using rt(1) none by (simp add: writeNewFile_def newEntry_def)
    ultimately show ?thesis using ch [of "IFile m s" m] by (simp add: copyEntry_def rel IFile osPath_abs t(1) p(1))
  next
    case (ILink l)
    have "Readlink fs path = Inr l" using rp(1) si ILink by (simp add: Readlink_def Lstat_def statWith_def)
    moreover have "Symlink l ?t fs = Inr (fmupd (D @ z @ [n]) (ILink l) fs)"
      using rt(1) none by (simp add: Symlink_def newEntry_def)
    ultimately show ?thesis by (simp add: copyEntry_def rel ILink osPath_abs t(1) p(1))
  qed
qed

section \<open>Walking the tree\<close>

lemma prefix_exists: "fsWF fs \<Longrightarrow> inodeAt fs (q @ ys) \<noteq> None \<Longrightarrow> inodeAt fs q \<noteq> None"
proof (induction ys rule: rev_induct)
  case (snoc y ys)
  then have "\<exists>m. inodeAt fs (q @ ys) = Some (IDir m)" using parent_dir [of fs "q @ ys" y] by auto
  with snoc show ?case by auto
qed simp

lemma subtree_dir:
  assumes "fsWF fs0" "inodeAt fs0 (S @ z) = Some i"
  shows "subtree S fs0 z = insert z (\<Union>n \<in> fset (children fs0 (S @ z)). subtree S fs0 (z @ [n]))"
proof (intro set_eqI iffI)
  fix w
  assume "w \<in> subtree S fs0 z"
  then obtain y where y: "w = z @ y" "inodeAt fs0 (S @ z @ y) \<noteq> None" by (auto simp: subtree_def)
  show "w \<in> insert z (\<Union>n \<in> fset (children fs0 (S @ z)). subtree S fs0 (z @ [n]))"
  proof (cases y)
    case (Cons n ys)
    have "inodeAt fs0 ((S @ z) @ [n]) \<noteq> None"
      using prefix_exists [OF assms(1), of "S @ z @ [n]" ys] y Cons by simp
    then have "n |\<in>| children fs0 (S @ z)" by (simp add: children_iff)
    moreover have "w \<in> subtree S fs0 (z @ [n])" using y Cons by (auto simp: subtree_def)
    ultimately show ?thesis by blast
  qed (use y in simp)
next
  fix w
  assume "w \<in> insert z (\<Union>n \<in> fset (children fs0 (S @ z)). subtree S fs0 (z @ [n]))"
  then show "w \<in> subtree S fs0 z"
  proof
    assume "w = z"
    with assms(2) show ?thesis by (force simp: subtree_def)
  next
    assume "w \<in> (\<Union>n \<in> fset (children fs0 (S @ z)). subtree S fs0 (z @ [n]))"
    then obtain n y where "w = z @ n # y" "inodeAt fs0 (S @ z @ n # y) \<noteq> None" by (auto simp: subtree_def)
    then show ?thesis unfolding subtree_def by blast
  qed
qed

lemma subtree_leaf:
  assumes "fsWF fs0" "inodeAt fs0 (S @ z) = Some i" "\<not> isDirNode i"
  shows "subtree S fs0 z = {z}"
proof -
  have "inodeAt fs0 ((S @ z) @ [n]) = None" for n
    by (rule absent_not_dir [OF assms(1)]) (use assms(2,3) in auto)
  then have "children fs0 (S @ z) = {||}" using children_iff by (metis all_not_fin_conv)
  with subtree_dir [OF assms(1,2)] show ?thesis by simp
qed

lemma subtree_disjoint: "n \<noteq> k \<Longrightarrow> subtree S fs0 (z @ [n]) \<inter> subtree S fs0 (z @ [k]) = {}"
  by (auto simp: subtree_def)

text \<open>What the recursive call is known to do for one entry of a directory.\<close>

definition copiesEntry ::
  "(string \<Rightarrow> inode \<Rightarrow> fs \<Rightarrow> (fs \<times> copy_error option) option) \<Rightarrow> string \<Rightarrow> string list \<Rightarrow> string list \<Rightarrow> fs \<Rightarrow>
   string list \<Rightarrow> bool" where
  "copiesEntry rec src S D fs0 z \<longleftrightarrow>
     (\<forall>n path X fs i. pathTo src (z @ [n]) path \<longrightarrow> inodeAt fs0 (S @ z @ [n]) = Some i \<longrightarrow> copied S D fs0 X fs \<longrightarrow>
        (\<forall>y. prefix y z \<and> y \<noteq> [] \<longrightarrow> y \<in> X) \<longrightarrow> X \<inter> subtree S fs0 (z @ [n]) = {} \<longrightarrow>
        (\<exists>fs'. rec path i fs = Some (fs', None) \<and> copied S D fs0 (X \<union> subtree S fs0 (z @ [n])) fs'))"

lemma walkNames_ok:
  assumes su: "copySetup src dst S D fs0" and rec: "copiesEntry rec src S D fs0 z" and path: "pathTo src z path"
    and "\<forall>n \<in> set names. inodeAt fs0 (S @ z @ [n]) \<noteq> None" "distinct names"
    and "copied S D fs0 X fs" "\<forall>y. prefix y z \<and> y \<noteq> [] \<longrightarrow> y \<in> X" "\<forall>n \<in> set names. X \<inter> subtree S fs0 (z @ [n]) = {}"
  shows "\<exists>fs'. walkNames rec cwd path names fs = Some (fs', None) \<and>
    copied S D fs0 (X \<union> (\<Union>n \<in> set names. subtree S fs0 (z @ [n]))) fs'"
  using assms(4-)
proof (induction names arbitrary: X fs)
  case (Cons n names)
  then obtain i where i: "inodeAt fs0 (S @ z @ [n]) = Some i" by auto
  note T = tree_paths [OF su Cons.prems(3) i] and roots = copied_roots [OF su Cons.prems(3)]
  have pn: "plainName n" "dirPath fs S z" using T Cons.prems(4) by auto
  have f: "pathTo src (z @ [n]) (JoinPath [path, n])" by (rule pathTo_name [OF path pn(1)])
  let ?f = "JoinPath [path, n]"
  have fp: "IsAbs ?f" "Clean ?f = ?f" "comps ?f = comps src @ z @ [n]" using f by (simp_all add: pathTo_def)
  have "normComps True (comps src @ z @ [n])" using comps_norm [of ?f] fp by simp
  from resolve_dirs(1) [OF roots(1) this pn(2) fp] have l: "Lstat fs (osPath cwd ?f) = Inr i"
    using copied_src [OF su Cons.prems(3), of "z @ [n]"] i by (simp add: osPath_abs fp(1) Lstat_def statWith_def)
  from rec f i Cons.prems obtain fs1 where r: "rec ?f i fs = Some (fs1, None)"
    and c1: "copied S D fs0 (X \<union> subtree S fs0 (z @ [n])) fs1"
    unfolding copiesEntry_def by (metis list.set_intros(1))
  have "(X \<union> subtree S fs0 (z @ [n])) \<inter> subtree S fs0 (z @ [k]) = {}" if "k \<in> set names" for k
    using subtree_disjoint [of n k S fs0 z] Cons.prems(2,5) that by auto
  with Cons.IH [OF _ _ c1] Cons.prems obtain fs' where "walkNames rec cwd path names fs1 = Some (fs', None)"
    "copied S D fs0 ((X \<union> subtree S fs0 (z @ [n])) \<union> (\<Union>n \<in> set names. subtree S fs0 (z @ [n]))) fs'" by auto
  with l r show ?case by (auto simp: Un_assoc)
qed auto

lemma resolve_pathTo:
  assumes su: "copySetup src dst S D fs0" and co: "copied S D fs0 X fs" and path: "pathTo src z path"
    and i: "inodeAt fs0 (S @ z) = Some (IDir m)" and pre: "\<forall>y. strict_prefix y z \<and> y \<noteq> [] \<longrightarrow> y \<in> X"
  shows "resolve fs True path = Inr (S @ z)"
proof (cases z rule: rev_cases)
  case Nil
  have "path = absPathOf (comps src)" using clean_absPathOf [of path] path Nil by (simp add: pathTo_def)
  moreover obtain n where "walk fs maxSymlinks True [] (comps src) = Inr (n, S)" "normComps True (comps src)"
    using copied_roots(1) [OF su co] by (auto simp: rootAt_def)
  ultimately show ?thesis by (simp add: resolve_def rawComps_abs Nil)
next
  case (snoc w c)
  have i': "inodeAt fs0 (S @ w @ [c]) = Some (IDir m)" using i snoc by simp
  have d: "dirPath fs S w"
    by (rule tree_paths(1) [OF su co i']) (use pre snoc in \<open>auto simp: strict_prefix_def prefix_def\<close>)
  have p: "IsAbs path" "Clean path = path" "comps path = comps src @ w @ [c]" using path snoc by (simp_all add: pathTo_def)
  have "normComps True (comps src @ w @ [c])" using comps_norm [of path] p by simp
  from resolve_dirs(2) [OF copied_roots(1) [OF su co] this d p] show ?thesis
    using copied_src [OF su co, of z] i snoc by simp
qed

lemma readDirNames_pathTo:
  assumes "copySetup src dst S D fs0" "copied S D fs0 X fs" "pathTo src z path"
    "inodeAt fs0 (S @ z) = Some (IDir m)" "\<forall>y. strict_prefix y z \<and> y \<noteq> [] \<longrightarrow> y \<in> X"
  shows "readDirNames fs path = Inr (children fs0 (S @ z))"
proof -
  have "children fs (S @ z) = children fs0 (S @ z)"
    by (rule fset_eqI) (use copied_src [OF assms(1,2)] in \<open>simp add: children_iff\<close>)
  with resolve_pathTo [OF assms] copied_src [OF assms(1,2), of z] assms(4) show ?thesis
    by (simp add: readDirNames_def)
qed

lemma copyEntry_root: "copyEntry cwd src dst src i fs = (fs, None)"
  by (simp add: copyEntry_def Rel_def dot_def)

lemma copyEntry_step:
  assumes su: "copySetup src dst S D fs0" and "pathTo src z path" and "z = [] \<Longrightarrow> path = src"
    and i: "inodeAt fs0 (S @ z) = Some i" and co: "copied S D fs0 X fs"
    and pre: "\<forall>y. strict_prefix y z \<and> y \<noteq> [] \<longrightarrow> y \<in> X" and zX: "z \<notin> X"
  shows "\<exists>fs1. copyEntry cwd src dst path i fs = (fs1, None) \<and> copied S D fs0 (if z = [] then X else insert z X) fs1"
proof (cases z rule: rev_cases)
  case Nil
  with assms show ?thesis by (simp add: copyEntry_root)
next
  case (snoc w c)
  have "copyEntry cwd src dst path i fs = (fmupd (D @ w @ [c]) i fs, None)"
    by (rule copyEntry_ok [OF su co]) (use assms snoc in \<open>auto simp: strict_prefix_def prefix_def\<close>)
  with snoc copied_insert [OF su co _ i] show ?thesis by simp
qed

text \<open>One directory, given what the recursive calls do for its entries.\<close>

lemma walkCopy_dir:
  assumes su: "copySetup src dst S D fs0" and rec: "copiesEntry (walkCopy n cwd src dst) src S D fs0 z"
    and path: "pathTo src z path" and z: "z = [] \<Longrightarrow> path = src" and i: "inodeAt fs0 (S @ z) = Some (IDir m)"
    and co: "copied S D fs0 X fs" and pre: "\<forall>y. strict_prefix y z \<and> y \<noteq> [] \<longrightarrow> y \<in> X" and dis: "X \<inter> subtree S fs0 z = {}"
  shows "\<exists>fs'. walkCopy (Suc n) cwd src dst path (IDir m) fs = Some (fs', None) \<and>
    copied S D fs0 (X \<union> (subtree S fs0 z - {[]})) fs'"
proof -
  have wf: "fsWF fs0" using su by (simp add: copySetup_def)
  let ?names = "children fs0 (S @ z)" let ?X1 = "if z = [] then X else insert z X"
  let ?below = "\<Union>k \<in> fset ?names. subtree S fs0 (z @ [k])"
  have sub: "subtree S fs0 z = insert z ?below" by (rule subtree_dir [OF wf i])
  have "z \<notin> X" using sub dis by auto
  from copyEntry_step [OF su path z i co pre this, of cwd] obtain fs1
    where ce: "copyEntry cwd src dst path (IDir m) fs = (fs1, None)" and c1: "copied S D fs0 ?X1 fs1" by blast
  have rd: "readDirNames fs (osPath cwd path) = Inr ?names"
    using readDirNames_pathTo [OF su co path i pre] path by (simp add: pathTo_def osPath_abs)
  have "\<exists>fs'. walkNames (walkCopy n cwd src dst) cwd path (sorted_list_of_fset ?names) fs1 = Some (fs', None) \<and>
      copied S D fs0 (?X1 \<union> (\<Union>k \<in> set (sorted_list_of_fset ?names). subtree S fs0 (z @ [k]))) fs'"
  proof (rule walkNames_ok [OF su rec path _ _ c1])
    show "\<forall>k \<in> set (sorted_list_of_fset ?names). inodeAt fs0 (S @ z @ [k]) \<noteq> None"
      using children_iff [of _ fs0 "S @ z"] by (auto simp: sorted_list_of_fset.rep_eq)
    show "\<forall>y. prefix y z \<and> y \<noteq> [] \<longrightarrow> y \<in> ?X1" using pre by (auto simp: strict_prefix_def)
    show "\<forall>k \<in> set (sorted_list_of_fset ?names). ?X1 \<inter> subtree S fs0 (z @ [k]) = {}"
    proof
      fix k
      assume "k \<in> set (sorted_list_of_fset ?names)"
      then have "k \<in> fset ?names" by (simp add: sorted_list_of_fset.rep_eq)
      then have "subtree S fs0 (z @ [k]) \<subseteq> ?below" by blast
      then have s: "X \<inter> subtree S fs0 (z @ [k]) = {}" 
      proof -
        have "subtree S fs0 (z @ [k]) \<subseteq> subtree S fs0 z" using \<open>subtree S fs0 (z @ [k]) \<subseteq> ?below\<close> sub by (simp add: subset_insertI2)
        with dis show ?thesis by blast
      qed
      have "z \<notin> subtree S fs0 (z @ [k])" by (auto simp: subtree_def)
      with s show "?X1 \<inter> subtree S fs0 (z @ [k]) = {}" by (cases "z = []") simp_all
    qed
  qed (simp add: sorted_list_of_fset.rep_eq)
  then obtain fs' where w: "walkNames (walkCopy n cwd src dst) cwd path (sorted_list_of_fset ?names) fs1 = Some (fs', None)"
    and c: "copied S D fs0 (?X1 \<union> ?below) fs'" by (auto simp: sorted_list_of_fset.rep_eq)
  have "[] \<notin> ?below" by (auto simp: subtree_def)
  then have "?X1 \<union> ?below = X \<union> (subtree S fs0 z - {[]})" unfolding sub by auto
  with c w ce rd show ?thesis by simp
qed

lemma walkCopy_ok:
  assumes su: "copySetup src dst S D fs0"
    and "\<forall>y. inodeAt fs0 (S @ z @ y) \<noteq> None \<longrightarrow> length y < n" and "pathTo src z path" and "z = [] \<Longrightarrow> path = src \<and> isDirNode i"
    and "inodeAt fs0 (S @ z) = Some i" and "copied S D fs0 X fs"
    and "\<forall>y. strict_prefix y z \<and> y \<noteq> [] \<longrightarrow> y \<in> X" and "X \<inter> subtree S fs0 z = {}"
  shows "\<exists>fs'. walkCopy n cwd src dst path i fs = Some (fs', None) \<and> copied S D fs0 (X \<union> (subtree S fs0 z - {[]})) fs'"
  using assms(2-)
proof (induction n arbitrary: z path i X fs)
  case 0
  then show ?case by (metis append_Nil2 less_nat_zero_code option.distinct(1))
next
  case (Suc n)
  have wf: "fsWF fs0" using su by (simp add: copySetup_def)
  show ?case
  proof (cases "isDirNode i")
    case False
    then have "z \<noteq> []" "subtree S fs0 z = {z}" using Suc.prems(3) subtree_leaf [OF wf Suc.prems(4) False] by auto
    moreover from this Suc.prems(7) have "z \<notin> X" by auto
    ultimately show ?thesis
      using False copyEntry_step [OF su Suc.prems(2) _ Suc.prems(4-6), of cwd] by simp
  next
    case True
    then obtain m where i: "i = IDir m" by (cases i) auto
    have "copiesEntry (walkCopy n cwd src dst) src S D fs0 z"
      unfolding copiesEntry_def
    proof (intro allI impI)
      fix k p Y f j
      assume a: "pathTo src (z @ [k]) p" "inodeAt fs0 (S @ z @ [k]) = Some j" "copied S D fs0 Y f"
        "\<forall>y. prefix y z \<and> y \<noteq> [] \<longrightarrow> y \<in> Y" "Y \<inter> subtree S fs0 (z @ [k]) = {}"
      have "length (k # y) < Suc n" if "inodeAt fs0 (S @ (z @ [k]) @ y) \<noteq> None" for y
        using Suc.prems(1) that by (metis append.assoc append_Cons append_Nil)
      then have d: "\<forall>y. inodeAt fs0 (S @ (z @ [k]) @ y) \<noteq> None \<longrightarrow> length y < n" by simp
      have "\<forall>y. strict_prefix y (z @ [k]) \<and> y \<noteq> [] \<longrightarrow> y \<in> Y" using a(4) by (auto simp: strict_prefix_def)
      from Suc.IH [OF d a(1) _ _ a(3) this a(5), of j] a(2)
      have "\<exists>fs'. walkCopy n cwd src dst p j f = Some (fs', None) \<and>
          copied S D fs0 (Y \<union> (subtree S fs0 (z @ [k]) - {[]})) fs'" by simp
      moreover have "[] \<notin> subtree S fs0 (z @ [k])" by (auto simp: subtree_def)
      ultimately show "\<exists>fs'. walkCopy n cwd src dst p j f = Some (fs', None) \<and>
          copied S D fs0 (Y \<union> subtree S fs0 (z @ [k])) fs'" by simp
    qed
    from walkCopy_dir [OF su this Suc.prems(2) _ _ Suc.prems(5-7)] Suc.prems(3,4) show ?thesis by (simp only: i)
  qed
qed

section \<open>The copy as a whole\<close>

lemma copied_start: "copied S D fs {} fs"
  by (simp add: copied_def)

lemma subtree_all: "subtree S fs [] = {y. inodeAt fs (S @ y) \<noteq> None}"
  by (auto simp: subtree_def)


lemma fsWF_new:
  assumes "fsWF fs" "inodeAt fs (q @ [c]) = None" "inodeAt fs q = Some (IDir m)"
  shows "fsWF (fmupd (q @ [c]) i fs)"
  unfolding fsWF_def
proof (intro conjI allI impI)
  show "fmlookup (fmupd (q @ [c]) i fs) [] = None" using assms(1) by (simp add: fsWF_def)
  fix p j
  assume p: "fmlookup (fmupd (q @ [c]) i fs) p = Some j"
  have ext: "extends fs (fmupd (q @ [c]) i fs)" by (rule extends_new [OF assms(2)])
  have "\<exists>m. inodeAt fs (butlast p) = Some (IDir m)"
  proof (cases "p = q @ [c]")
    case False
    with p assms(1) show ?thesis unfolding fsWF_def by simp
  qed (use assms(3) in simp)
  with ext show "\<exists>m. inodeAt (fmupd (q @ [c]) i fs) (butlast p) = Some (IDir m)"
    unfolding extends_def by blast
qed

definition exampleTree :: fs where
  "exampleTree = fmap_of_list [([''img'', ''l''], ILink ''a/f''), ([''img'', ''a'', ''f''], IFile 420 ''x''),
     ([''img'', ''a''], IDir 448), ([''vol''], IDir 493), ([''img''], IDir 493)]"

lemma example_tree_setup:
  "copySetup ''/img'' ''/vol'' [''img''] [''vol''] exampleTree"
  "\<forall>y. inodeAt exampleTree ([''img''] @ y) \<noteq> None \<longrightarrow> length y < 3"
proof -
  let ?t1 = "fmupd ([] @ [''img'']) (IDir 493) fmempty" let ?t2 = "fmupd ([] @ [''vol'']) (IDir 493) ?t1"
  let ?t3 = "fmupd ([''img''] @ [''a'']) (IDir 448) ?t2" let ?t4 = "fmupd ([''img'', ''a''] @ [''f'']) (IFile 420 ''x'') ?t3"
  have d: "exampleTree = fmupd ([''img''] @ [''l'']) (ILink ''a/f'') ?t4" by (simp add: exampleTree_def)
  have "fsWF ?t1" by (rule fsWF_new [where m = 493]) (simp_all add: fsWF_def inodeAt_def)
  then have "fsWF ?t2" by (rule fsWF_new [where m = 493]) (simp_all add: inodeAt_def)
  then have "fsWF ?t3" by (rule fsWF_new [where m = 493]) (simp_all add: inodeAt_def)
  then have "fsWF ?t4" by (rule fsWF_new [where m = 448]) (simp_all add: inodeAt_def)
  then have wf: "fsWF exampleTree" unfolding d by (rule fsWF_new [where m = 493]) (simp_all add: inodeAt_def)
  have "walk exampleTree maxSymlinks True [] (comps ''/img'') = Inr (40, [''img''])"
    "walk exampleTree maxSymlinks True [] (comps ''/vol'') = Inr (40, [''vol''])"
    "inodeAt exampleTree [''img''] = Some (IDir 493)" "inodeAt exampleTree [''vol''] = Some (IDir 493)"
    "Clean ''/img'' = ''/img''" "Clean ''/vol'' = ''/vol''" "IsAbs ''/img''" "IsAbs ''/vol''" by code_simp+
  moreover from this have "normComps True (comps ''/img'')" "normComps True (comps ''/vol'')"
    using comps_norm [of "''/img''"] comps_norm [of "''/vol''"] by simp_all
  moreover have "list_all plainName y \<and> length y < 3" if "inodeAt exampleTree ([''img''] @ y) \<noteq> None" for y
  proof -
    have "y = [] \<or> y = [''l''] \<or> y = [''a''] \<or> y = [''a'', ''f'']"
      using that by (simp add: d inodeAt_def split: if_splits)
    then show ?thesis by (elim disjE) (simp_all add: plainName_def dot_def dotdot_def)
  qed
  moreover have "inodeAt exampleTree ([''vol''] @ [c]) = None" for c by (simp add: d inodeAt_def)
  ultimately show "copySetup ''/img'' ''/vol'' [''img''] [''vol''] exampleTree"
    "\<forall>y. inodeAt exampleTree ([''img''] @ y) \<noteq> None \<longrightarrow> length y < 3"
    using wf by (simp_all add: copySetup_def rootAt_def)
qed


end
