(* ===== verification/Rootfs_Resolve.thy ===== *)
theory Rootfs_Resolve
  imports Rootfs
begin

text \<open>
  \<open>sysbox-snapshotter/rootfs\<close>: which persistent layer a container uses.  \<open>containerd_identity.go\<close>
  maps a snapshot key to a pod and container, \<open>sidecar_metadata.go\<close> finds the container's entry of the
  pod annotation, \<open>containerd_sidecar_spec.go\<close> loads the runtime specification of the sidecar, and
  \<open>pvc_mountpath_resolver.go\<close> reads the volume's path from it.  The containerd client is a parameter:
  a record of the calls that the sources make.  The contents of \<open>/proc/self/mountinfo\<close> is an argument.
\<close>

section \<open>The containerd client\<close>

datatype cd_error = CdNotFound | CdOther string

record CdContainer =
  CdLabels :: "(string, (string, string) fmap) result"
  CdSpec :: "(string, OciSpec option) result"

text \<open>Listing the containers is repeated while the sidecar is missing: its answer depends on the attempt.\<close>

record CdClient =
  LoadContainer :: "string \<Rightarrow> (cd_error, CdContainer) result"
  ListContainers :: "nat \<Rightarrow> string list \<Rightarrow> (string, CdContainer list) result"

section \<open>containerd\_identity.go\<close>

definition rootfsRwLayerRequestFromLabels ::
  "string \<Rightarrow> (string, string) fmap \<Rightarrow> (rootfs_error, RootfsRwLayerRequest) result" where
  "rootfsRwLayerRequestFromLabels snapshotKey labels =
     (let podUID = fmget [] labels ''io.kubernetes.pod.uid''
      in rguard (podUID = []) ErrContainerIdentityIncomplete
         (let containerName = fmget [] labels ''io.kubernetes.container.name''
          in rguard (containerName = []) ErrContainerIdentityUnavailable
             (Inr \<lparr>SnapshotKey = snapshotKey, PodUID = podUID, ContainerName = containerName,
                RootfsRwLayerAnnotation = []\<rparr>)))"

text \<open>The loop over the lookup keys; \<open>None\<close> when every key was not found.\<close>

fun lookupContainer :: "CdClient \<Rightarrow> string list \<Rightarrow> (rootfs_error, (string \<times> CdContainer) option) result" where
  "lookupContainer client [] = Inr None"
| "lookupContainer client (k # ks) =
     (case LoadContainer client k of
        Inr c \<Rightarrow> Inr (Some (k, c))
      | Inl CdNotFound \<Rightarrow> lookupContainer client ks
      | Inl (CdOther e) \<Rightarrow> Inl (ErrContainerd e))"

definition lookupKeys :: "string \<Rightarrow> string list" where
  "lookupKeys snapshotKey =
     snapshotKey # (if Base snapshotKey \<noteq> snapshotKey then [Base snapshotKey] else [])"

definition ResolveIdentity ::
  "(string, CdClient) result \<Rightarrow> string \<Rightarrow> (rootfs_error, RootfsRwLayerRequest) result" where
  "ResolveIdentity connect snapshotKey =
     (case connect of
        Inl e \<Rightarrow> Inl (ErrContainerd e)
      | Inr client \<Rightarrow>
          rbind (lookupContainer client (lookupKeys snapshotKey)) (\<lambda>found.
            case found of
              None \<Rightarrow> Inl ErrContainerIdentityUnavailable
            | Some (key, container) \<Rightarrow>
                (case CdLabels container of
                   Inl e \<Rightarrow> Inl (ErrContainerd e)
                 | Inr labels \<Rightarrow>
                     (case CdSpec container of
                        Inl e \<Rightarrow> Inl (ErrContainerd e)
                      | Inr spec \<Rightarrow>
                          rbind (rootfsRwLayerRequestFromLabels key labels) (\<lambda>request.
                            case spec of
                              None \<Rightarrow> Inr request
                            | Some s \<Rightarrow>
                                Inr (request\<lparr>RootfsRwLayerAnnotation := fmget [] (OciAnnotations s) AnnotationRootfs\<rparr>))))))"

section \<open>containerd\_sidecar\_spec.go\<close>

definition sidecarContainerFilters :: "RootfsRwLayerRequest \<Rightarrow> string list" where
  "sidecarContainerFilters request =
     (if PodUID request = [] then []
      else [''labels.'' @ [quote] @ ''io.kubernetes.pod.uid'' @ [quote] @ ''=='' @ PodUID request @
            '',labels.'' @ [quote] @ ''io.kubernetes.container.name'' @ [quote] @ ''=='' @ SidecarName])"

definition uniqueSidecarSpec :: "OciSpec list \<Rightarrow> (rootfs_error, OciSpec) result" where
  "uniqueSidecarSpec specs =
     (case specs of [] \<Rightarrow> Inl ErrSidecarSpecUnavailable | [s] \<Rightarrow> Inr s | _ \<Rightarrow> Inl ErrSidecarSpecAmbiguous)"

definition collectSpec :: "CdContainer \<Rightarrow> OciSpec list \<Rightarrow> (rootfs_error, OciSpec list) result" where
  "collectSpec container specs =
     (case CdSpec container of
        Inl e \<Rightarrow> Inl (ErrContainerd e)
      | Inr None \<Rightarrow> Inl ErrSidecarSpecMalformed
      | Inr (Some spec) \<Rightarrow> Inr (specs @ [spec]))"

definition loadOnce :: "CdClient \<Rightarrow> RootfsRwLayerRequest \<Rightarrow> nat \<Rightarrow> (rootfs_error, OciSpec) result" where
  "loadOnce client request attempt =
     (case ListContainers client attempt (sidecarContainerFilters request) of
        Inl e \<Rightarrow> Inl (ErrContainerd e)
      | Inr containers \<Rightarrow> rbind (rfold collectSpec containers []) uniqueSidecarSpec)"

text \<open>
  The retry loop from attempt \<open>attempt\<close> with \<open>k\<close> attempts left.  \<open>ctxDone attempt\<close> is the error of the
  context when it is cancelled before the timer of that attempt fires.
\<close>

fun loadLoop ::
  "(nat \<Rightarrow> (rootfs_error, OciSpec) result) \<Rightarrow> (nat \<Rightarrow> string option) \<Rightarrow> nat \<Rightarrow> nat \<Rightarrow>
   (rootfs_error, OciSpec) result" where
  "loadLoop once ctxDone attempt 0 = Inl ErrSidecarSpecUnavailable"
| "loadLoop once ctxDone attempt (Suc k) =
     (if once attempt = Inl ErrSidecarSpecUnavailable
      then (case ctxDone attempt of
              Some e \<Rightarrow> Inl (ErrContext e)
            | None \<Rightarrow> loadLoop once ctxDone (Suc attempt) k)
      else once attempt)"

definition maxAttempts :: nat where
  "maxAttempts = 20"

definition LoadSidecarSpec ::
  "(string, CdClient) result \<Rightarrow> (nat \<Rightarrow> string option) \<Rightarrow> RootfsRwLayerRequest \<Rightarrow> (rootfs_error, OciSpec) result" where
  "LoadSidecarSpec connect ctxDone request =
     rguard (PodUID request = []) ErrSidecarSpecUnavailable
     (case connect of
        Inl e \<Rightarrow> Inl (ErrContainerd e)
      | Inr client \<Rightarrow> loadLoop (loadOnce client request) ctxDone 0 maxAttempts)"

section \<open>sidecar\_metadata.go\<close>

definition zeroIntent :: IntentEntry where
  "zeroIntent = \<lparr>EContainerName = [], EVolumeName = [], EPath = [], EPersistent = False, ESpecialPath = []\<rparr>"

text \<open>The fields of the anonymous struct, copied into \<open>IntentEntry\<close>; unknown keys are ignored.\<close>

definition intentField :: "string \<Rightarrow> json \<Rightarrow> IntentEntry \<Rightarrow> IntentEntry option" where
  "intentField k v e =
     (if fieldMatch ''name'' k then map_option (\<lambda>s. e\<lparr>EContainerName := s\<rparr>) (setString v (EContainerName e))
      else if fieldMatch ''volumeName'' k then map_option (\<lambda>s. e\<lparr>EVolumeName := s\<rparr>) (setString v (EVolumeName e))
      else if fieldMatch ''path'' k then map_option (\<lambda>s. e\<lparr>EPath := s\<rparr>) (setString v (EPath e))
      else if fieldMatch ''persistentSpecialMounts'' k
      then map_option (\<lambda>b. e\<lparr>EPersistent := b\<rparr>) (setBool v (EPersistent e))
      else if fieldMatch ''specialPath'' k
      then map_option (\<lambda>l. e\<lparr>ESpecialPath := l\<rparr>) (setStrings v (ESpecialPath e))
      else Some e)"

definition parsePodAnnotationIntent :: "string \<Rightarrow> (rootfs_error, IntentEntry list) result" where
  "parsePodAnnotationIntent raw =
     (case parseJson raw of
        None \<Rightarrow> Inl ErrDecodeAnnotation
      | Some v \<Rightarrow>
          (case decodeSlice intentField zeroIntent v of
             None \<Rightarrow> Inl ErrDecodeAnnotation
           | Some entries \<Rightarrow> Inr entries))"

text \<open>The loop over the entries: the first one for the container decides.\<close>

fun resolveEntries ::
  "(RootfsRwLayerRequest \<Rightarrow> (rootfs_error, OciSpec) result) \<Rightarrow> RootfsRwLayerRequest \<Rightarrow> IntentEntry list \<Rightarrow>
   (rootfs_error, RootfsRwLayerSpec) result" where
  "resolveEntries load request [] = Inl ErrRootfsRwLayerNotConfigured"
| "resolveEntries load request (entry # entries) =
     (if EContainerName entry \<noteq> ContainerName request then resolveEntries load request entries
      else rbind (safeLayerPath (EPath entry)) (\<lambda>_.
           rbind (load request) (\<lambda>spec.
             Inr \<lparr>SpecVolumeName = EVolumeName entry, SpecPath = EPath entry, SpecPersistent = EPersistent entry,
                SpecSpecialPath = ESpecialPath entry, Sidecar = False, sidecarSpec = Some spec\<rparr>)))"

definition ResolveRootfsRwLayer ::
  "(RootfsRwLayerRequest \<Rightarrow> (rootfs_error, OciSpec) result) \<Rightarrow> RootfsRwLayerRequest \<Rightarrow>
   (rootfs_error, RootfsRwLayerSpec) result" where
  "ResolveRootfsRwLayer load request =
     rguard (ContainerName request = []) ErrContainerIdentityIncomplete
     (rguard (RootfsRwLayerAnnotation request = []) ErrRootfsRwLayerNotConfigured
     (rbind (parsePodAnnotationIntent (RootfsRwLayerAnnotation request)) (\<lambda>entries.
        if ContainerName request = SidecarName
        then rguard (entries = []) ErrRootfsRwLayerNotConfigured (Inr (zeroSpec\<lparr>Sidecar := True\<rparr>))
        else resolveEntries load request entries)))"

section \<open>pvc\_mountpath\_resolver.go\<close>

text \<open>The replacer: at each position the first escape that matches is replaced.\<close>

definition mountEscape :: "string \<Rightarrow> char option" where
  "mountEscape s =
     (if s = ''040'' then Some (CHR '' '')
      else if s = ''011'' then Some (CHR 0x09)
      else if s = ''012'' then Some (CHR 0x0A)
      else if s = ''134'' then Some backslash
      else None)"

function unescapeMountInfoPath :: "string \<Rightarrow> string" where
  "unescapeMountInfoPath s =
     (case s of
        [] \<Rightarrow> []
      | c # cs \<Rightarrow>
          (case (if c = backslash then mountEscape (take 3 cs) else None) of
             Some x \<Rightarrow> x # unescapeMountInfoPath (drop 3 cs)
           | None \<Rightarrow> c # unescapeMountInfoPath cs))"
  by auto
termination
  by (relation "measure length") auto

declare unescapeMountInfoPath.simps [simp del]

definition cleanOCIDestination :: "string \<Rightarrow> string" where
  "cleanOCIDestination destination = Clean (TrimSpace destination)"

definition sysboxSpecialRoot :: string where
  "sysboxSpecialRoot = ''/rootfs/special''"

fun stableFromLines :: "string \<Rightarrow> string list \<Rightarrow> string" where
  "stableFromLines source [] = source"
| "stableFromLines source (line # lines) =
     (let fields = Fields line
      in if length fields < 5 \<or> Clean (unescapeMountInfoPath (fields ! 4)) \<noteq> source
         then stableFromLines source lines
         else let root = Clean (unescapeMountInfoPath (fields ! 3))
              in if root = sysboxSpecialRoot \<or> \<not> HasPrefix root (sysboxSpecialRoot @ ''/'') then source
                 else TrimPrefix root sysboxSpecialRoot)"

definition stablePVCMountPathFromMountInfo ::
  "string \<Rightarrow> (errno, string) result \<Rightarrow> (rootfs_error, string) result" where
  "stablePVCMountPathFromMountInfo source mountInfo =
     (case mountInfo of
        Inl e \<Rightarrow> Inl (ErrOs ''read mountinfo'' e)
      | Inr data \<Rightarrow> Inr (stableFromLines (Clean source) (Split (CHR 0x0A) data)))"

fun findVolumeMount :: "(errno, string) result \<Rightarrow> string \<Rightarrow> OciMount list \<Rightarrow> (rootfs_error, string) result" where
  "findVolumeMount mountInfo target [] = Inl ErrPVCMountNotFound"
| "findVolumeMount mountInfo target (m # ms) =
     (if cleanOCIDestination (Destination m) \<noteq> target then findVolumeMount mountInfo target ms
      else rguard (Source m = []) ErrSidecarSpecMalformed (stablePVCMountPathFromMountInfo (Source m) mountInfo))"

definition ResolvePVCMountPath ::
  "(RootfsRwLayerRequest \<Rightarrow> (rootfs_error, OciSpec) result) \<Rightarrow> (errno, string) result \<Rightarrow>
   RootfsRwLayerRequest \<Rightarrow> RootfsRwLayerSpec \<Rightarrow> (rootfs_error, string) result" where
  "ResolvePVCMountPath load mountInfo request spec =
     rguard (SpecVolumeName spec = []) ErrSidecarSpecMalformed
     (rbind (case sidecarSpec spec of None \<Rightarrow> load request | Some s \<Rightarrow> Inr s) (\<lambda>s.
        findVolumeMount mountInfo (JoinPath [SidecarMountDir, SpecVolumeName spec]) (Mounts s)))"

section \<open>Loading the sidecar specification\<close>

lemma loadLoop_find:
  assumes "\<forall>i < attempt + k. ctxDone i = None"
  shows "loadLoop once ctxDone attempt k =
    (case find (\<lambda>i. once i \<noteq> Inl ErrSidecarSpecUnavailable) [attempt..<attempt + k] of
       None \<Rightarrow> Inl ErrSidecarSpecUnavailable | Some i \<Rightarrow> once i)"
  using assms
proof (induction k arbitrary: attempt)
  case (Suc k)
  have "[attempt..<attempt + Suc k] = attempt # [Suc attempt..<Suc attempt + k]"
    by (simp add: upt_conv_Cons del: upt_Suc)
  with Suc.IH [of "Suc attempt"] Suc.prems show ?case by simp
qed simp

lemma collectSpecs_Inr:
  "rfold collectSpec cs acc = Inr specs \<longleftrightarrow> (\<exists>ss. map CdSpec cs = map (\<lambda>s. Inr (Some s)) ss \<and> specs = acc @ ss)"
proof (induction cs arbitrary: acc)
  case (Cons c cs)
  show ?case
  proof (cases "\<exists>s. CdSpec c = Inr (Some s)")
    case True
    then obtain s where "CdSpec c = Inr (Some s)" by blast
    with Cons.IH [of "acc @ [s]"] show ?thesis by (auto simp: collectSpec_def Cons_eq_map_conv)
  next
    case False
    then have "\<not> (\<exists>x. collectSpec c acc = Inr x)" by (auto simp: collectSpec_def split: sum.splits option.splits)
    with False show ?thesis by (auto simp: rbind_Inr_iff Cons_eq_map_conv)
  qed
qed auto

text \<open>
  Loading the sidecar's specification asks containerd at most twenty times and always returns: as
  long as the context is not cancelled, the result is that of the first attempt that does not report a
  missing sidecar, and a missing sidecar when all twenty do.  A specification is returned only when
  exactly one container matches.
\<close>

theorem LoadSidecarSpec_retry:
  assumes "PodUID request \<noteq> []" and "\<forall>i < maxAttempts. ctxDone i = None"
  shows "LoadSidecarSpec (Inr client) ctxDone request =
      (case find (\<lambda>i. loadOnce client request i \<noteq> Inl ErrSidecarSpecUnavailable) [0..<maxAttempts] of
         None \<Rightarrow> Inl ErrSidecarSpecUnavailable | Some i \<Rightarrow> loadOnce client request i) \<and>
    (LoadSidecarSpec (Inr client) ctxDone request = Inr spec \<longrightarrow>
      (\<exists>i < maxAttempts. \<exists>c. ListContainers client i (sidecarContainerFilters request) = Inr [c] \<and> CdSpec c = Inr (Some spec)))"
proof
  show eq: "LoadSidecarSpec (Inr client) ctxDone request =
      (case find (\<lambda>i. loadOnce client request i \<noteq> Inl ErrSidecarSpecUnavailable) [0..<maxAttempts] of
         None \<Rightarrow> Inl ErrSidecarSpecUnavailable | Some i \<Rightarrow> loadOnce client request i)"
    using assms loadLoop_find [of 0 maxAttempts ctxDone "loadOnce client request"]
    by (simp add: LoadSidecarSpec_def)
  show "LoadSidecarSpec (Inr client) ctxDone request = Inr spec \<longrightarrow>
      (\<exists>i < maxAttempts. \<exists>c. ListContainers client i (sidecarContainerFilters request) = Inr [c] \<and> CdSpec c = Inr (Some spec))"
  proof
    assume "LoadSidecarSpec (Inr client) ctxDone request = Inr spec"
    with eq obtain i where i: "i < maxAttempts" "loadOnce client request i = Inr spec"
      by (auto simp: find_Some_iff split: option.splits)
    then obtain cs specs where cs: "ListContainers client i (sidecarContainerFilters request) = Inr cs"
      "rfold collectSpec cs [] = Inr specs" "uniqueSidecarSpec specs = Inr spec"
      by (auto simp: loadOnce_def rbind_Inr_iff split: sum.splits)
    then have "specs = [spec]" by (auto simp: uniqueSidecarSpec_def split: list.splits)
    with cs(2) obtain c where "cs = [c]" "CdSpec c = Inr (Some spec)"
      by (auto simp: collectSpecs_Inr)
    with i cs(1) show "\<exists>i < maxAttempts. \<exists>c.
      ListContainers client i (sidecarContainerFilters request) = Inr [c] \<and> CdSpec c = Inr (Some spec)" by blast
  qed
qed

text \<open>A containerd where the sidecar's record appears at the third attempt.\<close>

definition exampleSidecar :: OciSpec where
  "exampleSidecar = \<lparr>RootPath = Some ''rootfs'', OciAnnotations = fmempty,
     Mounts = [\<lparr>Destination = ''/proc'', MType = ''proc'', Source = ''proc'', Options = []\<rparr>,
       \<lparr>Destination = ''/var/lib/sysbox/rootfs-rw-volume/data'', MType = ''bind'',
        Source = ''/var/lib/kubelet/pods/u/data'', Options = [''rbind'']\<rparr>]\<rparr>"

definition exampleClient :: CdClient where
  "exampleClient = \<lparr>LoadContainer = \<lambda>_. Inl CdNotFound,
     ListContainers = \<lambda>i _. Inr (if i < 2 then []
       else [\<lparr>CdLabels = Inr fmempty, CdSpec = Inr (Some exampleSidecar)\<rparr>])\<rparr>"

definition exampleLayerRequest :: RootfsRwLayerRequest where
  "exampleLayerRequest = \<lparr>SnapshotKey = ''k8s.io/7/abc'', PodUID = ''u'', ContainerName = ''app'',
     RootfsRwLayerAnnotation = []\<rparr>"

theorem LoadSidecarSpec_retry_witness:
  "LoadSidecarSpec (Inr exampleClient) (\<lambda>_. None) exampleLayerRequest = Inr exampleSidecar"
proof -
  have u: "PodUID exampleLayerRequest \<noteq> []" by (simp add: exampleLayerRequest_def)
  have o: "loadOnce exampleClient exampleLayerRequest i =
      (if i < 2 then Inl ErrSidecarSpecUnavailable else Inr exampleSidecar)" for i
    by (simp add: loadOnce_def exampleClient_def uniqueSidecarSpec_def collectSpec_def)
  have "find (\<lambda>i. loadOnce exampleClient exampleLayerRequest i \<noteq> Inl ErrSidecarSpecUnavailable) [0..<maxAttempts] = Some 2"
    unfolding o maxAttempts_def by (simp add: upt_rec)
  with LoadSidecarSpec_retry [OF u, of "\<lambda>_. None" exampleClient exampleSidecar] show ?thesis by (simp add: o)
qed

section \<open>Reading mountinfo\<close>

text \<open>How the kernel writes one mount: the fields are separated by spaces, and the bytes that would be
  confused with separators are written as octal escapes.\<close>

definition mangleChar :: "char \<Rightarrow> string" where
  "mangleChar c =
     (if c = CHR '' '' then backslash # ''040''
      else if c = CHR 0x09 then backslash # ''011''
      else if c = CHR 0x0A then backslash # ''012''
      else if c = backslash then backslash # ''134''
      else [c])"

definition mangle :: "string \<Rightarrow> string" where
  "mangle s = concat (map mangleChar s)"

record MountInfo =
  MIds :: "string list"
  MRoot :: string
  MPoint :: string
  MRest :: "string list"

definition renderMount :: "MountInfo \<Rightarrow> string" where
  "renderMount m = Join (CHR '' '') (MIds m @ [mangle (MRoot m), mangle (MPoint m)] @ MRest m)"

definition renderMountInfo :: "MountInfo list \<Rightarrow> string" where
  "renderMountInfo ms = Join (CHR 0x0A) (map renderMount ms @ [[]])"

definition plainToken :: "string \<Rightarrow> bool" where
  "plainToken t \<longleftrightarrow> t \<noteq> [] \<and> (\<forall>c \<in> set t. \<not> isSpace c)"

definition plainPath :: "string \<Rightarrow> bool" where
  "plainPath p \<longleftrightarrow> p \<noteq> [] \<and> CHR 0x0B \<notin> set p \<and> CHR 0x0C \<notin> set p \<and> CHR 0x0D \<notin> set p"

definition kernelMount :: "MountInfo \<Rightarrow> bool" where
  "kernelMount m \<longleftrightarrow> length (MIds m) = 3 \<and> list_all plainToken (MIds m) \<and> list_all plainToken (MRest m) \<and>
     plainPath (MRoot m) \<and> plainPath (MPoint m)"

lemma unescape_mangle: "unescapeMountInfoPath (mangle s) = s"
proof (induction s)
  case (Cons c s)
  have m: "mangle (c # s) = mangleChar c @ mangle s" by (simp add: mangle_def)
  show ?case
  proof (cases "c \<in> {CHR '' '', CHR 0x09, CHR 0x0A, backslash}")
    case True
    then obtain ds where ds: "mangleChar c = backslash # ds" "length ds = 3" "mountEscape ds = Some c"
      by (auto simp: mangleChar_def mountEscape_def backslash_def)
    then show ?thesis unfolding m by (subst unescapeMountInfoPath.simps) (simp add: Cons)
  next
    case False
    then have "mangleChar c = [c]" "c \<noteq> backslash" by (auto simp: mangleChar_def)
    then show ?thesis unfolding m by (subst unescapeMountInfoPath.simps) (simp add: Cons)
  qed
qed (simp add: mangle_def unescapeMountInfoPath.simps)

lemma mangle_plain: "plainPath s \<Longrightarrow> plainToken (mangle s)"
proof -
  assume p: "plainPath s"
  have "\<not> isSpace d" if "c \<in> set s" "d \<in> set (mangleChar c)" for c d
  proof -
    have "c \<notin> {CHR 0x0B, CHR 0x0C, CHR 0x0D}" using p that(1) by (auto simp: plainPath_def)
    with that(2) show ?thesis by (auto simp: mangleChar_def isSpace_def backslash_def split: if_splits)
  qed
  moreover have "mangle s \<noteq> []" using p by (cases s) (auto simp: plainPath_def mangle_def mangleChar_def)
  ultimately show ?thesis by (auto simp: plainToken_def mangle_def)
qed

lemma Fields_Join: "list_all plainToken ts \<Longrightarrow> Fields (Join (CHR '' '') ts) = ts"
proof (induction ts rule: induct_list012)
  case (2 t)
  then show ?case by (simp add: Fields_def FieldsFunc_def plainToken_def splitp_no_p)
next
  case (3 t u ts)
  have "splitp isSpace (t @ CHR '' '' # Join (CHR '' '') (u # ts)) = t # splitp isSpace (Join (CHR '' '') (u # ts))"
    using 3 by (intro splitp_append_sep) (auto simp: plainToken_def isSpace_def)
  with 3 show ?case by (simp add: Fields_def FieldsFunc_def plainToken_def)
qed (simp add: Fields_def FieldsFunc_def)

lemma Fields_renderMount:
  "kernelMount m \<Longrightarrow> Fields (renderMount m) = MIds m @ [mangle (MRoot m), mangle (MPoint m)] @ MRest m"
  unfolding renderMount_def by (rule Fields_Join) (simp add: kernelMount_def mangle_plain)

lemma Join_no_char: "c \<noteq> d \<Longrightarrow> \<forall>t \<in> set ts. c \<notin> set t \<Longrightarrow> c \<notin> set (Join d ts)"
  by (induction ts rule: induct_list012) auto

lemma renderMount_no_newline: "kernelMount m \<Longrightarrow> CHR 0x0A \<notin> set (renderMount m)"
proof -
  assume k: "kernelMount m"
  have nl: "plainToken t \<Longrightarrow> CHR 0x0A \<notin> set t" for t by (auto simp: plainToken_def isSpace_def)
  from k have "list_all plainToken (MIds m @ [mangle (MRoot m), mangle (MPoint m)] @ MRest m)"
    by (simp add: kernelMount_def mangle_plain)
  then show ?thesis
    unfolding renderMount_def by (intro Join_no_char) (auto simp: list_all_iff nl)
qed

text \<open>The path of the volume outside the special root, when the mount's root is strictly below it.\<close>

definition hostPath :: "string \<Rightarrow> string option" where
  "hostPath root =
     (if IsAbs root \<and> take 2 (comps root) = [''rootfs'', ''special''] \<and> 2 < length (comps root)
      then Some (absPathOf (drop 2 (comps root))) else None)"

lemma special_prefix:
  "(if Clean root = sysboxSpecialRoot \<or> \<not> HasPrefix (Clean root) (sysboxSpecialRoot @ ''/'') then source
    else TrimPrefix (Clean root) sysboxSpecialRoot) = (case hostPath root of None \<Rightarrow> source | Some p \<Rightarrow> p)"
proof (cases "\<exists>t. Clean root = sysboxSpecialRoot @ sep # t")
  case True
  then obtain t where t: "Clean root = sysboxSpecialRoot @ sep # t" by blast
  have abs: "IsAbs root" using IsAbs_Clean [of root] by (simp add: t sysboxSpecialRoot_def)
  have "comps root \<noteq> []"
    using t abs comps_Nil_iff [of root] by (auto simp: sysboxSpecialRoot_def)
  then have "comps root = Split sep (Join sep (comps root))"
    using comps_elem by (intro Split_Join [symmetric]) blast+
  also have "Join sep (comps root) = ''rootfs'' @ sep # ''special'' @ sep # t"
    using t abs by (simp add: Clean_def unComps_def sysboxSpecialRoot_def)
  also have "Split sep \<dots> = ''rootfs'' # ''special'' # Split sep t"
    by (subst Split_cons, simp)+ simp
  finally have c: "comps root = ''rootfs'' # ''special'' # Split sep t" .
  then have "hostPath root = Some (sep # t)"
    using abs Join_Split [of sep t]
    by (cases "Split sep t") (auto simp: hostPath_def absPathOf_def unComps_def simp del: Join.simps)
  then show ?thesis by (simp add: t HasPrefix_iff)
next
  case False
  then have "\<not> HasPrefix (Clean root) (sysboxSpecialRoot @ ''/'')" by (auto simp: HasPrefix_iff)
  moreover have "hostPath root = None"
  proof (rule ccontr)
    assume "hostPath root \<noteq> None"
    then have h: "IsAbs root" "take 2 (comps root) = [''rootfs'', ''special'']" "2 < length (comps root)"
      by (auto simp: hostPath_def split: if_splits)
    have "comps root = take 2 (comps root) @ drop 2 (comps root)" by (rule append_take_drop_id [symmetric])
    with h(2) have "comps root = ''rootfs'' # ''special'' # drop 2 (comps root)" by simp
    moreover have "drop 2 (comps root) \<noteq> []" using h(3) by simp
    ultimately have "Join sep (comps root) = ''rootfs'' @ sep # ''special'' @ sep # Join sep (drop 2 (comps root))"
      by (metis Join_Cons list.distinct(1))
    with h(1) have "Clean root = sysboxSpecialRoot @ sep # Join sep (drop 2 (comps root))"
      by (simp add: Clean_def unComps_def sysboxSpecialRoot_def)
    with False show False by blast
  qed
  ultimately show ?thesis by simp
qed

lemma stableFromLines_render:
  assumes "list_all kernelMount ms"
  shows "stableFromLines source (map renderMount ms @ [[]]) =
    (case find (\<lambda>m. Clean (MPoint m) = source) ms of
       None \<Rightarrow> source
     | Some m \<Rightarrow> (case hostPath (MRoot m) of None \<Rightarrow> source | Some p \<Rightarrow> p))"
  using assms
proof (induction ms)
  case Nil
  then show ?case by (simp add: Fields_def FieldsFunc_def)
next
  case (Cons m ms)
  then have k: "length (MIds m) = 3" by (simp add: kernelMount_def)
  have f: "Fields (renderMount m) = MIds m @ [mangle (MRoot m), mangle (MPoint m)] @ MRest m"
    using Cons.prems by (simp add: Fields_renderMount)
  have "\<not> length (Fields (renderMount m)) < 5" "Fields (renderMount m) ! 4 = mangle (MPoint m)"
    "Fields (renderMount m) ! 3 = mangle (MRoot m)"
    using k by (simp_all add: f nth_append)
  with Cons special_prefix [of "MRoot m" source] show ?case
    by (cases "Clean (MPoint m) = source") (simp_all add: unescape_mangle Let_def split del: if_split)
qed

text \<open>
  C23.  Reading the volume's stable path is exact on the kernel's text form of the mount table: the
  first mount whose mount point is the given path decides, and when its root lies strictly below
  \<open>/rootfs/special\<close> the result is that root without this prefix; otherwise the path itself, cleaned.
  Paths with spaces, tabs, newlines and backslashes are read back as they are.
\<close>

theorem stablePVCMountPath_correct:
  assumes "list_all kernelMount ms"
  shows "stablePVCMountPathFromMountInfo source (Inr (renderMountInfo ms)) =
    Inr (case find (\<lambda>m. Clean (MPoint m) = Clean source) ms of
       None \<Rightarrow> Clean source
     | Some m \<Rightarrow> (case hostPath (MRoot m) of None \<Rightarrow> Clean source | Some p \<Rightarrow> p))"
proof -
  have "Split (CHR 0x0A) (renderMountInfo ms) = map renderMount ms @ [[]]"
    unfolding renderMountInfo_def
    by (rule Split_Join) (use assms renderMount_no_newline in \<open>auto simp: list_all_iff\<close>)
  with stableFromLines_render [OF assms] show ?thesis
    by (simp add: stablePVCMountPathFromMountInfo_def)
qed

theorem stablePVCMountPath_correct_witness:
  "stablePVCMountPathFromMountInfo ''/var//my vol''
     (Inr (renderMountInfo [\<lparr>MIds = [''22'', ''1'', ''0:5''], MRoot = ''/'', MPoint = ''/proc'', MRest = [''rw'']\<rparr>,
        \<lparr>MIds = [''23'', ''1'', ''8:1''], MRoot = ''/rootfs/special/data/a b'', MPoint = ''/var/my vol'', MRest = [''rw'']\<rparr>])) =
   Inr ''/data/a b''"
proof -
  let ?ms = "[\<lparr>MIds = [''22'', ''1'', ''0:5''], MRoot = ''/'', MPoint = ''/proc'', MRest = [''rw'']\<rparr>,
        \<lparr>MIds = [''23'', ''1'', ''8:1''], MRoot = ''/rootfs/special/data/a b'', MPoint = ''/var/my vol'', MRest = [''rw'']\<rparr>]"
  have k: "list_all kernelMount ?ms" by (simp add: kernelMount_def plainToken_def plainPath_def isSpace_def)
  have "Clean ''/var//my vol'' = ''/var/my vol''" "Clean ''/proc'' = ''/proc''" "Clean ''/var/my vol'' = ''/var/my vol''"
    "hostPath ''/rootfs/special/data/a b'' = Some ''/data/a b''"
    by code_simp+
  with stablePVCMountPath_correct [OF k, of "''/var//my vol''"] show ?thesis by simp
qed

section \<open>Which entry is used\<close>

lemma resolveEntries_Inr:
  "resolveEntries load request entries = Inr spec \<longleftrightarrow>
   (\<exists>e s. find (\<lambda>e. EContainerName e = ContainerName request) entries = Some e \<and>
      is_ok (safeLayerPath (EPath e)) \<and> load request = Inr s \<and>
      spec = \<lparr>SpecVolumeName = EVolumeName e, SpecPath = EPath e, SpecPersistent = EPersistent e,
        SpecSpecialPath = ESpecialPath e, Sidecar = False, sidecarSpec = Some s\<rparr>)"
  by (induction entries) (auto simp: rbind_Inr_iff is_ok_iff)

lemma findVolumeMount_find:
  "findVolumeMount mi target ms =
   (case find (\<lambda>m. cleanOCIDestination (Destination m) = target) ms of
      None \<Rightarrow> Inl ErrPVCMountNotFound
    | Some m \<Rightarrow> rguard (Source m = []) ErrSidecarSpecMalformed (stablePVCMountPathFromMountInfo (Source m) mi))"
  by (induction ms) auto

end
