(* ===== verification/Snapshotter.thy ===== *)
theory Snapshotter
  imports Rootfs_Resolve Handoff "HOL-Library.List_Lexorder" "HOL-Library.Char_ord"
begin

text \<open>
  \<open>sysbox-snapshotter/fuseoverlayfs.go\<close>: the containerd snapshotter.  The metadata store (package
  \<open>storage\<close> of containerd) is a parameter: a record of its operations on a database of any type.  A
  transaction works on a copy of the database that \<open>Commit\<close> makes the current one; the number of
  transactions left open is part of the state.  Mounting, unmounting, copying a tree between layers and
  measuring disk usage are parameters as well; the file system is the one of \<open>Go_Os\<close>.
\<close>

section \<open>Trees in the file system\<close>

text \<open>\<open>os.RemoveAll\<close>: a missing path is no error.\<close>

definition RemoveAll :: "string \<Rightarrow> fs \<Rightarrow> (errno, fs) result" where
  "RemoveAll p fs =
     (case resolve fs False p of
        Inl ENOENT \<Rightarrow> Inr fs
      | Inl e \<Rightarrow> Inl e
      | Inr q \<Rightarrow> if q = [] then Inl (EOTHER ''EBUSY'') else Inr (fmfilter (\<lambda>r. \<not> prefix q r) fs))"

definition removeAllQuietly :: "string \<Rightarrow> fs \<Rightarrow> fs" where
  "removeAllQuietly p fs = (case RemoveAll p fs of Inl _ \<Rightarrow> fs | Inr fs' \<Rightarrow> fs')"

text \<open>\<open>os.Rename\<close> of a directory to a name that is free or an empty directory.\<close>

definition moveTree :: "string list \<Rightarrow> string list \<Rightarrow> fs \<Rightarrow> fs" where
  "moveTree q r fs =
     fmadd (fmfilter (\<lambda>p. \<not> prefix q p) fs)
       (fmap_of_list (map (\<lambda>(p, i). (r @ drop (length q) p, i)) (filter (\<lambda>(p, i). prefix q p) (sorted_list_of_fmap fs))))"

definition RenameDir :: "string \<Rightarrow> string \<Rightarrow> fs \<Rightarrow> (errno, fs) result" where
  "RenameDir old new fs =
     rbind (resolve fs False old) (\<lambda>q.
     rbind (resolve fs False new) (\<lambda>r.
       case inodeAt fs q of
         None \<Rightarrow> Inl ENOENT
       | Some _ \<Rightarrow>
           (if prefix q r \<and> q \<noteq> r then Inl EINVAL
            else case inodeAt fs r of
              None \<Rightarrow> Inr (moveTree q r fs)
            | Some (IDir _) \<Rightarrow> if children fs r = {||} then Inr (moveTree q r fs) else Inl ENOTEMPTY
            | Some _ \<Rightarrow> Inl ENOTDIR)))"

text \<open>\<open>os.MkdirTemp(dir, pattern)\<close>: the first free name among the random ones.\<close>

fun mkdirTemp :: "string \<Rightarrow> string \<Rightarrow> nat list \<Rightarrow> fs \<Rightarrow> (errno, fs \<times> string) result" where
  "mkdirTemp dir pat [] fs = Inl EEXIST"
| "mkdirTemp dir pat (r # rs) fs =
     (case Mkdir 448 (tempName dir pat r) fs of
        Inr fs' \<Rightarrow> Inr (fs', tempName dir pat r)
      | Inl EEXIST \<Rightarrow> mkdirTemp dir pat rs fs
      | Inl e \<Rightarrow> Inl e)"

text \<open>\<open>os.WriteFile\<close>.\<close>

definition WriteFile :: "nat \<Rightarrow> string \<Rightarrow> string \<Rightarrow> fs \<Rightarrow> (errno, fs) result" where
  "WriteFile perm content p fs =
     rbind (resolve fs True p) (\<lambda>q.
       case inodeAt fs q of
         None \<Rightarrow> Inr (fmupd q (IFile perm content) fs)
       | Some (IFile m _) \<Rightarrow> Inr (fmupd q (IFile m content) fs)
       | Some (IDir _) \<Rightarrow> Inl EISDIR
       | Some (ILink _) \<Rightarrow> Inl ELOOP)"

section \<open>Types\<close>

datatype Kind = KindUnknown | KindView | KindActive | KindCommitted

record Snapshot =
  SKind :: Kind
  SID :: string
  ParentIDs :: "string list"

record Info =
  IKind :: Kind
  IName :: string
  ILabels :: "(string, string) fmap"

definition zeroInfo :: Info where
  "zeroInfo = \<lparr>IKind = KindUnknown, IName = [], ILabels = fmempty\<rparr>"

record Usage =
  UInodes :: int
  USize :: int

record Mount =
  MtType :: string
  MtSource :: string
  MtOptions :: "string list"

datatype snap_error =
    SnapStore string
  | SnapRootfs rootfs_error
  | SnapOs string errno
  | SnapDiskUsage string
  | SnapMount string
  | SnapCopy string
  | SnapExpectedOneMount
  | SnapNoUpperOrWork
  | SnapHandoffStoreMissing

record 'db StorageOps =
  stGetInfo :: "'db \<Rightarrow> string \<Rightarrow> (string, string \<times> Info \<times> Usage) result"
  stGetSnapshot :: "'db \<Rightarrow> string \<Rightarrow> (string, Snapshot) result"
  stUpdateInfo :: "'db \<Rightarrow> Info \<Rightarrow> string list \<Rightarrow> (string, 'db \<times> Info) result"
  stCreateSnapshot :: "'db \<Rightarrow> Kind \<Rightarrow> string \<Rightarrow> string \<Rightarrow> (string, 'db \<times> Snapshot) result"
  stCommitActive :: "'db \<Rightarrow> string \<Rightarrow> string \<Rightarrow> Usage \<Rightarrow> (string, 'db) result"
  stRemove :: "'db \<Rightarrow> string \<Rightarrow> (string, 'db) result"
  stIDMap :: "'db \<Rightarrow> (string, (string, string) fmap) result"
  stBegin :: "string option"
  stCommit :: "string option"

record Hooks =
  HIdentity :: "(string \<Rightarrow> (rootfs_error, RootfsRwLayerRequest) result) option"
  HMetadata :: "(RootfsRwLayerRequest \<Rightarrow> (rootfs_error, RootfsRwLayerSpec) result) option"
  HPVC :: "(RootfsRwLayerRequest \<Rightarrow> RootfsRwLayerSpec \<Rightarrow> (rootfs_error, string) result) option"
  HPreparer :: "(PrepareRootfsRequest \<Rightarrow> fs \<Rightarrow> fs \<times> (rootfs_error, PreparedRootfs) result) option"
  HStoreWrite :: "(PersistentSpecialHandoff \<Rightarrow> fs \<Rightarrow> fs \<times> rootfs_error option) option"
  HStoreRemove :: "(string \<Rightarrow> fs \<Rightarrow> fs \<times> rootfs_error option) option"

text \<open>What the process sees of the system: the user namespace map, mounting and copying.\<close>

record SysEnv =
  UidMap :: "(errno, string) result"
  DoMount :: "Mount \<Rightarrow> string \<Rightarrow> fs \<Rightarrow> fs \<times> string option"
  DoUnmount :: "string \<Rightarrow> fs \<Rightarrow> fs"
  CopyTree :: "string \<Rightarrow> string \<Rightarrow> fs \<Rightarrow> fs \<times> string option"
  DiskUsage :: "string \<Rightarrow> fs \<Rightarrow> (string, Usage) result"
  LchownErr :: "string \<Rightarrow> fs \<Rightarrow> errno option"
  Rnds :: "nat list"

record 'db SnapState =
  Db :: 'db
  Fs :: fs
  OpenTx :: nat

record snapshotter =
  sRoot :: string
  asyncRemove :: bool
  rootfsHooks :: Hooks

section \<open>Paths and mounts\<close>

definition fuseType :: string where
  "fuseType = ''fuse3.'' @ ''fuse-overlayfs''"

definition upperPath :: "snapshotter \<Rightarrow> string \<Rightarrow> string" where
  "upperPath o' i = JoinPath [sRoot o', ''snapshots'', i, ''fs'']"

definition workPath :: "snapshotter \<Rightarrow> string \<Rightarrow> string" where
  "workPath o' i = JoinPath [sRoot o', ''snapshots'', i, ''work'']"

definition convertIDMappingOption :: "string \<Rightarrow> string" where
  "convertIDMappingOption label = map (\<lambda>c. if c = CHR '','' then CHR '':'' else c) label"

definition runningInNestedUserNS :: "(errno, string) result \<Rightarrow> bool" where
  "runningInNestedUserNS uidMap =
     (case uidMap of
        Inl _ \<Rightarrow> False
      | Inr b \<Rightarrow>
          let fields = Fields b
          in if length fields < 3 \<or> fields ! 0 \<noteq> ''0'' then False
             else case ParseUint 32 (fields ! 1) of
               (_, Some _) \<Rightarrow> False
             | (hostID, None) \<Rightarrow> hostID \<noteq> 0)"

definition rewriteOption :: "string \<Rightarrow> string \<Rightarrow> string \<Rightarrow> string \<Rightarrow> string" where
  "rewriteOption typ upperDir workDir opt =
     (if typ = fuseType \<and> HasPrefix opt ''upperdir='' then ''upperdir='' @ upperDir
      else if typ = fuseType \<and> HasPrefix opt ''workdir='' then ''workdir='' @ workDir
      else opt)"

definition rewriteFuseOverlayMounts :: "Mount list \<Rightarrow> string \<Rightarrow> string \<Rightarrow> Mount list" where
  "rewriteFuseOverlayMounts mounts upperDir workDir =
     map (\<lambda>m. m\<lparr>MtOptions := map (rewriteOption (MtType m) upperDir workDir) (MtOptions m)\<rparr>) mounts"

fun scanOptions :: "string list \<Rightarrow> string \<times> string \<Rightarrow> string \<times> string" where
  "scanOptions [] uw = uw"
| "scanOptions (opt # opts) (u, w) =
     (if HasPrefix opt ''upperdir='' then scanOptions opts (TrimPrefix opt ''upperdir='', w)
      else if HasPrefix opt ''workdir='' then scanOptions opts (u, TrimPrefix opt ''workdir='')
      else scanOptions opts (u, w))"

definition materializedRootfsPaths :: "Mount list \<Rightarrow> (snap_error, string \<times> string) result" where
  "materializedRootfsPaths mounts =
     (case mounts of
        [m] \<Rightarrow>
          if MtType m \<noteq> fuseType then Inl SnapExpectedOneMount
          else let (upper, work) = scanOptions (MtOptions m) ([], [])
               in rguard (upper = [] \<or> work = []) SnapNoUpperOrWork (Inr (upper, work))
      | _ \<Rightarrow> Inl SnapExpectedOneMount)"

section \<open>The rootfs hook\<close>

definition handoffOf :: "RootfsRwLayerRequest \<Rightarrow> RootfsRwLayerSpec \<Rightarrow> string \<Rightarrow> PersistentSpecialHandoff" where
  "handoffOf request spec pvcMountPath =
     \<lparr>HVersion = PersistentSpecialHandoffVersion, HSnapshotKey = SnapshotKey request, HPodUID = PodUID request,
      HContainerName = ContainerName request, HVolumeName = SpecVolumeName spec, HPVCMountPath = pvcMountPath\<rparr>"

definition prepareOf :: "RootfsRwLayerRequest \<Rightarrow> RootfsRwLayerSpec \<Rightarrow> string \<Rightarrow> PrepareRootfsRequest" where
  "prepareOf request spec pvcMountPath =
     \<lparr>PrepSnapshotKey = SnapshotKey request, PrepPodUID = PodUID request, PrepContainerName = ContainerName request,
      PrepPath = SpecPath spec, PVCMountPath = pvcMountPath\<rparr>"

definition hookLayer ::
  "Hooks \<Rightarrow> RootfsRwLayerRequest \<Rightarrow> RootfsRwLayerSpec \<Rightarrow> string \<Rightarrow>
   (PrepareRootfsRequest \<Rightarrow> fs \<Rightarrow> fs \<times> (rootfs_error, PreparedRootfs) result) \<Rightarrow> Mount list \<Rightarrow> fs \<Rightarrow>
   fs \<times> (snap_error, Mount list) result" where
  "hookLayer hooks request spec pvcMountPath prepare mounts fs =
     (case prepare (prepareOf request spec pvcMountPath) fs of
        (fs1, Inl e) \<Rightarrow> (fs1, Inl (SnapRootfs e))
      | (fs1, Inr prepared) \<Rightarrow>
          let rewritten = rewriteFuseOverlayMounts mounts (UpperDir prepared) (WorkDir prepared)
          in if \<not> SpecPersistent spec then (fs1, Inr rewritten)
             else case HStoreWrite hooks of
               None \<Rightarrow> (fs1, Inl SnapHandoffStoreMissing)
             | Some store \<Rightarrow>
                 (case store (handoffOf request spec pvcMountPath) fs1 of
                    (fs2, Some e) \<Rightarrow> (fs2, Inl (SnapRootfs e))
                  | (fs2, None) \<Rightarrow> (fs2, Inr rewritten)))"

definition applyRootfsHook ::
  "Hooks \<Rightarrow> string \<Rightarrow> Mount list \<Rightarrow> fs \<Rightarrow> fs \<times> (snap_error, Mount list) result" where
  "applyRootfsHook hooks snapshotKey mounts fs =
     (case (HIdentity hooks, HMetadata hooks, HPVC hooks, HPreparer hooks) of
        (Some identity, Some metadata, Some pvc, Some prepare) \<Rightarrow>
          (case identity snapshotKey of
             Inl e \<Rightarrow> if e = ErrContainerIdentityUnavailable then (fs, Inr mounts) else (fs, Inl (SnapRootfs e))
           | Inr request \<Rightarrow>
               (case metadata request of
                  Inl e \<Rightarrow> if e = ErrRootfsRwLayerNotConfigured then (fs, Inr mounts) else (fs, Inl (SnapRootfs e))
                | Inr spec \<Rightarrow>
                    if Sidecar spec then (fs, Inr mounts)
                    else (case pvc request spec of
                      Inl e \<Rightarrow> (fs, Inl (SnapRootfs e))
                    | Inr pvcMountPath \<Rightarrow> hookLayer hooks request spec pvcMountPath prepare mounts fs)))
      | _ \<Rightarrow> (fs, Inr mounts))"

section \<open>Mounts of a snapshot\<close>

definition materializeActiveSnapshot ::
  "snapshotter \<Rightarrow> SysEnv \<Rightarrow> string \<Rightarrow> Mount \<Rightarrow> string \<Rightarrow> string \<Rightarrow> fs \<Rightarrow> fs \<times> snap_error option" where
  "materializeActiveSnapshot sn env snapshotID mergedMount upper work fs =
     (let marker = JoinPath [work, ''.sysbox-materialized-rootfs'']
      in case Stat fs marker of
           Inr _ \<Rightarrow> (fs, None)
         | Inl e \<Rightarrow>
             if e \<noteq> ENOENT then (fs, Some (SnapOs ''stat rootfs materialization marker'' e))
             else let merged = JoinPath [sRoot sn, ''snapshots'', snapshotID, ''merged'']
                  in (case MkdirAll 493 merged fs of
                        Inl e \<Rightarrow> (fs, Some (SnapOs ''create temporary merged rootfs'' e))
                      | Inr fs1 \<Rightarrow>
                          (case DoMount env mergedMount merged fs1 of
                             (fs2, Some e) \<Rightarrow> (fs2, Some (SnapMount e))
                           | (fs2, None) \<Rightarrow>
                               (case CopyTree env upper merged fs2 of
                                  (fs3, Some e) \<Rightarrow> (DoUnmount env merged fs3, Some (SnapCopy e))
                                | (fs3, None) \<Rightarrow>
                                    (case WriteFile 384 (''materialized'' @ [CHR 0x0A]) marker fs3 of
                                       Inl e \<Rightarrow> (DoUnmount env merged fs3, Some (SnapOs ''write rootfs materialization marker'' e))
                                     | Inr fs4 \<Rightarrow> (DoUnmount env merged fs4, None))))))"

definition idMappingOptions :: "(string, string) fmap \<Rightarrow> string list" where
  "idMappingOptions labels =
     (case fmlookup labels ''containerd.io/snapshot/uidmapping'' of
        None \<Rightarrow> [] | Some m \<Rightarrow> [''uidmapping='' @ convertIDMappingOption m]) @
     (case fmlookup labels ''containerd.io/snapshot/gidmapping'' of
        None \<Rightarrow> [] | Some m \<Rightarrow> [''gidmapping='' @ convertIDMappingOption m])"

definition overlayOptions :: "snapshotter \<Rightarrow> Snapshot \<Rightarrow> Info \<Rightarrow> string list" where
  "overlayOptions sn s info =
     (if SKind s = KindActive then [''workdir='' @ workPath sn (SID s), ''upperdir='' @ upperPath sn (SID s)] else []) @
     [''lowerdir='' @ Join (CHR '':'') (map (upperPath sn) (ParentIDs s))] @
     (let ids = idMappingOptions (ILabels info)
      in if ids \<noteq> [] then [''nodev,'' @ Join (CHR '','') ids] else [])"

definition snapMounts ::
  "snapshotter \<Rightarrow> SysEnv \<Rightarrow> string \<Rightarrow> Snapshot \<Rightarrow> Info \<Rightarrow> fs \<Rightarrow> fs \<times> (snap_error, Mount list) result" where
  "snapMounts sn env key s info fs =
     (if ParentIDs s = []
      then (fs, Inr [\<lparr>MtType = ''bind'', MtSource = upperPath sn (SID s),
                  MtOptions = [if SKind s = KindView then ''ro'' else ''rw'', ''rbind'']\<rparr>])
      else if SKind s \<noteq> KindActive \<and> length (ParentIDs s) = 1
      then (fs, Inr [\<lparr>MtType = ''bind'', MtSource = upperPath sn (hd (ParentIDs s)), MtOptions = [''ro'', ''rbind'']\<rparr>])
      else let mounts = [\<lparr>MtType = fuseType, MtSource = ''overlay'', MtOptions = overlayOptions sn s info\<rparr>]
           in if SKind s = KindActive \<and> runningInNestedUserNS (UidMap env)
              then (case applyRootfsHook (rootfsHooks sn) key mounts fs of
                      (fs1, Inl e) \<Rightarrow> (fs1, Inl e)
                    | (fs1, Inr rewritten) \<Rightarrow>
                        (case materializedRootfsPaths rewritten of
                           Inl e \<Rightarrow> (fs1, Inl e)
                         | Inr (upper, work) \<Rightarrow>
                             (case materializeActiveSnapshot sn env (SID s) (hd rewritten) upper work fs1 of
                                (fs2, Some e) \<Rightarrow> (fs2, Inl e)
                              | (fs2, None) \<Rightarrow>
                                  (fs2, Inr [\<lparr>MtType = ''bind'', MtSource = upper, MtOptions = [''rw'', ''rbind'']\<rparr>]))))
              else if SKind s \<noteq> KindActive then (fs, Inr mounts)
              else applyRootfsHook (rootfsHooks sn) key mounts fs)"

section \<open>Snapshot operations\<close>

definition snapStat :: "'db StorageOps \<Rightarrow> string \<Rightarrow> 'db SnapState \<Rightarrow> (snap_error, Info) result" where
  "snapStat ops key st =
     (case stBegin ops of
        Some e \<Rightarrow> Inl (SnapStore e)
      | None \<Rightarrow> (case stGetInfo ops (Db st) key of Inl e \<Rightarrow> Inl (SnapStore e) | Inr (i, info, usage) \<Rightarrow> Inr info))"

definition snapUpdate ::
  "'db StorageOps \<Rightarrow> Info \<Rightarrow> string list \<Rightarrow> 'db SnapState \<Rightarrow> 'db SnapState \<times> (snap_error, Info) result" where
  "snapUpdate ops info fieldpaths st =
     (case stBegin ops of
        Some e \<Rightarrow> (st, Inl (SnapStore e))
      | None \<Rightarrow>
          (case stUpdateInfo ops (Db st) info fieldpaths of
             Inl e \<Rightarrow> (st, Inl (SnapStore e))
           | Inr (db, info') \<Rightarrow>
               (case stCommit ops of Some e \<Rightarrow> (st, Inl (SnapStore e)) | None \<Rightarrow> (st\<lparr>Db := db\<rparr>, Inr info'))))"

definition snapUsage ::
  "'db StorageOps \<Rightarrow> snapshotter \<Rightarrow> SysEnv \<Rightarrow> string \<Rightarrow> 'db SnapState \<Rightarrow> (snap_error, Usage) result" where
  "snapUsage ops sn env key st =
     (case stBegin ops of
        Some e \<Rightarrow> Inl (SnapStore e)
      | None \<Rightarrow>
          (case stGetInfo ops (Db st) key of
             Inl e \<Rightarrow> Inl (SnapStore e)
           | Inr (i, info, usage) \<Rightarrow>
               if IKind info = KindActive
               then (case DiskUsage env (upperPath sn i) (Fs st) of Inl e \<Rightarrow> Inl (SnapDiskUsage e) | Inr du \<Rightarrow> Inr du)
               else Inr usage))"

text \<open>The early return when \<open>GetSnapshot\<close> fails leaves its transaction open.\<close>

definition snapMountsOp ::
  "'db StorageOps \<Rightarrow> snapshotter \<Rightarrow> SysEnv \<Rightarrow> string \<Rightarrow> 'db SnapState \<Rightarrow>
   'db SnapState \<times> (snap_error, Mount list) result" where
  "snapMountsOp ops sn env key st =
     (case stBegin ops of
        Some e \<Rightarrow> (st, Inl (SnapStore e))
      | None \<Rightarrow>
          (case stGetSnapshot ops (Db st) key of
             Inl e \<Rightarrow> (st\<lparr>OpenTx := OpenTx st + 1\<rparr>, Inl (SnapStore e))
           | Inr s \<Rightarrow>
               (case stGetInfo ops (Db st) key of
                  Inl e \<Rightarrow> (st, Inl (SnapStore e))
                | Inr (i, info, usage) \<Rightarrow>
                    (let (fs, r) = snapMounts sn env key s info (Fs st) in (st\<lparr>Fs := fs\<rparr>, r)))))"

definition snapCommit ::
  "'db StorageOps \<Rightarrow> snapshotter \<Rightarrow> SysEnv \<Rightarrow> string \<Rightarrow> string \<Rightarrow> 'db SnapState \<Rightarrow>
   'db SnapState \<times> snap_error option" where
  "snapCommit ops sn env name key st =
     (case stBegin ops of
        Some e \<Rightarrow> (st, Some (SnapStore e))
      | None \<Rightarrow>
          (case stGetInfo ops (Db st) key of
             Inl e \<Rightarrow> (st, Some (SnapStore e))
           | Inr (i, info, u) \<Rightarrow>
               (case DiskUsage env (upperPath sn i) (Fs st) of
                  Inl e \<Rightarrow> (st, Some (SnapDiskUsage e))
                | Inr usage \<Rightarrow>
                    (case stCommitActive ops (Db st) key name usage of
                       Inl e \<Rightarrow> (st, Some (SnapStore e))
                     | Inr db \<Rightarrow>
                         (case stCommit ops of Some e \<Rightarrow> (st, Some (SnapStore e)) | None \<Rightarrow> (st\<lparr>Db := db\<rparr>, None))))))"

definition snapshotsDir :: "snapshotter \<Rightarrow> string" where
  "snapshotsDir sn = JoinPath [sRoot sn, ''snapshots'']"

definition getCleanupDirectories ::
  "'db StorageOps \<Rightarrow> snapshotter \<Rightarrow> 'db \<Rightarrow> fs \<Rightarrow> (snap_error, string list) result" where
  "getCleanupDirectories ops sn db fs =
     (case stIDMap ops db of
        Inl e \<Rightarrow> Inl (SnapStore e)
      | Inr ids \<Rightarrow>
          (case readDirNames fs (snapshotsDir sn) of
             Inl e \<Rightarrow> Inl (SnapOs ''readdir'' e)
           | Inr dirs \<Rightarrow>
               Inr (map (\<lambda>d. JoinPath [snapshotsDir sn, d])
                 (filter (\<lambda>d. fmlookup ids d = None) (sorted_list_of_fset dirs)))))"

definition removeDirs :: "string list \<Rightarrow> fs \<Rightarrow> fs" where
  "removeDirs dirs fs = fold removeAllQuietly dirs fs"

definition cleanupDirectories ::
  "'db StorageOps \<Rightarrow> snapshotter \<Rightarrow> 'db SnapState \<Rightarrow> (snap_error, string list) result" where
  "cleanupDirectories ops sn st =
     (case stBegin ops of
        Some e \<Rightarrow> Inl (SnapStore e)
      | None \<Rightarrow> getCleanupDirectories ops sn (Db st) (Fs st))"

definition Cleanup ::
  "'db StorageOps \<Rightarrow> snapshotter \<Rightarrow> 'db SnapState \<Rightarrow> 'db SnapState \<times> snap_error option" where
  "Cleanup ops sn st =
     (case cleanupDirectories ops sn st of
        Inl e \<Rightarrow> (st, Some e)
      | Inr dirs \<Rightarrow> (st\<lparr>Fs := removeDirs dirs (Fs st)\<rparr>, None))"

text \<open>The loop over the handoff keys; errors are only logged.\<close>

definition removeHandoffs :: "Hooks \<Rightarrow> string \<Rightarrow> fs \<Rightarrow> fs" where
  "removeHandoffs hooks key fs =
     (case HStoreRemove hooks of
        None \<Rightarrow> fs
      | Some remove \<Rightarrow>
          fold (\<lambda>k fs. fst (remove k fs)) (key # (if Base key \<noteq> key then [Base key] else [])) fs)"

definition snapRemove ::
  "'db StorageOps \<Rightarrow> snapshotter \<Rightarrow> string \<Rightarrow> 'db SnapState \<Rightarrow> 'db SnapState \<times> snap_error option" where
  "snapRemove ops sn key st =
     (case stBegin ops of
        Some e \<Rightarrow> (st, Some (SnapStore e))
      | None \<Rightarrow>
          (case stRemove ops (Db st) key of
             Inl e \<Rightarrow> (st, Some (SnapStore e))
           | Inr db \<Rightarrow>
               (case (if asyncRemove sn then Inr [] else getCleanupDirectories ops sn db (Fs st)) of
                  Inl e \<Rightarrow> (st, Some e)
                | Inr removals \<Rightarrow>
                    (case stCommit ops of
                       Some e \<Rightarrow> (st, Some (SnapStore e))
                     | None \<Rightarrow>
                         (st\<lparr>Db := db, Fs := removeDirs removals (removeHandoffs (rootfsHooks sn) key (Fs st))\<rparr>, None)))))"

text \<open>The temporary directory, even when creating something in it fails: the caller removes it.\<close>

definition prepareDirectory :: "nat list \<Rightarrow> string \<Rightarrow> Kind \<Rightarrow> fs \<Rightarrow> fs \<times> string \<times> snap_error option" where
  "prepareDirectory rnds snapshotDir kind fs =
     (case mkdirTemp snapshotDir ''new-'' rnds fs of
        Inl e \<Rightarrow> (fs, [], Some (SnapOs ''failed to create temp dir'' e))
      | Inr (fs1, td) \<Rightarrow>
          (case Mkdir 493 (JoinPath [td, ''fs'']) fs1 of
             Inl e \<Rightarrow> (fs1, td, Some (SnapOs ''mkdir'' e))
           | Inr fs2 \<Rightarrow>
               if kind = KindActive
               then (case Mkdir 457 (JoinPath [td, ''work'']) fs2 of
                       Inl e \<Rightarrow> (fs2, td, Some (SnapOs ''mkdir'' e))
                     | Inr fs3 \<Rightarrow> (fs3, td, None))
               else (fs2, td, None)))"

text \<open>The deferred removal of the temporary and of the final directory after an error.\<close>

definition reclaim :: "string \<Rightarrow> string \<Rightarrow> fs \<Rightarrow> fs" where
  "reclaim td path fs =
     (let fs1 = (if td = [] then fs else removeAllQuietly td fs)
      in if path = [] then fs1 else removeAllQuietly path fs1)"

definition parentOwner :: "snapshotter \<Rightarrow> SysEnv \<Rightarrow> Snapshot \<Rightarrow> string \<Rightarrow> fs \<Rightarrow> snap_error option" where
  "parentOwner sn env s td fs =
     (case ParentIDs s of
        [] \<Rightarrow> None
      | p # _ \<Rightarrow>
          (case Stat fs (upperPath sn p) of
             Inl e \<Rightarrow> Some (SnapOs ''failed to stat parent'' e)
           | Inr _ \<Rightarrow>
               (case LchownErr env (JoinPath [td, ''fs'']) fs of
                  Some e \<Rightarrow> Some (SnapOs ''failed to chown'' e)
                | None \<Rightarrow> None)))"

definition infoOrZero :: "(string, string \<times> Info \<times> Usage) result \<Rightarrow> Info" where
  "infoOrZero r = (case r of Inl _ \<Rightarrow> zeroInfo | Inr (i, info, u) \<Rightarrow> info)"

text \<open>From the rename on: the transaction is committed before the mounts are computed.\<close>

definition finishSnapshot ::
  "'db StorageOps \<Rightarrow> snapshotter \<Rightarrow> SysEnv \<Rightarrow> string \<Rightarrow> Snapshot \<Rightarrow> 'db \<Rightarrow> string \<Rightarrow> fs \<Rightarrow> 'db SnapState \<Rightarrow>
   'db SnapState \<times> (snap_error, Mount list) result" where
  "finishSnapshot ops sn env key s db td fs st =
     (let path = JoinPath [snapshotsDir sn, SID s]
      in case RenameDir td path fs of
           Inl e \<Rightarrow> (st\<lparr>Fs := reclaim td path fs\<rparr>, Inl (SnapOs ''failed to rename'' e))
         | Inr fs1 \<Rightarrow>
             (case stCommit ops of
                Some e \<Rightarrow> (st\<lparr>Fs := reclaim [] path fs1\<rparr>, Inl (SnapStore e))
              | None \<Rightarrow>
                  (case snapMounts sn env key s (infoOrZero (stGetInfo ops db key)) fs1 of
                     (fs2, Inl e) \<Rightarrow> (st\<lparr>Db := db, Fs := reclaim [] path fs2\<rparr>, Inl e)
                   | (fs2, Inr mounts) \<Rightarrow> (st\<lparr>Db := db, Fs := fs2\<rparr>, Inr mounts))))"

definition createSnapshot ::
  "'db StorageOps \<Rightarrow> snapshotter \<Rightarrow> SysEnv \<Rightarrow> Kind \<Rightarrow> string \<Rightarrow> string \<Rightarrow> 'db SnapState \<Rightarrow>
   'db SnapState \<times> (snap_error, Mount list) result" where
  "createSnapshot ops sn env kind key parent st =
     (case stBegin ops of
        Some e \<Rightarrow> (st, Inl (SnapStore e))
      | None \<Rightarrow>
          (case prepareDirectory (Rnds env) (snapshotsDir sn) kind (Fs st) of
             (fs, td, Some e) \<Rightarrow> (st\<lparr>Fs := reclaim td [] fs\<rparr>, Inl e)
           | (fs, td, None) \<Rightarrow>
               (case stCreateSnapshot ops (Db st) kind key parent of
                  Inl e \<Rightarrow> (st\<lparr>Fs := reclaim td [] fs\<rparr>, Inl (SnapStore e))
                | Inr (db, s) \<Rightarrow>
                    (case parentOwner sn env s td fs of
                       Some e \<Rightarrow> (st\<lparr>Fs := reclaim td [] fs\<rparr>, Inl e)
                     | None \<Rightarrow> finishSnapshot ops sn env key s db td fs st))))"

definition Prepare ::
  "'db StorageOps \<Rightarrow> snapshotter \<Rightarrow> SysEnv \<Rightarrow> string \<Rightarrow> string \<Rightarrow> 'db SnapState \<Rightarrow>
   'db SnapState \<times> (snap_error, Mount list) result" where
  "Prepare ops sn env key parent st = createSnapshot ops sn env KindActive key parent st"

definition View ::
  "'db StorageOps \<Rightarrow> snapshotter \<Rightarrow> SysEnv \<Rightarrow> string \<Rightarrow> string \<Rightarrow> 'db SnapState \<Rightarrow>
   'db SnapState \<times> (snap_error, Mount list) result" where
  "View ops sn env key parent st = createSnapshot ops sn env KindView key parent st"

section \<open>What the hook does to the mounts\<close>

context rootfs_preparer
begin

lemma hookLayer_usable:
  assumes "hookLayer hooks request spec path prepare mounts fs = (fs', Inr ms)"
  obtains fs1 p where "prepare (prepareOf request spec path) fs = (fs1, Inr p)"
    "ms = rewriteFuseOverlayMounts mounts (UpperDir p) (WorkDir p)"
    "UpperDir p \<noteq> []" "WorkDir p \<noteq> []" "UpperDir p \<noteq> WorkDir p"
    "inside path (UpperDir p)" "inside path (WorkDir p)" "realDir fs1 (UpperDir p)" "realDir fs1 (WorkDir p)"
    "if SpecPersistent spec then \<exists>store. HStoreWrite hooks = Some store \<and> store (handoffOf request spec path) fs1 = (fs', None)
     else fs' = fs1"
proof -
  obtain fs1 r where pr: "prepare (prepareOf request spec path) fs = (fs1, r)"
    by (cases "prepare (prepareOf request spec path) fs")
  with assms obtain p where r: "r = Inr p" by (cases r) (auto simp: hookLayer_def)
  note pr = pr [unfolded r]
  have ms: "ms = rewriteFuseOverlayMounts mounts (UpperDir p) (WorkDir p)"
    using assms pr by (auto simp: hookLayer_def Let_def split: if_splits option.splits prod.splits)
  have st: "if SpecPersistent spec then \<exists>store. HStoreWrite hooks = Some store \<and> store (handoffOf request spec path) fs1 = (fs', None)
      else fs' = fs1"
    using assms pr by (auto simp: hookLayer_def Let_def split: if_splits option.splits prod.splits)
  have "PVCMountPath (prepareOf request spec path) = path" by (simp add: prepareOf_def)
  with prepared_usable [OF pr] that [OF pr ms _ _ _ _ _ _ _ st] show thesis by simp
qed

end

lemma applyRootfsHook_cases:
  assumes "applyRootfsHook hooks key mounts fs = (fs', Inr ms)"
  obtains (kept) "ms = mounts" "fs' = fs"
  | (layer) identity metadata pvc prepare request spec path
    where "HIdentity hooks = Some identity" "HMetadata hooks = Some metadata" "HPVC hooks = Some pvc"
      "HPreparer hooks = Some prepare" "identity key = Inr request" "metadata request = Inr spec" "\<not> Sidecar spec"
      "pvc request spec = Inr path" "hookLayer hooks request spec path prepare mounts fs = (fs', Inr ms)"
  using assms by (auto simp: applyRootfsHook_def split: option.splits sum.splits if_splits)

text \<open>The options of a rewritten mount: only the upper and work directories change.\<close>

lemma rewrite_overlay:
  assumes "SKind s = KindActive"
  shows "map (rewriteOption fuseType u w) (overlayOptions sn s info) =
    [''workdir='' @ w, ''upperdir='' @ u] @ drop 2 (overlayOptions sn s info)"
  using assms by (simp add: overlayOptions_def rewriteOption_def Let_def)

lemma scan_overlay:
  assumes "SKind s = KindActive" "opts = [''workdir='' @ w, ''upperdir='' @ u] @ drop 2 (overlayOptions sn s info)"
  shows "scanOptions opts uw = (u, w)"
proof -
  have t: "TrimPrefix (''workdir='' @ w) ''workdir='' = w" "TrimPrefix (''upperdir='' @ u) ''upperdir='' = u"
    by (rule TrimPrefix_append)+
  obtain a b where "uw = (a, b)" by (cases uw)
  with assms t show ?thesis by (simp add: overlayOptions_def Let_def)
qed

lemma overlay_take2: "SKind s = KindActive \<Longrightarrow>
  overlayOptions sn s info = [''workdir='' @ workPath sn (SID s), ''upperdir='' @ upperPath sn (SID s)] @ drop 2 (overlayOptions sn s info)"
  by (simp add: overlayOptions_def)

lemma snapshot_paths_nonempty: "sRoot sn \<noteq> [] \<Longrightarrow> upperPath sn i \<noteq> [] \<and> workPath sn i \<noteq> []"
  by (simp add: upperPath_def workPath_def JoinPath_def)

lemma materialized_overlay:
  assumes "SKind s = KindActive" "u \<noteq> []" "w \<noteq> []"
    and "opts = [''workdir='' @ w, ''upperdir='' @ u] @ drop 2 (overlayOptions sn s info)"
  shows "materializedRootfsPaths [\<lparr>MtType = fuseType, MtSource = src, MtOptions = opts\<rparr>] = Inr (u, w)"
  using scan_overlay [OF assms(1,4), of "([], [])"] assms(2,3) by (simp add: materializedRootfsPaths_def rguard_def)


definition exampleHooks :: Hooks where
  "exampleHooks = \<lparr>HIdentity = Some (\<lambda>k. Inr \<lparr>SnapshotKey = k, PodUID = ''u'', ContainerName = ''c'', RootfsRwLayerAnnotation = []\<rparr>),
     HMetadata = Some (\<lambda>_. Inr (zeroSpec\<lparr>SpecVolumeName := ''data'', SpecPath := ''a/./b''\<rparr>)),
     HPVC = Some (\<lambda>_ _. Inr ''/pvc''), HPreparer = Some (PrepareRootfsRwLayer None []),
     HStoreWrite = None, HStoreRemove = None\<rparr>"

definition exampleSn :: snapshotter where
  "exampleSn = \<lparr>sRoot = ''/s'', asyncRemove = False, rootfsHooks = exampleHooks\<rparr>"

definition exampleEnv :: SysEnv where
  "exampleEnv = \<lparr>UidMap = Inl ENOENT, DoMount = \<lambda>_ _ fs. (fs, None), DoUnmount = \<lambda>_ fs. fs,
     CopyTree = \<lambda>_ _ fs. (fs, None), DiskUsage = \<lambda>_ _. Inr \<lparr>UInodes = 0, USize = 0\<rparr>, LchownErr = \<lambda>_ _. None, Rnds = [1]\<rparr>"

definition exampleSnapshot :: Snapshot where
  "exampleSnapshot = \<lparr>SKind = KindActive, SID = ''7'', ParentIDs = [''6'']\<rparr>"

lemma example_mounts:
  "snd (snapMounts exampleSn exampleEnv ''k'' exampleSnapshot zeroInfo exampleFs) =
     Inr [\<lparr>MtType = fuseType, MtSource = ''overlay'',
       MtOptions = [''workdir=/pvc/a/b/work'', ''upperdir=/pvc/a/b/upper'', ''lowerdir=/s/snapshots/6/fs'']\<rparr>]"
proof -
  obtain fs' and q :: PreparedRootfs where r: "PrepareRootfsRwLayer None [] exampleRequest exampleFs = (fs', Inr q)"
    using example_prepare(3) by (metis is_ok_iff prod.collapse)
  have c: "comps (PVCMountPath exampleRequest) = [''pvc'']" "comps (PrepPath exampleRequest) = [''a'', ''b'']" by code_simp+
  have "UpperDir q = absPathOf [''pvc'', ''a'', ''b'', ''upper'']" "WorkDir q = absPathOf [''pvc'', ''a'', ''b'', ''work'']"
    using clean_absPathOf [OF prepared_paths(2,8) [OF r]] clean_absPathOf [OF prepared_paths(4,9) [OF r]] c
    by (simp_all add: prepared_paths(3,5) [OF r])
  with r have p: "PrepareRootfsRwLayer None [] exampleRequest exampleFs =
      (fs', Inr \<lparr>UpperDir = ''/pvc/a/b/upper'', WorkDir = ''/pvc/a/b/work''\<rparr>)"
    by (cases q) (simp add: absPathOf_def unComps_def)
  have n: "runningInNestedUserNS (UidMap exampleEnv) = False" by (simp add: runningInNestedUserNS_def exampleEnv_def)
  have o: "overlayOptions exampleSn exampleSnapshot zeroInfo =
      [''workdir=/s/snapshots/7/work'', ''upperdir=/s/snapshots/7/fs'', ''lowerdir=/s/snapshots/6/fs'']"
  proof -
    have "upperPath exampleSn ''7'' = ''/s/snapshots/7/fs''" "workPath exampleSn ''7'' = ''/s/snapshots/7/work''"
      "upperPath exampleSn ''6'' = ''/s/snapshots/6/fs''" by code_simp+
    then show ?thesis by (simp add: overlayOptions_def exampleSnapshot_def idMappingOptions_def zeroInfo_def)
  qed
  have h: "applyRootfsHook exampleHooks ''k'' [\<lparr>MtType = fuseType, MtSource = ''overlay'',
      MtOptions = [''workdir=/s/snapshots/7/work'', ''upperdir=/s/snapshots/7/fs'', ''lowerdir=/s/snapshots/6/fs'']\<rparr>] exampleFs =
    (fs', Inr [\<lparr>MtType = fuseType, MtSource = ''overlay'',
       MtOptions = [''workdir=/pvc/a/b/work'', ''upperdir=/pvc/a/b/upper'', ''lowerdir=/s/snapshots/6/fs'']\<rparr>])"
    by (simp add: applyRootfsHook_def exampleHooks_def hookLayer_def prepareOf_def zeroSpec_def p [unfolded exampleRequest_def]
        rewriteFuseOverlayMounts_def rewriteOption_def)
  show ?thesis
    unfolding snapMounts_def n o by (simp add: exampleSnapshot_def exampleSn_def h)
qed


section \<open>Cleaning up\<close>

lemma inodeAt_filter: "inodeAt (fmfilter (\<lambda>r. \<not> prefix (q @ [d]) r) fs) p = (if prefix (q @ [d]) p then None else inodeAt fs p)"
  by (auto simp: inodeAt_def)

lemma removeAll_entry:
  assumes "IsAbs dir" "Clean dir = dir" "dirPath fs [] (comps dir)" "plainName d"
  shows "removeAllQuietly (JoinPath [dir, d]) fs = fmfilter (\<lambda>r. \<not> prefix (comps dir @ [d]) r) fs"
proof -
  have ne: "dir \<noteq> []" "d \<noteq> []" using assms(1,4) by (auto simp: plainName_def)
  have c: "comps (JoinPath [dir, d]) = comps dir @ [d]" "IsAbs (JoinPath [dir, d])"
    using comps_JoinPath_name [of dir d] ne assms(1,4) by (simp_all add: plainName_def)
  have p: "JoinPath [dir, d] = absPathOf (comps dir @ [d])"
  proof -
    have "Clean (JoinPath [dir, d]) = JoinPath [dir, d]" using ne by (simp add: JoinPath2)
    from clean_absPathOf [OF c(2) this] c(1) show ?thesis by simp
  qed
  have "normComps True ([] @ comps dir @ [d])" using comps_norm [of "JoinPath [dir, d]"] c by simp
  from resolve_below_last [OF rootAt_top this dirPath_noLinks [OF assms(3)]]
  have "resolve fs False (JoinPath [dir, d]) = Inr (comps dir @ [d])" using assms(3) p by simp
  then show ?thesis by (simp add: removeAllQuietly_def RemoveAll_def)
qed

lemma dirPath_filter:
  "dirPath fs [] D \<Longrightarrow> dirPath (fmfilter (\<lambda>r. \<not> prefix (D @ [d]) r) fs) [] D"
proof -
  have "dirPath (fmfilter (\<lambda>r. \<not> prefix (D @ [d]) r) fs) [] D = dirPath fs [] D \<and>
    noLinks (fmfilter (\<lambda>r. \<not> prefix (D @ [d]) r) fs) [] D = noLinks fs [] D"
  proof (rule dirPath_cong)
    fix zs
    assume "prefix zs D"
    then have "\<not> prefix (D @ [d]) zs" using prefix_length_le [of "D @ [d]" zs] prefix_length_le [of zs D] by auto
    then show "inodeAt (fmfilter (\<lambda>r. \<not> prefix (D @ [d]) r) fs) ([] @ zs) = inodeAt fs ([] @ zs)"
      by (simp add: inodeAt_filter)
  qed
  then show "dirPath fs [] D \<Longrightarrow> ?thesis" by simp
qed

lemma removeDirs_entries:
  assumes "IsAbs dir" "Clean dir = dir" "dirPath fs [] (comps dir)" "list_all plainName ds"
  shows "inodeAt (removeDirs (map (\<lambda>d. JoinPath [dir, d]) ds) fs) p =
    (if \<exists>d \<in> set ds. prefix (comps dir @ [d]) p then None else inodeAt fs p)"
  using assms(3,4)
proof (induction ds arbitrary: fs)
  case (Cons d ds)
  let ?fs1 = "fmfilter (\<lambda>r. \<not> prefix (comps dir @ [d]) r) fs"
  have "removeDirs (map (\<lambda>d. JoinPath [dir, d]) (d # ds)) fs = removeDirs (map (\<lambda>d. JoinPath [dir, d]) ds) ?fs1"
    using removeAll_entry [OF assms(1,2) Cons.prems(1)] Cons.prems(2) by (simp add: removeDirs_def)
  with Cons.IH [OF dirPath_filter [OF Cons.prems(1)]] Cons.prems(2) show ?case by (auto simp: inodeAt_filter)
qed (simp add: removeDirs_def)

text \<open>
  C27.  Cleaning up removes exactly the abandoned directories: below the directory of the snapshots every
  entry whose name is no snapshot identifier disappears with everything in it; the directories of live
  snapshots and all other paths stay as they are, and the metadata does not change.
\<close>

theorem Cleanup_exact:
  assumes "IsAbs (sRoot sn)" and "dirPath (Fs st) [] (comps (snapshotsDir sn))"
    and "\<forall>c. inodeAt (Fs st) (comps (snapshotsDir sn) @ [c]) \<noteq> None \<longrightarrow> plainName c"
    and "stBegin ops = None" "stIDMap ops (Db st) = Inr ids"
  shows "\<exists>st'. Cleanup ops sn st = (st', None) \<and> Db st' = Db st \<and> OpenTx st' = OpenTx st \<and>
    (\<forall>p. inodeAt (Fs st') p =
      (if \<exists>d. prefix (comps (snapshotsDir sn) @ [d]) p \<and> fmlookup ids d = None \<and>
          inodeAt (Fs st) (comps (snapshotsDir sn) @ [d]) \<noteq> None
       then None else inodeAt (Fs st) p))"
proof -
  let ?dir = "snapshotsDir sn" let ?D = "comps (snapshotsDir sn)"
  have ne: "sRoot sn \<noteq> []" using assms(1) by auto
  have c: "comps ?dir = comps (sRoot sn) @ [''snapshots'']" "IsAbs ?dir" "Clean ?dir = ?dir"
    using comps_JoinPath_name [of "sRoot sn" "''snapshots''"] ne assms(1)
    by (simp_all add: snapshotsDir_def dot_def dotdot_def JoinPath2)
  have r: "?dir = absPathOf ?D" by (rule clean_absPathOf [OF c(2,3)])
  have "normComps True ([] @ ?D)" using comps_norm [of ?dir] c(2) by simp
  from resolve_below [OF rootAt_top this _ dirPath_noLinks [OF assms(2)], of True]
  have "resolve (Fs st) True ?dir = Inr ?D" using assms(2) c(1) r by simp
  moreover obtain m where "inodeAt (Fs st) ?D = Some (IDir m)" using dirPath_last [OF assms(2)] c(1) by auto
  ultimately have rd: "readDirNames (Fs st) ?dir = Inr (children (Fs st) ?D)" by (simp add: readDirNames_def)
  let ?ds = "filter (\<lambda>d. fmlookup ids d = None) (sorted_list_of_fset (children (Fs st) ?D))"
  have mem: "d \<in> set ?ds \<longleftrightarrow> fmlookup ids d = None \<and> inodeAt (Fs st) (?D @ [d]) \<noteq> None" for d
    by (auto simp: sorted_list_of_fset.rep_eq children_iff)
  have pl: "list_all plainName ?ds" using assms(3) mem by (simp only: list_all_iff) blast
  have "Cleanup ops sn st = (st\<lparr>Fs := removeDirs (map (\<lambda>d. JoinPath [?dir, d]) ?ds) (Fs st)\<rparr>, None)"
    using assms(4,5) rd by (simp add: Cleanup_def cleanupDirectories_def getCleanupDirectories_def)
  moreover have "inodeAt (removeDirs (map (\<lambda>d. JoinPath [?dir, d]) ?ds) (Fs st)) p =
      (if \<exists>d. prefix (?D @ [d]) p \<and> fmlookup ids d = None \<and> inodeAt (Fs st) (?D @ [d]) \<noteq> None
       then None else inodeAt (Fs st) p)" for p
    unfolding removeDirs_entries [OF c(2,3) assms(2) pl] Bex_def mem by (simp only: conj_commute conj_assoc conj_left_commute)
  ultimately show ?thesis by simp
qed

section \<open>Creating snapshots\<close>


text \<open>The exception is real: the metadata keeps the snapshot while its directory is reclaimed.\<close>

lemma finishSnapshot_mounts_error:
  assumes "RenameDir td (JoinPath [snapshotsDir sn, SID s]) fs = Inr fs1" "stCommit ops = None"
    and "snapMounts sn env key s (infoOrZero (stGetInfo ops db key)) fs1 = (fs2, Inl e)"
  shows "finishSnapshot ops sn env key s db td fs st =
    (st\<lparr>Db := db, Fs := removeAllQuietly (JoinPath [snapshotsDir sn, SID s]) fs2\<rparr>, Inl e)"
proof -
  have "JoinPath [snapshotsDir sn, SID s] \<noteq> []"
  proof
    assume "JoinPath [snapshotsDir sn, SID s] = []"
    with assms(1) show False by (simp add: RenameDir_def resolve_def rbind_Inr_iff)
  qed
  with assms show ?thesis by (simp add: finishSnapshot_def reclaim_def)
qed

text \<open>\<open>Mounts\<close> of an unknown key leaves its transaction open.\<close>

lemma snapMountsOp_leaks:
  "stBegin ops = None \<Longrightarrow> stGetSnapshot ops (Db st) key = Inl e \<Longrightarrow>
   OpenTx (fst (snapMountsOp ops sn env key st)) = OpenTx st + 1"
  by (simp add: snapMountsOp_def)

definition exampleOps :: "unit StorageOps" where
  "exampleOps = \<lparr>stGetInfo = \<lambda>_ _. Inl ''not found'', stGetSnapshot = \<lambda>_ _. Inl ''not found'',
     stUpdateInfo = \<lambda>_ _ _. Inl ''not found'', stCreateSnapshot = \<lambda>_ _ _ _. Inl ''exists'',
     stCommitActive = \<lambda>_ _ _ _. Inl ''not found'', stRemove = \<lambda>_ _. Inl ''not found'',
     stIDMap = \<lambda>_. Inr (fmupd ''7'' ''k'' fmempty), stBegin = None, stCommit = None\<rparr>"

definition exampleState :: "unit SnapState" where
  "exampleState = \<lparr>Db = (), Fs = fmap_of_list [([''s''], IDir 448), ([''s'', ''snapshots''], IDir 448),
     ([''s'', ''snapshots'', ''7''], IDir 448), ([''s'', ''snapshots'', ''new-1''], IDir 448)], OpenTx = 0\<rparr>"

theorem Cleanup_exact_witness:
  "\<exists>st'. Cleanup exampleOps exampleSn exampleState = (st', None) \<and>
     inodeAt (Fs st') [''s'', ''snapshots'', ''7''] = Some (IDir 448) \<and>
     inodeAt (Fs st') [''s'', ''snapshots'', ''new-1''] = None"
proof -
  let ?D = "[''s'', ''snapshots'']"
  have D: "comps (snapshotsDir exampleSn) = ?D" "IsAbs (sRoot exampleSn)" by code_simp+
  have fs: "Fs exampleState = fmap_of_list [([''s''], IDir 448), (?D, IDir 448), (?D @ [''7''], IDir 448), (?D @ [''new-1''], IDir 448)]"
    by (simp add: exampleState_def)
  have dp: "dirPath (Fs exampleState) [] ?D" by (simp add: fs inodeAt_def)
  have pl: "plainName c" if "inodeAt (Fs exampleState) (?D @ [c]) \<noteq> None" for c
  proof -
    have "c = ''7'' \<or> c = ''new-1''" using that by (simp add: fs inodeAt_def split: if_splits)
    then show ?thesis by (elim disjE) (simp_all add: plainName_def dot_def dotdot_def)
  qed
  have o: "stBegin exampleOps = None" "stIDMap exampleOps (Db exampleState) = Inr (fmupd ''7'' ''k'' fmempty)"
    by (simp_all add: exampleOps_def)
  from Cleanup_exact [of exampleSn exampleState exampleOps, unfolded D(1), OF D(2) dp _ o] pl
  obtain st' where st': "Cleanup exampleOps exampleSn exampleState = (st', None)"
    and e: "\<And>p. inodeAt (Fs st') p =
      (if \<exists>d. prefix (?D @ [d]) p \<and> fmlookup (fmupd ''7'' ''k'' fmempty) d = None \<and> inodeAt (Fs exampleState) (?D @ [d]) \<noteq> None
       then None else inodeAt (Fs exampleState) p)" by blast
  have "inodeAt (Fs st') (?D @ [''7'']) = Some (IDir 448)" "inodeAt (Fs st') (?D @ [''new-1'']) = None"
    unfolding e by (simp_all add: fs inodeAt_def)
  with st' show ?thesis by auto
qed

end
