(* ===== verification/User.thy ===== *)
theory User
  imports Go_Os
begin

text \<open>
  Package \<open>libcontainer/user\<close>: the tables \<open>/etc/passwd\<close>, \<open>/etc/group\<close>, \<open>/etc/subuid\<close> and \<open>uid_map\<close>, and the
  resolution of a user specification against them.  A Go \<open>io.Reader\<close> is \<open>None\<close> when it is nil, and
  otherwise the bytes it delivers or the error of its first read (a directory that was opened as a
  file).  \<open>parseParts\<close> fills its arguments by their dynamic type; here each argument is the function
  that stores the parsed column in the entry.  The group file is read in chunks of the reader's
  buffer, which is modelled to the byte.
\<close>

section \<open>Types\<close>

definition minID :: int where "minID = 0"

definition maxID :: int where "maxID = 2147483647"

datatype user_error =
    UNilSource
  | UOs errno
  | UTooLong
  | ErrNoPasswdEntries
  | ErrNoGroupEntries
  | ErrIdRange
  | UFindUser string user_error
  | UFindGroups string user_error
  | UFindGroup string user_error
  | UAdditional "string list" user_error

record User =
  UName :: string
  UPass :: string
  UUid :: int
  UGid :: int
  UGecos :: string
  UHome :: string
  UShell :: string

record Group =
  GName :: string
  GPass :: string
  GGid :: int
  GList :: "string list"

record SubID =
  SIName :: string
  SISubID :: int
  SICount :: int

record IDMap =
  IMID :: int
  IMParentID :: int
  IMCount :: int

record ExecUser =
  EUid :: int
  EGid :: int
  ESgids :: "int list"
  EHome :: string

type_synonym reader = "(errno, string) result option"

section \<open>Columns\<close>

fun parseParts :: "string list \<Rightarrow> (string \<Rightarrow> 'r \<Rightarrow> 'r) list \<Rightarrow> 'r \<Rightarrow> 'r" where
  "parseParts [] v r = r"
| "parseParts (p # ps) [] r = r"
| "parseParts (p # ps) (e # v) r = parseParts ps v (e p r)"

definition parseLine :: "string \<Rightarrow> (string \<Rightarrow> 'r \<Rightarrow> 'r) list \<Rightarrow> 'r \<Rightarrow> 'r" where
  "parseLine line v r = parseParts (Split (CHR '':'') line) v r"

definition intPart :: "string \<Rightarrow> int" where
  "intPart p = fst (Atoi p)"

definition int64Part :: "string \<Rightarrow> int" where
  "int64Part p = fst (ParseInt 64 p)"

definition listPart :: "string \<Rightarrow> string list" where
  "listPart p = (if p \<noteq> [] then Split (CHR '','') p else [])"

section \<open>Tables read with a scanner\<close>

definition scanSource :: "(errno, string) result \<Rightarrow> (user_error, string list) result" where
  "scanSource src = (case src of
       Inl e \<Rightarrow> Inl (UOs e)
     | Inr s \<Rightarrow> (case scanLines s of (ls, tooLong) \<Rightarrow> if tooLong then Inl UTooLong else Inr ls))"

definition wanted :: "('r \<Rightarrow> bool) option \<Rightarrow> 'r \<Rightarrow> bool" where
  "wanted f p = (case f of None \<Rightarrow> True | Some g \<Rightarrow> g p)"

definition parseScanned :: "(string \<Rightarrow> 'r) \<Rightarrow> reader \<Rightarrow> ('r \<Rightarrow> bool) option \<Rightarrow> (user_error, 'r list) result" where
  "parseScanned parse r f = (case r of
       None \<Rightarrow> Inl UNilSource
     | Some src \<Rightarrow> rbind (scanSource src) (\<lambda>ls.
         Inr (filter (wanted f) (map parse (filter (\<lambda>l. l \<noteq> []) (map TrimSpace ls))))))"

text \<open>\<open>os.Open\<close>: opening a directory succeeds, reading it does not.\<close>

definition Open :: "fs \<Rightarrow> string \<Rightarrow> (errno, (errno, string) result) result" where
  "Open fs p = rbind (Stat fs p) (\<lambda>i. Inr (case i of IFile _ s \<Rightarrow> Inr s | _ \<Rightarrow> Inl EISDIR))"

definition withFile :: "fs \<Rightarrow> string \<Rightarrow> (reader \<Rightarrow> (user_error, 'a) result) \<Rightarrow> (user_error, 'a) result" where
  "withFile fs p k = (case Open fs p of Inl e \<Rightarrow> Inl (UOs e) | Inr src \<Rightarrow> k (Some src))"

definition openQuietly :: "fs \<Rightarrow> string \<Rightarrow> reader" where
  "openQuietly fs p = (case Open fs p of Inl _ \<Rightarrow> None | Inr src \<Rightarrow> Some src)"

definition parseUser :: "string \<Rightarrow> User" where
  "parseUser line = parseLine line
     [\<lambda>p u. u\<lparr>UName := p\<rparr>, \<lambda>p u. u\<lparr>UPass := p\<rparr>, \<lambda>p u. u\<lparr>UUid := intPart p\<rparr>, \<lambda>p u. u\<lparr>UGid := intPart p\<rparr>,
      \<lambda>p u. u\<lparr>UGecos := p\<rparr>, \<lambda>p u. u\<lparr>UHome := p\<rparr>, \<lambda>p u. u\<lparr>UShell := p\<rparr>]
     \<lparr>UName = [], UPass = [], UUid = 0, UGid = 0, UGecos = [], UHome = [], UShell = []\<rparr>"

definition ParsePasswdFilter :: "reader \<Rightarrow> (User \<Rightarrow> bool) option \<Rightarrow> (user_error, User list) result" where
  "ParsePasswdFilter r f = parseScanned parseUser r f"

definition ParsePasswd :: "reader \<Rightarrow> (user_error, User list) result" where
  "ParsePasswd r = ParsePasswdFilter r None"

definition ParsePasswdFile :: "fs \<Rightarrow> string \<Rightarrow> (user_error, User list) result" where
  "ParsePasswdFile fs p = withFile fs p ParsePasswd"

definition ParsePasswdFileFilter :: "fs \<Rightarrow> string \<Rightarrow> (User \<Rightarrow> bool) option \<Rightarrow> (user_error, User list) result" where
  "ParsePasswdFileFilter fs p f = withFile fs p (\<lambda>r. ParsePasswdFilter r f)"

definition parseSubID :: "string \<Rightarrow> SubID" where
  "parseSubID line = parseLine line
     [\<lambda>p s. s\<lparr>SIName := p\<rparr>, \<lambda>p s. s\<lparr>SISubID := int64Part p\<rparr>, \<lambda>p s. s\<lparr>SICount := int64Part p\<rparr>]
     \<lparr>SIName = [], SISubID = 0, SICount = 0\<rparr>"

definition ParseSubIDFilter :: "reader \<Rightarrow> (SubID \<Rightarrow> bool) option \<Rightarrow> (user_error, SubID list) result" where
  "ParseSubIDFilter r f = parseScanned parseSubID r f"

definition ParseSubID :: "reader \<Rightarrow> (user_error, SubID list) result" where
  "ParseSubID r = ParseSubIDFilter r None"

definition ParseSubIDFile :: "fs \<Rightarrow> string \<Rightarrow> (user_error, SubID list) result" where
  "ParseSubIDFile fs p = withFile fs p ParseSubID"

definition ParseSubIDFileFilter :: "fs \<Rightarrow> string \<Rightarrow> (SubID \<Rightarrow> bool) option \<Rightarrow> (user_error, SubID list) result" where
  "ParseSubIDFileFilter fs p f = withFile fs p (\<lambda>r. ParseSubIDFilter r f)"

definition parseIDMapLine :: "string \<Rightarrow> IDMap" where
  "parseIDMapLine line = parseParts (Fields line)
     [\<lambda>p m. m\<lparr>IMID := int64Part p\<rparr>, \<lambda>p m. m\<lparr>IMParentID := int64Part p\<rparr>, \<lambda>p m. m\<lparr>IMCount := int64Part p\<rparr>]
     \<lparr>IMID = 0, IMParentID = 0, IMCount = 0\<rparr>"

definition ParseIDMapFilter :: "reader \<Rightarrow> (IDMap \<Rightarrow> bool) option \<Rightarrow> (user_error, IDMap list) result" where
  "ParseIDMapFilter r f = parseScanned parseIDMapLine r f"

definition ParseIDMap :: "reader \<Rightarrow> (user_error, IDMap list) result" where
  "ParseIDMap r = ParseIDMapFilter r None"

definition ParseIDMapFile :: "fs \<Rightarrow> string \<Rightarrow> (user_error, IDMap list) result" where
  "ParseIDMapFile fs p = withFile fs p ParseIDMap"

definition ParseIDMapFileFilter :: "fs \<Rightarrow> string \<Rightarrow> (IDMap \<Rightarrow> bool) option \<Rightarrow> (user_error, IDMap list) result" where
  "ParseIDMapFileFilter fs p f = withFile fs p (\<lambda>r. ParseIDMapFilter r f)"

section \<open>The group file\<close>

text \<open>
  \<open>bufio.Reader.ReadLine\<close> on the bytes not yet consumed: \<open>None\<close> at the end of the input, otherwise the
  line or chunk, whether it is only a prefix of its line, and the remaining bytes.  A carriage return
  at the end of a full buffer is put back.
\<close>

definition bufSize :: nat where "bufSize = 4096"

definition newline :: char where "newline = CHR 0x0A"

definition ReadLine :: "string \<Rightarrow> (string \<times> bool \<times> string) option" where
  "ReadLine s =
     (let b = take bufSize s; l = takeWhile (\<lambda>c. c \<noteq> newline) b
      in if s = [] then None
         else if length l < length b then Some (dropCR l, False, drop (Suc (length l)) s)
         else if bufSize \<le> length s
         then (if last b = CHR 0x0D then Some (butlast b, True, drop (bufSize - 1) s) else Some (b, True, drop bufSize s))
         else Some (s, False, []))"

lemma ReadLine_shorter: "ReadLine s = Some (l, p, r) \<Longrightarrow> length r < length s"
  by (auto simp: ReadLine_def bufSize_def Let_def split: if_splits)

function readWhole :: "string \<Rightarrow> string \<Rightarrow> (string \<times> string) option" where
  "readWhole wholeLine s = (case ReadLine s of
       None \<Rightarrow> None
     | Some (line, isPrefix, rest) \<Rightarrow>
         if \<not> isPrefix then Some (wholeLine @ line, rest) else readWhole (wholeLine @ line) rest)"
  by auto
termination by (relation "measure (\<lambda>(w, s). length s)") (auto dest: ReadLine_shorter)

declare readWhole.simps [simp del]

lemma readWhole_shorter: "readWhole w s = Some (l, r) \<Longrightarrow> length r < length s"
proof (induction w s rule: readWhole.induct)
  case (1 w s)
  from "1.prems" obtain line p rest where rl: "ReadLine s = Some (line, p, rest)"
    by (subst (asm) readWhole.simps) (auto split: option.splits)
  have lt: "length rest < length s" by (rule ReadLine_shorter [OF rl])
  show ?case
  proof (cases p)
    case True
    with "1.prems" rl have "readWhole (w @ line) rest = Some (l, r)"
      by (subst (asm) readWhole.simps) simp
    then have "length r < length rest" using "1.IH" [OF rl] True by blast
    with lt show ?thesis by simp
  next
    case False
    with "1.prems" rl have "r = rest" by (subst (asm) readWhole.simps) simp
    with lt show ?thesis by simp
  qed
qed

function groupLines :: "string \<Rightarrow> string list" where
  "groupLines s = (case readWhole [] s of None \<Rightarrow> [] | Some (line, rest) \<Rightarrow> line # groupLines rest)"
  by auto
termination by (relation "measure length") (auto dest: readWhole_shorter)

declare groupLines.simps [simp del]

definition parseGroupLine :: "string \<Rightarrow> Group" where
  "parseGroupLine line = parseLine line
     [\<lambda>p g. g\<lparr>GName := p\<rparr>, \<lambda>p g. g\<lparr>GPass := p\<rparr>, \<lambda>p g. g\<lparr>GGid := intPart p\<rparr>, \<lambda>p g. g\<lparr>GList := listPart p\<rparr>]
     \<lparr>GName = [], GPass = [], GGid = 0, GList = []\<rparr>"

definition groupLine :: "string \<Rightarrow> bool" where
  "groupLine l = (\<not> (l = [] \<or> hd l = CHR ''#''))"

text \<open>The entries read so far are returned next to the error.\<close>

definition ParseGroupFilter :: "reader \<Rightarrow> (Group \<Rightarrow> bool) option \<Rightarrow> Group list \<times> user_error option" where
  "ParseGroupFilter r f = (case r of
       None \<Rightarrow> ([], Some UNilSource)
     | Some (Inl e) \<Rightarrow> ([], Some (UOs e))
     | Some (Inr s) \<Rightarrow>
         (filter (wanted f) (map parseGroupLine (filter groupLine (map TrimSpace (groupLines s)))), None))"

definition ParseGroup :: "reader \<Rightarrow> Group list \<times> user_error option" where
  "ParseGroup r = ParseGroupFilter r None"

definition withGroupFile :: "fs \<Rightarrow> string \<Rightarrow> (reader \<Rightarrow> 'a list \<times> user_error option) \<Rightarrow> 'a list \<times> user_error option" where
  "withGroupFile fs p k = (case Open fs p of Inl e \<Rightarrow> ([], Some (UOs e)) | Inr src \<Rightarrow> k (Some src))"

definition ParseGroupFile :: "fs \<Rightarrow> string \<Rightarrow> Group list \<times> user_error option" where
  "ParseGroupFile fs p = withGroupFile fs p ParseGroup"

definition ParseGroupFileFilter :: "fs \<Rightarrow> string \<Rightarrow> (Group \<Rightarrow> bool) option \<Rightarrow> Group list \<times> user_error option" where
  "ParseGroupFileFilter fs p f = withGroupFile fs p (\<lambda>r. ParseGroupFilter r f)"

section \<open>Resolving a user specification\<close>

definition splitUserSpec :: "string \<Rightarrow> string \<times> string" where
  "splitUserSpec userSpec = parseLine userSpec [\<lambda>p a. (p, snd a), \<lambda>p a. (fst a, p)] ([], [])"

definition userWanted :: "string \<Rightarrow> ExecUser \<Rightarrow> User \<Rightarrow> bool" where
  "userWanted userArg user u =
     (if userArg = [] then UUid u = EUid user
      else if snd (Atoi userArg) = None then fst (Atoi userArg) = UUid u
      else UName u = userArg)"

definition groupWanted :: "string \<Rightarrow> string \<Rightarrow> Group \<Rightarrow> bool" where
  "groupWanted groupArg matchedUserName g =
     (if groupArg = [] then matchedUserName \<in> set (GList g)
      else if snd (Atoi groupArg) = None then fst (Atoi groupArg) = GGid g
      else GName g = groupArg)"

definition matchUsers :: "string \<Rightarrow> ExecUser \<Rightarrow> reader \<Rightarrow> (user_error, User list) result" where
  "matchUsers userArg user passwd =
     (case ParsePasswdFilter passwd (Some (userWanted userArg user)) of
        Inr users \<Rightarrow> Inr users
      | Inl err \<Rightarrow>
          if passwd \<noteq> None then Inl (UFindUser (if userArg = [] then Itoa (EUid user) else userArg) err) else Inr [])"

definition pickUser :: "string \<Rightarrow> ExecUser \<Rightarrow> User list \<Rightarrow> (user_error, ExecUser \<times> string) result" where
  "pickUser userArg user users = (case users of
       u # _ \<Rightarrow> Inr (user\<lparr>EUid := UUid u, EGid := UGid u, EHome := UHome u\<rparr>, UName u)
     | [] \<Rightarrow>
         if userArg = [] then Inr (user, [])
         else rguard (snd (Atoi userArg) \<noteq> None) (UFindUser userArg ErrNoPasswdEntries)
                (let uid = fst (Atoi userArg)
                 in rguard (uid < minID \<or> maxID < uid) ErrIdRange (Inr (user\<lparr>EUid := uid\<rparr>, []))))"

definition matchGroups :: "string \<Rightarrow> string \<Rightarrow> reader \<Rightarrow> (user_error, Group list) result" where
  "matchGroups groupArg matchedUserName groupR =
     (case ParseGroupFilter groupR (Some (groupWanted groupArg matchedUserName)) of
        (groups, None) \<Rightarrow> Inr groups
      | (groups, Some err) \<Rightarrow> if groupR \<noteq> None then Inl (UFindGroups matchedUserName err) else Inr groups)"

definition pickGroup :: "string \<Rightarrow> ExecUser \<Rightarrow> Group list \<Rightarrow> (user_error, ExecUser) result" where
  "pickGroup groupArg user groups =
     (if groupArg \<noteq> [] then
        (case groups of
           g # _ \<Rightarrow> Inr (user\<lparr>EGid := GGid g\<rparr>)
         | [] \<Rightarrow>
             rguard (snd (Atoi groupArg) \<noteq> None) (UFindGroup groupArg ErrNoGroupEntries)
               (let gid = fst (Atoi groupArg)
                in rguard (gid < minID \<or> maxID < gid) ErrIdRange (Inr (user\<lparr>EGid := gid\<rparr>))))
      else if groups \<noteq> [] then Inr (user\<lparr>ESgids := map GGid groups\<rparr>)
      else Inr user)"

definition zeroExecUser :: ExecUser where
  "zeroExecUser = \<lparr>EUid = 0, EGid = 0, ESgids = [], EHome = []\<rparr>"

definition GetExecUser :: "string \<Rightarrow> ExecUser option \<Rightarrow> reader \<Rightarrow> reader \<Rightarrow> (user_error, ExecUser) result" where
  "GetExecUser userSpec defaults passwd groupR =
     (let user = (case defaults of None \<Rightarrow> zeroExecUser | Some d \<Rightarrow> d);
          (userArg, groupArg) = splitUserSpec userSpec
      in rbind (matchUsers userArg user passwd) (\<lambda>users.
         rbind (pickUser userArg user users) (\<lambda>(user, matchedUserName).
           if groupArg \<noteq> [] \<or> matchedUserName \<noteq> []
           then rbind (matchGroups groupArg matchedUserName groupR) (pickGroup groupArg user)
           else Inr user)))"

definition GetExecUserPath :: "fs \<Rightarrow> string \<Rightarrow> ExecUser option \<Rightarrow> string \<Rightarrow> string \<Rightarrow> (user_error, ExecUser) result" where
  "GetExecUserPath fs userSpec defaults passwdPath groupPath =
     GetExecUser userSpec defaults (openQuietly fs passwdPath) (openQuietly fs groupPath)"

section \<open>Additional groups\<close>

definition groupMatches :: "string \<Rightarrow> Group \<Rightarrow> bool" where
  "groupMatches ag g \<longleftrightarrow> GName g = ag \<or> Itoa (GGid g) = ag"

text \<open>
  The set \<open>gidMap\<close> is kept as the list of its keys in insertion order; Go returns the same ids in an
  unspecified order.
\<close>

definition addGroup :: "Group list \<Rightarrow> string \<Rightarrow> int list \<Rightarrow> (user_error, int list) result" where
  "addGroup groups ag gidMap =
     (case find (\<lambda>g. groupMatches ag g \<and> GGid g \<notin> set gidMap) groups of
        Some g \<Rightarrow> Inr (gidMap @ [GGid g])
      | None \<Rightarrow>
          (case ParseInt 64 ag of
             (_, Some _) \<Rightarrow> Inl (UFindGroup ag ErrNoGroupEntries)
           | (gid, None) \<Rightarrow>
               rguard (gid < minID \<or> maxID < gid) ErrIdRange (Inr (if gid \<in> set gidMap then gidMap else gidMap @ [gid]))))"

definition GetAdditionalGroups :: "string list \<Rightarrow> reader \<Rightarrow> (user_error, int list) result" where
  "GetAdditionalGroups additionalGroups groupR =
     rbind (case groupR of
              None \<Rightarrow> Inr []
            | Some _ \<Rightarrow>
                (case ParseGroupFilter groupR (Some (\<lambda>g. \<exists>ag \<in> set additionalGroups. groupMatches ag g)) of
                   (_, Some err) \<Rightarrow> Inl (UAdditional additionalGroups err)
                 | (groups, None) \<Rightarrow> Inr groups))
       (\<lambda>groups. rfold (addGroup groups) additionalGroups [])"

definition GetAdditionalGroupsPath :: "fs \<Rightarrow> string list \<Rightarrow> string \<Rightarrow> (user_error, int list) result" where
  "GetAdditionalGroupsPath fs additionalGroups groupPath =
     GetAdditionalGroups additionalGroups (openQuietly fs groupPath)"

section \<open>Looking up the running system\<close>

definition unixPasswdPath :: string where "unixPasswdPath = ''/etc/passwd''"

definition unixGroupPath :: string where "unixGroupPath = ''/etc/group''"

definition lookupUserFunc :: "fs \<Rightarrow> (User \<Rightarrow> bool) \<Rightarrow> (user_error, User) result" where
  "lookupUserFunc fs f =
     withFile fs unixPasswdPath (\<lambda>passwd. rbind (ParsePasswdFilter passwd (Some f)) (\<lambda>users.
       case users of [] \<Rightarrow> Inl ErrNoPasswdEntries | u # _ \<Rightarrow> Inr u))"

definition LookupUser :: "fs \<Rightarrow> string \<Rightarrow> (user_error, User) result" where
  "LookupUser fs username = lookupUserFunc fs (\<lambda>u. UName u = username)"

definition LookupUid :: "fs \<Rightarrow> int \<Rightarrow> (user_error, User) result" where
  "LookupUid fs uid = lookupUserFunc fs (\<lambda>u. UUid u = uid)"

definition lookupGroupFunc :: "fs \<Rightarrow> (Group \<Rightarrow> bool) \<Rightarrow> (user_error, Group) result" where
  "lookupGroupFunc fs f =
     withFile fs unixGroupPath (\<lambda>groupR. case ParseGroupFilter groupR (Some f) of
         (_, Some err) \<Rightarrow> Inl err
       | ([], None) \<Rightarrow> Inl ErrNoGroupEntries
       | (g # _, None) \<Rightarrow> Inr g)"

definition LookupGroup :: "fs \<Rightarrow> string \<Rightarrow> (user_error, Group) result" where
  "LookupGroup fs groupname = lookupGroupFunc fs (\<lambda>g. GName g = groupname)"

definition LookupGid :: "fs \<Rightarrow> int \<Rightarrow> (user_error, Group) result" where
  "LookupGid fs gid = lookupGroupFunc fs (\<lambda>g. GGid g = gid)"

definition CurrentUser :: "fs \<Rightarrow> int \<Rightarrow> (user_error, User) result" where
  "CurrentUser fs getuid = LookupUid fs getuid"

definition CurrentGroup :: "fs \<Rightarrow> int \<Rightarrow> (user_error, Group) result" where
  "CurrentGroup fs getgid = LookupGid fs getgid"

definition currentUserSubIDs :: "fs \<Rightarrow> int \<Rightarrow> string \<Rightarrow> (user_error, SubID list) result" where
  "currentUserSubIDs fs getuid fileName =
     rbind (CurrentUser fs getuid) (\<lambda>u.
       ParseSubIDFileFilter fs fileName (Some (\<lambda>e. SIName e = UName u \<or> SIName e = Itoa (UUid u))))"

definition CurrentUserSubUIDs :: "fs \<Rightarrow> int \<Rightarrow> (user_error, SubID list) result" where
  "CurrentUserSubUIDs fs getuid = currentUserSubIDs fs getuid ''/etc/subuid''"

definition CurrentUserSubGIDs :: "fs \<Rightarrow> int \<Rightarrow> (user_error, SubID list) result" where
  "CurrentUserSubGIDs fs getuid = currentUserSubIDs fs getuid ''/etc/subgid''"

definition CurrentProcessUIDMap :: "fs \<Rightarrow> (user_error, IDMap list) result" where
  "CurrentProcessUIDMap fs = ParseIDMapFile fs ''/proc/self/uid_map''"

definition CurrentProcessGIDMap :: "fs \<Rightarrow> (user_error, IDMap list) result" where
  "CurrentProcessGIDMap fs = ParseIDMapFile fs ''/proc/self/gid_map''"

section \<open>Reading the group file\<close>

lemma dropCR_append: "ys \<noteq> [] \<Longrightarrow> dropCR (xs @ ys) = xs @ dropCR ys"
  by (simp add: dropCR_def butlast_append)

lemma ReadLine_short:
  assumes "newline \<notin> set l" "length l < bufSize"
  shows "ReadLine (l @ newline # r) = Some (dropCR l, False, r)"
proof -
  have b: "take bufSize (l @ newline # r) = l @ newline # take (bufSize - Suc (length l)) r"
  proof -
    have "bufSize - length l = Suc (bufSize - Suc (length l))" using assms(2) by simp
    with assms(2) show ?thesis by (simp only: take_append take_Suc_Cons) simp
  qed
  have "takeWhile (\<lambda>c. c \<noteq> newline) (l @ newline # t) = l" for t
    using assms(1) by (subst takeWhile_append2) auto
  with b show ?thesis by (simp add: ReadLine_def)
qed

lemma ReadLine_chunk:
  assumes "newline \<notin> set (take bufSize s)" "bufSize \<le> length s"
  shows "ReadLine s =
    (if s ! (bufSize - 1) = CHR 0x0D then Some (take (bufSize - 1) s, True, drop (bufSize - 1) s)
     else Some (take bufSize s, True, drop bufSize s))"
proof -
  have ne: "s \<noteq> []" using assms(2) by (auto simp: bufSize_def)
  have tw: "takeWhile (\<lambda>c. c \<noteq> newline) (take bufSize s) = take bufSize s"
    using assms(1) by (subst takeWhile_eq_all_conv) auto
  have la: "last (take bufSize s) = s ! (bufSize - 1)"
    using assms(2) by (subst last_conv_nth) (auto simp: bufSize_def ne)
  have bl: "butlast (take bufSize s) = take (bufSize - 1) s"
    using assms(2) by (simp add: butlast_take)
  show ?thesis using assms(2) ne by (simp add: ReadLine_def Let_def tw la bl)
qed

lemma readWhole_line:
  "newline \<notin> set l \<Longrightarrow> readWhole w (l @ newline # r) = Some (w @ dropCR l, r)"
proof (induction l arbitrary: w rule: length_induct)
  case (1 l)
  show ?case
  proof (cases "length l < bufSize")
    case True
    with "1.prems" show ?thesis by (subst readWhole.simps) (simp add: ReadLine_short)
  next
    case False
    define n where "n = (if l ! (bufSize - 1) = CHR 0x0D then bufSize - 1 else bufSize)"
    have n: "0 < n" "n \<le> length l" using False by (auto simp: n_def bufSize_def)
    have "newline \<notin> set (take bufSize (l @ newline # r))"
      using "1.prems" False by (auto dest: in_set_takeD)
    then have "ReadLine (l @ newline # r) = Some (take n l, True, drop n l @ newline # r)"
      using False by (subst ReadLine_chunk) (auto simp: n_def nth_append bufSize_def)
    then have "readWhole w (l @ newline # r) = readWhole (w @ take n l) (drop n l @ newline # r)"
      by (subst readWhole.simps) simp
    also have "\<dots> = Some ((w @ take n l) @ dropCR (drop n l), r)"
      by (rule "1.IH" [rule_format]) (use "1.prems" n in \<open>auto dest: in_set_dropD\<close>)
    also have "(w @ take n l) @ dropCR (drop n l) = w @ dropCR l"
    proof (cases "n = length l")
      case True
      then have "n = bufSize" using False by (auto simp: n_def bufSize_def split: if_splits)
      then have "last l \<noteq> CHR 0x0D"
        using True n last_conv_nth [of l] by (cases "l = []") (simp_all add: n_def split: if_splits)
      with True show ?thesis by (simp add: dropCR_def)
    next
      case False
      with n show ?thesis using dropCR_append [of "drop n l" "take n l"] by simp
    qed
    finally show ?thesis by simp
  qed
qed

lemma groupLines_line: "newline \<notin> set l \<Longrightarrow> groupLines (l @ newline # r) = dropCR l # groupLines r"
  by (subst groupLines.simps) (simp add: readWhole_line)

lemma groupLines_Nil [simp]: "groupLines [] = []"
  by (simp add: groupLines.simps readWhole.simps ReadLine_def)

text \<open>
  C34.  Reading the group file in chunks of the reader's buffer is the same as splitting it into lines,
  for lines of every length, when the last line is terminated.
\<close>

theorem groupLines_eq_Split:
  "s = [] \<or> last s = newline \<Longrightarrow> groupLines s = map dropCR (butlast (Split newline s))"
proof (induction s rule: length_induct)
  case (1 s)
  show ?case
  proof (cases "s = []")
    case False
    with "1.prems" have "newline \<in> set s" using last_in_set by force
    then obtain l r where s: "s = l @ newline # r" and l: "newline \<notin> set l" using split_list_first by metis
    have "r = [] \<or> last r = newline" using "1.prems" s by (cases "r = []") auto
    then have "groupLines r = map dropCR (butlast (Split newline r))"
      by (rule "1.IH" [rule_format, rotated]) (simp add: s)
    with s l show ?thesis by (simp add: groupLines_line Split_cons)
  qed simp
qed

theorem groupLines_eq_Split_witness:
  "groupLines (''root:x:0:'' @ [CHR 0x0D, newline] @ ''adm:x:4:root'' @ [newline]) = [''root:x:0:'', ''adm:x:4:root'']"
  by (subst groupLines_eq_Split) (simp_all add: newline_def Split_def dropCR_def)


lemma groupLines_full_buffer:
  assumes "newline \<notin> set s" "length s = bufSize" "last s \<noteq> CHR 0x0D"
  shows "groupLines s = []"
proof -
  have "s \<noteq> []" using assms(2) by (auto simp: bufSize_def)
  then have "s ! (bufSize - 1) \<noteq> CHR 0x0D" using assms(2,3) by (simp add: last_conv_nth)
  then have "ReadLine s = Some (s, True, [])"
    using assms(1,2) by (subst ReadLine_chunk) (auto dest: in_set_takeD)
  then have "readWhole [] s = readWhole s []" by (subst readWhole.simps) simp
  also have "\<dots> = None" by (simp add: readWhole.simps ReadLine_def)
  finally show ?thesis by (simp add: groupLines.simps)
qed

text \<open>
  A last line without a newline is lost when it fills the reader's buffer exactly: the entry is
  not returned and no error is reported.
\<close>

theorem ParseGroup_loses_last_line:
  "ParseGroup (Some (Inr (''big:x:7:'' @ replicate 4088 (CHR ''u'')))) = ([], None) \<and>
   ParseGroup (Some (Inr (''big:x:7:'' @ replicate 4088 (CHR ''u'') @ [newline]))) =
     ([\<lparr>GName = ''big'', GPass = ''x'', GGid = 7, GList = [replicate 4088 (CHR ''u'')]\<rparr>], None)"
proof
  let ?u = "replicate 4088 (CHR ''u'')"
  let ?l = "''big:x:7:'' @ ?u"
  have ne: "?u \<noteq> []" by (simp only: replicate_empty)
  have nn: "newline \<notin> set ?l" by (simp add: newline_def)
  have la: "last ?l = CHR ''u''" using ne by (simp add: last_replicate)
  have "length ?l = bufSize" by (simp only: length_append length_replicate) (simp add: bufSize_def)
  with nn la have "groupLines ?l = []" by (intro groupLines_full_buffer) simp_all
  then show "ParseGroup (Some (Inr ?l)) = ([], None)"
    unfolding ParseGroup_def ParseGroupFilter_def by simp
  have tr: "TrimSpace ?l = ?l"
  proof -
    define v where "v = butlast ?l"
    have v: "?l = v @ [CHR ''u'']" unfolding v_def using la append_butlast_last_id [of ?l] by simp
    have "dropWhile isSpace ?l = ?l" by (simp add: isSpace_def)
    then show ?thesis unfolding TrimSpace_def by (simp only: v) (simp add: isSpace_def)
  qed
  have sp: "Split (CHR '':'') ?l = [''big'', ''x'', ''7'', ?u]"
    by (simp add: Split_Cons Split_single)
  have "dropCR ?l = ?l" unfolding dropCR_def la by simp
  then have "groupLines (?l @ newline # []) = [?l]" using groupLines_line [OF nn, of "[]"] by simp
  moreover have "groupLine ?l" by (simp add: groupLine_def)
  moreover have "parseGroupLine ?l = \<lparr>GName = ''big'', GPass = ''x'', GGid = 7, GList = [?u]\<rparr>"
    unfolding parseGroupLine_def parseLine_def sp
    using ne by (simp add: intPart_def Atoi_def ParseInt_def ParseUint_def isDigit_def digitVal_def listPart_def Split_single)
  ultimately show "ParseGroup (Some (Inr (''big:x:7:'' @ ?u @ [newline]))) =
     ([\<lparr>GName = ''big'', GPass = ''x'', GGid = 7, GList = [?u]\<rparr>], None)"
    unfolding ParseGroup_def ParseGroupFilter_def using tr by (simp add: wanted_def)
qed

section \<open>Writing and reading the user table\<close>

definition printUser :: "User \<Rightarrow> string" where
  "printUser u = Join (CHR '':'') [UName u, UPass u, Itoa (UUid u), Itoa (UGid u), UGecos u, UHome u, UShell u]"

definition int64 :: "int \<Rightarrow> bool" where
  "int64 i \<longleftrightarrow> - (2 ^ 63) \<le> i \<and> i < 2 ^ 63"

definition column :: "string \<Rightarrow> bool" where
  "column s \<longleftrightarrow> set s \<inter> {CHR '':'', CHR 0x0A, CHR 0x0D} = {}"

definition userWF :: "User \<Rightarrow> bool" where
  "userWF u \<longleftrightarrow> UName u \<noteq> [] \<and> \<not> isSpace (hd (UName u)) \<and> (UShell u = [] \<or> \<not> isSpace (last (UShell u))) \<and>
     int64 (UUid u) \<and> int64 (UGid u) \<and> column (UName u) \<and> column (UPass u) \<and> column (UGecos u) \<and>
     column (UHome u) \<and> column (UShell u) \<and> length (printUser u) < maxTokenSize"

lemma column_Itoa: "column (Itoa i)"
proof -
  have "c \<notin> {CHR '':'', CHR 0x0A, CHR 0x0D}" if "c \<in> set (Itoa i)" for c
    using Itoa_chars [OF that] by (auto simp: isDigit_def)
  then show ?thesis unfolding column_def by blast
qed

lemma TrimSpace_id: "s \<noteq> [] \<Longrightarrow> \<not> isSpace (hd s) \<Longrightarrow> \<not> isSpace (last s) \<Longrightarrow> TrimSpace s = s"
proof -
  assume s: "s \<noteq> []" "\<not> isSpace (hd s)" "\<not> isSpace (last s)"
  then have "dropWhile isSpace s = s" "dropWhile isSpace (rev s) = rev s"
    by (simp_all add: dropWhile_eq_self_iff hd_rev)
  then show ?thesis by (simp add: TrimSpace_def)
qed

lemma printUser_columns:
  assumes "userWF u"
  shows "Split (CHR '':'') (printUser u) = [UName u, UPass u, Itoa (UUid u), Itoa (UGid u), UGecos u, UHome u, UShell u]"
  unfolding printUser_def using assms column_Itoa
  by (intro Split_Join) (auto simp: userWF_def column_def)

lemma printUser_trimmed:
  assumes "userWF u"
  shows "TrimSpace (printUser u) = printUser u" "printUser u \<noteq> []"
proof -
  let ?x = "UName u @ CHR '':'' # UPass u @ CHR '':'' # Itoa (UUid u) @ CHR '':'' # Itoa (UGid u) @ CHR '':'' # UGecos u @ CHR '':'' # UHome u"
  have p: "printUser u = ?x @ CHR '':'' # UShell u" by (simp add: printUser_def)
  have "hd (printUser u) = hd (UName u)" "last (printUser u) = (if UShell u = [] then CHR '':'' else last (UShell u))"
    unfolding p using assms by (simp_all add: userWF_def)
  moreover show "printUser u \<noteq> []" unfolding p by simp
  ultimately show "TrimSpace (printUser u) = printUser u"
    using assms by (intro TrimSpace_id) (auto simp: userWF_def isSpace_def)
qed

lemma printUser_line:
  assumes "userWF u"
  shows "CHR 0x0A \<notin> set (printUser u) \<and> CHR 0x0D \<notin> set (printUser u) \<and> length (printUser u) < maxTokenSize"
  using assms column_Itoa by (auto simp: printUser_def userWF_def column_def)

lemma parseUser_printUser: "userWF u \<Longrightarrow> parseUser (printUser u) = u"
  by (simp add: parseUser_def parseLine_def printUser_columns)
    (simp add: userWF_def int64_def intPart_def Atoi_Itoa)

text \<open>
  C38.  The user table is read back as it was written, for entries whose columns hold no separator.
\<close>

theorem ParsePasswd_roundtrip:
  assumes "\<forall>u \<in> set us. userWF u"
  shows "ParsePasswd (Some (Inr (printLines (map printUser us)))) = Inr us"
proof -
  have "scanLines (printLines (map printUser us)) = (map printUser us, False)"
    by (rule scanLines_printLines) (use assms printUser_line in auto)
  moreover have "map TrimSpace (map printUser us) = map printUser us"
    "filter (\<lambda>l. l \<noteq> []) (map printUser us) = map printUser us" "map parseUser (map printUser us) = us"
    using assms by (auto simp: printUser_trimmed parseUser_printUser filter_id_conv intro: map_idI)
  ultimately show ?thesis
    by (simp add: ParsePasswd_def ParsePasswdFilter_def parseScanned_def scanSource_def wanted_def del: map_map)
qed

definition exampleUser :: User where
  "exampleUser = \<lparr>UName = ''bin'', UPass = ''x'', UUid = 1, UGid = 2, UGecos = ''b c'', UHome = ''/'', UShell = []\<rparr>"

lemma example_printUser: "printUser exampleUser = ''bin:x:1:2:b c:/:''"
  by code_simp

lemma example_userWF: "userWF exampleUser"
  unfolding userWF_def example_printUser
  by (simp add: exampleUser_def column_def isSpace_def int64_def maxTokenSize_def)

theorem ParsePasswd_roundtrip_witness:
  "ParsePasswd (Some (Inr (''bin:x:1:2:b c:/:'' @ [CHR 0x0A]))) = Inr [exampleUser]"
  using ParsePasswd_roundtrip [of "[exampleUser]"] example_userWF
  by (simp add: example_printUser printLines_def)

section \<open>User specifications\<close>

lemma wanted_simps [simp]: "wanted (Some f) = f" "wanted None = (\<lambda>_. True)"
  by (simp_all add: wanted_def fun_eq_iff)

lemma parseScanned_filter:
  "parseScanned parse r (Some f) = rbind (parseScanned parse r None) (\<lambda>es. Inr (filter f es))"
proof (cases r)
  case (Some src)
  then show ?thesis by (cases "scanSource src") (simp_all add: parseScanned_def)
qed (simp add: parseScanned_def)

lemma ParsePasswd_filter: "ParsePasswdFilter r (Some f) = rbind (ParsePasswd r) (\<lambda>us. Inr (filter f us))"
  by (simp add: ParsePasswdFilter_def ParsePasswd_def parseScanned_filter)

lemma ParseGroup_filter: "ParseGroupFilter r (Some f) = (filter f (fst (ParseGroup r)), snd (ParseGroup r))"
  by (auto simp: ParseGroup_def ParseGroupFilter_def split: option.splits sum.splits)

lemma find_filter: "find P xs = (case filter P xs of [] \<Rightarrow> None | x # _ \<Rightarrow> Some x)"
  by (induction xs) simp_all

lemma splitUserSpec_single: "CHR '':'' \<notin> set s \<Longrightarrow> splitUserSpec s = (s, [])"
  by (simp add: splitUserSpec_def parseLine_def Split_single)

lemma splitUserSpec_pair:
  "CHR '':'' \<notin> set s \<Longrightarrow> CHR '':'' \<notin> set t \<Longrightarrow> splitUserSpec (s @ CHR '':'' # t) = (s, t)"
  by (simp add: splitUserSpec_def parseLine_def Split_single Split_cons)

lemma matchUsers_entries: "ParsePasswd passwd = Inr us \<Longrightarrow> matchUsers a user passwd = Inr (filter (userWanted a user) us)"
  by (simp add: matchUsers_def ParsePasswd_filter)

lemma matchGroups_entries: "ParseGroup r = (gs, None) \<Longrightarrow> matchGroups a n r = Inr (filter (groupWanted a n) gs)"
  by (simp add: matchGroups_def ParseGroup_filter)

text \<open>
  C30.  A user given by name is the first entry of the user table with that name; its supplementary
  groups are exactly the groups that list the name, in the order of the group table, and the defaults
  only fill in supplementary groups when there are none.  An unknown name is an error.
\<close>

theorem GetExecUser_by_name:
  assumes "ParsePasswd passwd = Inr us" and "ParseGroup groupR = (gs, None)"
    and "name \<noteq> []" and "CHR '':'' \<notin> set name" and "snd (Atoi name) \<noteq> None"
  shows "GetExecUser name (Some d) passwd groupR =
    (case find (\<lambda>u. UName u = name) us of
       None \<Rightarrow> Inl (UFindUser name ErrNoPasswdEntries)
     | Some u \<Rightarrow>
         let sup = map GGid (filter (\<lambda>g. name \<in> set (GList g)) gs)
         in Inr \<lparr>EUid = UUid u, EGid = UGid u, ESgids = if sup = [] then ESgids d else sup, EHome = UHome u\<rparr>)"
proof -
  have w: "userWanted name d = (\<lambda>u. UName u = name)"
    using assms(3,5) by (auto simp: userWanted_def fun_eq_iff)
  have g: "groupWanted [] name = (\<lambda>g. name \<in> set (GList g))"
    by (simp add: groupWanted_def fun_eq_iff)
  show ?thesis
  proof (cases "filter (\<lambda>u. UName u = name) us")
    case Nil
    then show ?thesis
      using assms by (simp add: GetExecUser_def splitUserSpec_single matchUsers_entries w pickUser_def find_filter)
  next
    case (Cons u vs)
    then have "UName u = name" by (metis (mono_tags) filter_eq_Cons_iff)
    then show ?thesis
      using assms Cons
      by (simp add: GetExecUser_def splitUserSpec_single matchUsers_entries w pickUser_def find_filter
          matchGroups_entries g pickGroup_def Let_def)
  qed
qed

definition passwdEntries :: "reader \<Rightarrow> User list" where
  "passwdEntries r = (case ParsePasswd r of Inl _ \<Rightarrow> [] | Inr us \<Rightarrow> us)"

definition validID :: "int \<Rightarrow> bool" where
  "validID i \<longleftrightarrow> 0 \<le> i \<and> i < 2 ^ 31"

lemma matchUsers_subset: "matchUsers a user passwd = Inr us \<Longrightarrow> set us \<subseteq> set (passwdEntries passwd)"
  by (cases "ParsePasswd passwd") (auto simp: matchUsers_def ParsePasswd_filter passwdEntries_def split: if_splits)

lemma matchGroups_subset: "matchGroups a n r = Inr gs \<Longrightarrow> set gs \<subseteq> set (fst (ParseGroup r))"
  by (auto simp: matchGroups_def ParseGroup_filter split: option.splits if_splits)

lemma pickUser_ids:
  assumes "pickUser a user us = Inr (v, n)"
  shows "(EUid v = EUid user \<or> EUid v \<in> UUid ` set us \<or> validID (EUid v)) \<and>
    (EGid v = EGid user \<or> EGid v \<in> UGid ` set us) \<and> ESgids v = ESgids user"
  using assms
  by (auto simp: pickUser_def minID_def maxID_def validID_def Let_def result_simps split: list.splits if_splits)

lemma pickGroup_ids:
  assumes "pickGroup a user gs = Inr v"
  shows "EUid v = EUid user \<and> (EGid v = EGid user \<or> EGid v \<in> GGid ` set gs \<or> validID (EGid v)) \<and>
    (ESgids v = ESgids user \<or> set (ESgids v) \<subseteq> GGid ` set gs)"
  using assms
  by (auto simp: pickGroup_def minID_def maxID_def validID_def Let_def result_simps split: list.splits if_splits)

text \<open>
  C31.  Every id of a resolved user is a default, an id of the tables, or a number of the
  specification from 0 to 2^31 - 1.
\<close>

theorem GetExecUser_ids:
  assumes "GetExecUser userSpec (Some d) passwd groupR = Inr u"
  shows "(EUid u \<in> insert (EUid d) (UUid ` set (passwdEntries passwd)) \<or> validID (EUid u)) \<and>
    (EGid u \<in> insert (EGid d) (UGid ` set (passwdEntries passwd) \<union> GGid ` set (fst (ParseGroup groupR))) \<or> validID (EGid u)) \<and>
    (ESgids u = ESgids d \<or> set (ESgids u) \<subseteq> GGid ` set (fst (ParseGroup groupR)))"
proof -
  obtain a b where ab: "splitUserSpec userSpec = (a, b)" by fastforce
  from assms ab obtain us v n where us: "matchUsers a d passwd = Inr us" and v: "pickUser a d us = Inr (v, n)"
    and rest: "(if b \<noteq> [] \<or> n \<noteq> [] then rbind (matchGroups b n groupR) (pickGroup b v) else Inr v) = Inr u"
    by (auto simp: GetExecUser_def result_simps)
  note sub = matchUsers_subset [OF us] and ids = pickUser_ids [OF v]
  have "(EUid u = EUid v) \<and> (EGid u = EGid v \<or> EGid u \<in> GGid ` set (fst (ParseGroup groupR)) \<or> validID (EGid u)) \<and>
      (ESgids u = ESgids v \<or> set (ESgids u) \<subseteq> GGid ` set (fst (ParseGroup groupR)))"
  proof (cases "b \<noteq> [] \<or> n \<noteq> []")
    case True
    with rest obtain gs where gs: "matchGroups b n groupR = Inr gs" and u: "pickGroup b v gs = Inr u"
      by (auto simp: result_simps)
    show ?thesis using matchGroups_subset [OF gs] pickGroup_ids [OF u] by blast
  qed (use rest in auto)
  with sub ids show ?thesis by auto
qed

definition examplePasswd :: reader where
  "examplePasswd = Some (Inr (''bin:x:1:2:b c:/:'' @ [newline]))"

definition exampleGroups :: reader where
  "exampleGroups = Some (Inr (''# groups'' @ [newline] @ ''adm:x:4:root,bin'' @ [newline]))"

definition exampleGroup :: Group where
  "exampleGroup = \<lparr>GName = ''adm'', GPass = ''x'', GGid = 4, GList = [''root'', ''bin'']\<rparr>"

lemmas atoi_simps = Atoi_def ParseInt_def ParseUint_def isDigit_def digitVal_def

lemma example_ParsePasswd: "ParsePasswd examplePasswd = Inr [exampleUser]"
  by (simp add: ParsePasswd_def ParsePasswdFilter_def parseScanned_def examplePasswd_def scanSource_def
      scanLines_def rawLines_def newline_def Split_def maxTokenSize_def dropCR_def TrimSpace_def isSpace_def
      parseUser_def parseLine_def intPart_def atoi_simps exampleUser_def)

lemma example_ParseGroup: "ParseGroup exampleGroups = ([exampleGroup], None)"
proof -
  have "groupLines (''# groups'' @ newline # ''adm:x:4:root,bin'' @ newline # []) = [''# groups'', ''adm:x:4:root,bin'']"
    by (simp only: groupLines_line groupLines_Nil newline_def)
      (simp add: groupLines_line [unfolded newline_def, of "''# groups''", simplified]
        groupLines_line [unfolded newline_def, of "''adm:x:4:root,bin''" "[]", simplified] dropCR_def)
  then show ?thesis
    by (simp add: ParseGroup_def ParseGroupFilter_def exampleGroups_def TrimSpace_def isSpace_def groupLine_def
        parseGroupLine_def parseLine_def Split_def intPart_def listPart_def atoi_simps exampleGroup_def)
qed

theorem GetExecUser_by_name_witness:
  "GetExecUser ''bin'' (Some zeroExecUser) examplePasswd exampleGroups =
     Inr \<lparr>EUid = 1, EGid = 2, ESgids = [4], EHome = ''/''\<rparr>"
proof -
  have "snd (Atoi ''bin'') \<noteq> None" by (simp add: atoi_simps)
  then show ?thesis
    by (subst GetExecUser_by_name [OF example_ParsePasswd example_ParseGroup])
      (simp_all add: exampleUser_def exampleGroup_def)
qed

theorem GetExecUser_ids_witness:
  "\<exists>u. GetExecUser ''7:4'' (Some zeroExecUser) examplePasswd exampleGroups = Inr u \<and> validID (EUid u)"
proof -
  have s: "splitUserSpec ''7:4'' = (''7'', ''4'')" using splitUserSpec_pair [of "''7''" "''4''"] by simp
  have u: "GetExecUser ''7:4'' (Some zeroExecUser) examplePasswd exampleGroups =
      Inr \<lparr>EUid = 7, EGid = 4, ESgids = [], EHome = []\<rparr>"
    by (simp add: GetExecUser_def s matchUsers_entries [OF example_ParsePasswd] matchGroups_entries [OF example_ParseGroup]
        userWanted_def groupWanted_def pickUser_def pickGroup_def atoi_simps exampleUser_def exampleGroup_def
        minID_def maxID_def zeroExecUser_def)
  from GetExecUser_ids [OF u] have "validID 7"
    by (simp add: passwdEntries_def example_ParsePasswd exampleUser_def zeroExecUser_def)
  with u show ?thesis by simp
qed

section \<open>Additional groups\<close>

definition groupAnswer :: "Group list \<Rightarrow> string \<Rightarrow> int \<Rightarrow> bool" where
  "groupAnswer gs ag gid \<longleftrightarrow> (\<exists>g \<in> set gs. groupMatches ag g \<and> GGid g = gid) \<or> ParseInt 64 ag = (gid, None) \<and> validID gid"

lemma addGroup_step:
  assumes "addGroup gs ag m = Inr m'" and "distinct m"
  shows "distinct m' \<and> (\<exists>gid. set m' = insert gid (set m) \<and> groupAnswer gs ag gid)"
proof (cases "find (\<lambda>g. groupMatches ag g \<and> GGid g \<notin> set m) gs")
  case None
  with assms obtain gid where "ParseInt 64 ag = (gid, None)" and r: "\<not> (gid < minID \<or> maxID < gid)"
    and m': "m' = (if gid \<in> set m then m else m @ [gid])"
    by (auto simp: addGroup_def result_simps split: prod.splits option.splits)
  moreover have "validID gid" using r by (simp add: validID_def minID_def maxID_def)
  ultimately show ?thesis using assms(2) by (auto simp: groupAnswer_def)
next
  case (Some g)
  then have "g \<in> set gs" "groupMatches ag g" "GGid g \<notin> set m" by (auto simp: find_Some_iff)
  with Some assms show ?thesis by (auto simp: addGroup_def groupAnswer_def)
qed

lemma addGroups_answers:
  assumes "rfold (addGroup gs) ags m = Inr m'" and "distinct m"
  shows "distinct m' \<and> set m \<subseteq> set m' \<and> (\<forall>ag \<in> set ags. \<exists>gid \<in> set m'. groupAnswer gs ag gid) \<and>
    (\<forall>gid \<in> set m' - set m. \<exists>ag \<in> set ags. groupAnswer gs ag gid)"
  using assms
proof (induction ags arbitrary: m)
  case (Cons ag ags)
  from Cons.prems(1) obtain m1 where s: "addGroup gs ag m = Inr m1" and r: "rfold (addGroup gs) ags m1 = Inr m'"
    by (auto simp: result_simps)
  from addGroup_step [OF s Cons.prems(2)] obtain gid where d: "distinct m1"
    and m1: "set m1 = insert gid (set m)" and a: "groupAnswer gs ag gid" by blast
  note ih = Cons.IH [OF r d]
  have "gid \<in> set m'" using ih m1 by blast
  then show ?case using ih m1 a by (simp, blast)
qed simp

lemma GetAdditionalGroups_fold:
  assumes "GetAdditionalGroups ags r = Inr gids"
  obtains gs where "set gs \<subseteq> set (fst (ParseGroup r))" "rfold (addGroup gs) ags [] = Inr gids"
proof (cases r)
  case None
  with assms show ?thesis by (intro that [of "[]"]) (simp_all add: GetAdditionalGroups_def)
next
  case (Some a)
  with assms show ?thesis
    by (intro that [of "filter (\<lambda>g. \<exists>ag \<in> set ags. groupMatches ag g) (fst (ParseGroup r))"])
      (auto simp: GetAdditionalGroups_def ParseGroup_filter split: option.splits)
qed

text \<open>
  C40.  The ids returned for a list of additional groups are distinct, every one of them answers one of
  the requests, and every request is answered: by a group of the table with that name or number, or
  by the number itself, from 0 to 2^31 - 1.
\<close>

theorem GetAdditionalGroups_answers:
  assumes "GetAdditionalGroups ags r = Inr gids"
  shows "distinct gids \<and>
    (\<forall>ag \<in> set ags. \<exists>gid \<in> set gids. groupAnswer (fst (ParseGroup r)) ag gid) \<and>
    (\<forall>gid \<in> set gids. \<exists>ag \<in> set ags. groupAnswer (fst (ParseGroup r)) ag gid)"
proof -
  obtain gs where gs: "set gs \<subseteq> set (fst (ParseGroup r))" and f: "rfold (addGroup gs) ags [] = Inr gids"
    using GetAdditionalGroups_fold [OF assms] .
  have mono: "groupAnswer (fst (ParseGroup r)) ag gid" if "groupAnswer gs ag gid" for ag gid
    using that gs by (auto simp: groupAnswer_def)
  from addGroups_answers [OF f] have "distinct gids" "\<forall>ag \<in> set ags. \<exists>gid \<in> set gids. groupAnswer gs ag gid"
    "\<forall>gid \<in> set gids. \<exists>ag \<in> set ags. groupAnswer gs ag gid" by simp_all
  with mono show ?thesis by blast
qed

lemma GetAdditionalGroups_entries:
  assumes "ParseGroup r = (gs, None)"
  shows "GetAdditionalGroups ags r = rfold (addGroup (filter (\<lambda>g. \<exists>ag \<in> set ags. groupMatches ag g) gs)) ags []"
proof (cases r)
  case None
  with assms show ?thesis by (simp add: ParseGroup_def ParseGroupFilter_def)
next
  case (Some a)
  with assms show ?thesis unfolding GetAdditionalGroups_def ParseGroup_filter by simp
qed

lemma example_adm: "GetAdditionalGroups [''adm''] exampleGroups = Inr [4]"
  unfolding GetAdditionalGroups_entries [OF example_ParseGroup]
  by (simp add: addGroup_def groupMatches_def exampleGroup_def)

theorem GetAdditionalGroups_answers_witness:
  "\<exists>gid \<in> {4}. groupAnswer [exampleGroup] ''adm'' gid"
  using GetAdditionalGroups_answers [OF example_adm] by (simp add: example_ParseGroup)

text \<open>
  A group name that is requested twice is reported as not found, although the table has it.
\<close>

theorem GetAdditionalGroups_repeated_name:
  "GetAdditionalGroups [''adm'', ''adm''] exampleGroups = Inl (UFindGroup ''adm'' ErrNoGroupEntries) \<and>
   GetAdditionalGroups [''adm''] exampleGroups = Inr [4]"
  unfolding GetAdditionalGroups_entries [OF example_ParseGroup]
  by (simp add: addGroup_def groupMatches_def exampleGroup_def atoi_simps)

end
