(* ===== verification/Proc.thy ===== *)
theory Proc
  imports Go_Os
begin

text \<open>
  \<open>libcontainer/system/proc.go\<close>: the state and the start time of a process from \<open>/proc/PID/stat\<close>.  The start time tells a
  process from a later one that was given the same number, so reading it must not depend on the name that a
  process chose for itself.
\<close>

section \<open>Positions of bytes\<close>

fun indexByte :: "char \<Rightarrow> string \<Rightarrow> nat option" where
  "indexByte c [] = None"
| "indexByte c (x # xs) = (if x = c then Some 0 else map_option Suc (indexByte c xs))"

definition IndexByte :: "string \<Rightarrow> char \<Rightarrow> int" where
  "IndexByte s c = (case indexByte c s of None \<Rightarrow> -1 | Some i \<Rightarrow> int i)"

definition LastIndexByte :: "string \<Rightarrow> char \<Rightarrow> int" where
  "LastIndexByte s c = (case indexByte c (rev s) of None \<Rightarrow> -1 | Some i \<Rightarrow> int (length s) - 1 - int i)"

lemma indexByte_append: "c \<notin> set x \<Longrightarrow> indexByte c (x @ c # y) = Some (length x)"
  by (induction x) auto

lemma IndexByte_append: "c \<notin> set x \<Longrightarrow> IndexByte (x @ c # y) c = int (length x)"
  by (simp add: IndexByte_def indexByte_append)

lemma LastIndexByte_append: "c \<notin> set y \<Longrightarrow> LastIndexByte (x @ c # y) c = int (length x)"
  using indexByte_append [of c "rev y" "rev x"] by (simp add: LastIndexByte_def)

section \<open>Definitions\<close>

text \<open>The state is one character.\<close>

type_synonym ProcState = char

definition ProcDead :: ProcState where "ProcDead = CHR ''X''"
definition ProcZombie :: ProcState where "ProcZombie = CHR ''Z''"

definition ProcState_String :: "ProcState \<Rightarrow> string" where
  "ProcState_String s =
     (if s = ProcDead then ''dead'' else if s = CHR ''D'' then ''disk sleep'' else if s = CHR ''R'' then ''running''
      else if s = CHR ''S'' then ''sleeping'' else if s = CHR ''T'' then ''stopped'' else if s = CHR ''t'' then ''tracing stop''
      else if s = ProcZombie then ''zombie'' else if s = CHR ''P'' then ''parked'' else if s = CHR ''I'' then ''idle''
      else ''unknown ('' @ [s] @ '')'')"

record Stat_t =
  StName :: string
  StState :: ProcState
  StStartTime :: nat

datatype stat_error = StatOs errno | StatNoComm | StatTooShort | StatBadTime conv_error

definition minAfterName :: int where "minAfterName = 20 * 2 + 1"

text \<open>The position after a number of spaces.\<close>

fun skipSpaces :: "nat \<Rightarrow> string \<Rightarrow> nat" where
  "skipSpaces 0 s = 0"
| "skipSpaces (Suc k) [] = 0"
| "skipSpaces (Suc k) (c # cs) = Suc (skipSpaces (if c = CHR '' '' then k else Suc k) cs)"

definition parseStat :: "string \<Rightarrow> (stat_error, Stat_t) result" where
  "parseStat data =
     (let first = IndexByte data (CHR ''('')
      in rguard (first < 0 \<or> first + minAfterName \<ge> int (length data)) StatNoComm
     (let last = LastIndexByte data (CHR '')'')
      in rguard (last \<le> first \<or> last + minAfterName \<ge> int (length data)) StatNoComm
     (let name = take (nat (last - first - 1)) (drop (nat (first + 1)) data);
          rest = drop (nat (last + 2)) data;
          start = drop (skipSpaces (22 - 3) rest) rest;
          i = IndexByte start (CHR '' '')
      in rguard (i < 0) StatTooShort
           (case ParseUint 64 (take (nat i) start) of
              (_, Some e) \<Rightarrow> Inl (StatBadTime e)
            | (t, None) \<Rightarrow> Inr \<lparr>StName = name, StState = hd rest, StStartTime = t\<rparr>))))"

definition procStat :: "fs \<Rightarrow> int \<Rightarrow> (stat_error, Stat_t) result" where
  "procStat fs pid = (case ReadFile fs (JoinPath [''/proc'', Itoa pid, ''stat'']) of
       Inl e \<Rightarrow> Inl (StatOs e)
     | Inr data \<Rightarrow> parseStat data)"

section \<open>Reading a kernel line\<close>

lemma skipSpaces_word: "CHR '' '' \<notin> set f \<Longrightarrow> skipSpaces (Suc k) (f @ CHR '' '' # r) = Suc (length f + skipSpaces k r)"
  by (induction f) auto

lemma drop_words:
  "\<forall>f \<in> set fs. CHR '' '' \<notin> set f \<Longrightarrow>
   drop (skipSpaces (length fs) (concat (map (\<lambda>f. f @ '' '') fs) @ r)) (concat (map (\<lambda>f. f @ '' '') fs) @ r) = r"
proof (induction fs)
  case (Cons f fs)
  then show ?case using skipSpaces_word [of f "length fs" "concat (map (\<lambda>f. f @ '' '') fs) @ r"] by simp
qed simp

lemma length_words: "\<forall>f \<in> set fs. f \<noteq> [] \<Longrightarrow> 2 * length fs \<le> length (concat (map (\<lambda>f. f @ '' '') fs))"
proof (induction fs)
  case (Cons f fs)
  then have "1 \<le> length f" by (simp add: Suc_le_eq)
  moreover have "2 * length fs \<le> length (concat (map (\<lambda>f. f @ '' '') fs))" using Cons by simp
  ultimately show ?case by simp
qed simp

lemma parseStat_line:
  assumes "CHR ''('' \<notin> set pid" and "st \<notin> {CHR '' '', CHR '')''}" and "length fs = 18" and "t < 2 ^ 64"
    and "\<forall>f \<in> set fs. f \<noteq> [] \<and> CHR '' '' \<notin> set f \<and> CHR '')'' \<notin> set f"
    and "CHR '')'' \<notin> set tail" and "2 \<le> length tail"
  shows "parseStat (pid @ ''('' @ name @ '') '' @ [st] @ '' '' @ concat (map (\<lambda>f. f @ '' '') fs) @ dec t @ '' '' @ tail) =
    Inr \<lparr>StName = name, StState = st, StStartTime = t\<rparr>"
proof -
  let ?rest = "[st] @ '' '' @ concat (map (\<lambda>f. f @ '' '') fs) @ dec t @ '' '' @ tail"
  let ?data = "pid @ CHR ''('' # name @ CHR '')'' # CHR '' '' # ?rest"
  have first: "IndexByte ?data (CHR ''('') = int (length pid)" by (rule IndexByte_append) (rule assms(1))
  have "CHR '')'' \<notin> set (dec t)" using dec_digits [of "CHR '')''" t] by (auto simp: isDigit_def)
  then have last: "LastIndexByte ?data (CHR '')'') = int (length pid + 1 + length name)"
    using LastIndexByte_append [of "CHR '')''" "CHR '' '' # ?rest" "pid @ CHR ''('' # name"] assms(2,5,6) by auto
  have words: "concat (map (\<lambda>f. f @ '' '') ([st] # fs)) @ dec t @ '' '' @ tail = ?rest" by simp
  have sp: "CHR '' '' \<notin> set (dec t)" using dec_digits [of "CHR '' ''" t] by (auto simp: isDigit_def)
  have "\<forall>f \<in> set ([st] # fs). CHR '' '' \<notin> set f" using assms(2,5) by auto
  from drop_words [OF this, of "dec t @ '' '' @ tail"] assms(3)
  have start: "drop (skipSpaces 19 ?rest) ?rest = dec t @ '' '' @ tail" unfolding words by simp
  have "2 * length fs \<le> length (concat (map (\<lambda>f. f @ '' '') fs))" using assms(5) by (intro length_words) auto
  moreover have "1 \<le> length (dec t)" by (simp add: Suc_le_eq)
  ultimately have long: "41 \<le> length ?rest" using assms(3,7) by simp
  define R where "R = ?rest"
  note facts = first [folded R_def] last [folded R_def] start [folded R_def] long [folded R_def]
  have name: "take (nat (int (length pid + 1 + length name) - int (length pid) - 1)) (drop (nat (int (length pid) + 1)) (pid @ CHR ''('' # name @ CHR '')'' # CHR '' '' # R)) = name"
    by (simp add: nat_add_distrib)
  have "nat (int (length pid + 1 + length name) + 2) = length (pid @ CHR ''('' # name @ '') '')" by simp
  then have rest: "drop (nat (int (length pid + 1 + length name) + 2)) (pid @ CHR ''('' # name @ CHR '')'' # CHR '' '' # R) = R"
    by (metis append.assoc append_Cons append_Nil append_eq_conv_conj)
  have hd: "hd R = st" by (simp add: R_def)
  have "parseStat (pid @ CHR ''('' # name @ CHR '')'' # CHR '' '' # R) = Inr \<lparr>StName = name, StState = st, StStartTime = t\<rparr>"
    unfolding parseStat_def Let_def facts(1,2) name rest minAfterName_def
    using facts(3,4) hd ParseUint_dec [OF assms(4)] IndexByte_append [OF sp, of tail] by (simp add: rguard_def)
  then show ?thesis by (simp add: R_def)
qed

text \<open>
  C29.  The process name cannot disturb what is read: for a line of the kernel, with any bytes in the name, parentheses and
  spaces included, the name, the state and the start time are read exactly.
\<close>

theorem parseStat_exact:
  assumes "CHR ''('' \<notin> set pid" and "st \<notin> {CHR '' '', CHR '')''}" and "length fs = 18" and "t < 2 ^ 64"
    and "\<forall>f \<in> set fs. f \<noteq> [] \<and> CHR '' '' \<notin> set f \<and> CHR '')'' \<notin> set f"
    and "CHR '')'' \<notin> set tail" and "2 \<le> length tail"
  shows "parseStat (pid @ ''('' @ name @ '') '' @ [st] @ '' '' @ concat (map (\<lambda>f. f @ '' '') fs) @ dec t @ '' '' @ tail) =
    Inr \<lparr>StName = name, StState = st, StStartTime = t\<rparr>"
  by (rule parseStat_line [OF assms])

theorem parseStat_exact_witness:
  "parseStat ''7 (a) R (b) S 1 7 7 0 -1 4194560 9 8 0 3 6 2 7 9 20 0 1 0 97 52965376 3920'' =
     Inr \<lparr>StName = ''a) R (b'', StState = CHR ''S'', StStartTime = 97\<rparr>"
proof -
  have "dec 97 = ''97''" by code_simp
  then show ?thesis
    using parseStat_exact [of "''7 ''" "CHR ''S''" "[''1'', ''7'', ''7'', ''0'', ''-1'', ''4194560'', ''9'', ''8'', ''0'', ''3'', ''6'', ''2'', ''7'', ''9'', ''20'', ''0'', ''1'', ''0'']"
        97 "''52965376 3920''" "''a) R (b''"] by simp
qed

end
