(* ===== verification/Configs.thy ===== *)
theory Configs
  imports Device Go_Os
begin

text \<open>
  Package \<open>libcontainer/configs\<close>: the container configuration, its list of namespaces and the
  translation of container ids to host ids.  A nil pointer, and a nil slice where the code tells it
  from an empty one, is \<open>None\<close>.  Hooks that are Go functions cannot be written in a configuration
  file and are left out of \<open>CfHooks\<close>.
\<close>

unbundle bit_operations_syntax

section \<open>Resources\<close>

record WeightDevice =
  WdMajor :: int
  WdMinor :: int
  WdWeight :: "16 word"
  WdLeafWeight :: "16 word"

record ThrottleDevice =
  TdMajor :: int
  TdMinor :: int
  TdRate :: "64 word"

definition NewWeightDevice :: "int \<Rightarrow> int \<Rightarrow> 16 word \<Rightarrow> 16 word \<Rightarrow> WeightDevice" where
  "NewWeightDevice major minor weight leafWeight =
     \<lparr>WdMajor = major, WdMinor = minor, WdWeight = weight, WdLeafWeight = leafWeight\<rparr>"

definition NewThrottleDevice :: "int \<Rightarrow> int \<Rightarrow> 64 word \<Rightarrow> ThrottleDevice" where
  "NewThrottleDevice major minor rate = \<lparr>TdMajor = major, TdMinor = minor, TdRate = rate\<rparr>"

definition devNumbers :: "int \<Rightarrow> int \<Rightarrow> string" where
  "devNumbers major minor = Itoa major @ '':'' @ Itoa minor @ '' ''"

definition WeightString :: "WeightDevice \<Rightarrow> string" where
  "WeightString wd = devNumbers (WdMajor wd) (WdMinor wd) @ Itoa (uint (WdWeight wd))"

definition LeafWeightString :: "WeightDevice \<Rightarrow> string" where
  "LeafWeightString wd = devNumbers (WdMajor wd) (WdMinor wd) @ Itoa (uint (WdLeafWeight wd))"

definition ThrottleString :: "ThrottleDevice \<Rightarrow> string" where
  "ThrottleString td = devNumbers (TdMajor td) (TdMinor td) @ Itoa (uint (TdRate td))"

definition StringName :: "string \<Rightarrow> ThrottleDevice \<Rightarrow> string" where
  "StringName name td = devNumbers (TdMajor td) (TdMinor td) @ name @ ''='' @ Itoa (uint (TdRate td))"

record HugepageLimit =
  Pagesize :: string
  HugeLimit :: "64 word"

record IfPrioMap =
  PrioInterface :: string
  Priority :: int

definition IfPrioCgroupString :: "IfPrioMap \<Rightarrow> string" where
  "IfPrioCgroupString i = PrioInterface i @ '' '' @ Itoa (Priority i)"

record LinuxRdma =
  HcaHandles :: "32 word option"
  HcaObjects :: "32 word option"

record Resources =
  RDevices :: "Rule list"
  RMemory :: int
  RMemoryReservation :: int
  RMemorySwap :: int
  RCpuShares :: "64 word"
  RCpuQuota :: int
  RCpuPeriod :: "64 word"
  RCpuRtRuntime :: int
  RCpuRtPeriod :: "64 word"
  RCpusetCpus :: string
  RCpusetMems :: string
  RPidsLimit :: int
  RBlkioWeight :: "16 word"
  RBlkioLeafWeight :: "16 word"
  RBlkioWeightDevice :: "WeightDevice list"
  RThrottleReadBps :: "ThrottleDevice list"
  RThrottleWriteBps :: "ThrottleDevice list"
  RThrottleReadIOPS :: "ThrottleDevice list"
  RThrottleWriteIOPS :: "ThrottleDevice list"
  RFreezer :: string
  RHugetlbLimit :: "HugepageLimit list"
  ROomKillDisable :: bool
  RMemorySwappiness :: "64 word option"
  RNetPrioIfpriomap :: "IfPrioMap list"
  RNetClsClassid :: "32 word"
  RRdma :: "(string, LinuxRdma) fmap"
  RCpuWeight :: "64 word"
  RUnified :: "(string, string) fmap option"
  RSkipDevices :: bool
  RSkipFreezeOnSet :: bool

definition zeroResources :: Resources where
  "zeroResources = \<lparr>RDevices = [], RMemory = 0, RMemoryReservation = 0, RMemorySwap = 0, RCpuShares = 0, RCpuQuota = 0,
     RCpuPeriod = 0, RCpuRtRuntime = 0, RCpuRtPeriod = 0, RCpusetCpus = [], RCpusetMems = [], RPidsLimit = 0,
     RBlkioWeight = 0, RBlkioLeafWeight = 0, RBlkioWeightDevice = [], RThrottleReadBps = [], RThrottleWriteBps = [],
     RThrottleReadIOPS = [], RThrottleWriteIOPS = [], RFreezer = [], RHugetlbLimit = [], ROomKillDisable = False,
     RMemorySwappiness = None, RNetPrioIfpriomap = [], RNetClsClassid = 0, RRdma = fmempty, RCpuWeight = 0,
     RUnified = None, RSkipDevices = False, RSkipFreezeOnSet = False\<rparr>"

text \<open>A systemd property with its D-Bus value, which the code only passes on.\<close>

record 'v SdProperty =
  SdName :: string
  SdValue :: 'v

record 'v Cgroup =
  CgName :: string
  CgParent :: string
  CgPath :: string
  CgScopePrefix :: string
  CgResources :: "Resources option"
  CgSystemd :: bool
  CgSystemdProps :: "'v SdProperty list"
  CgRootless :: bool
  CgOwnerUID :: "int option"

section \<open>The parts of the configuration\<close>

record ConfigIDMap =
  ContainerID :: int
  HostID :: int
  MapSize :: int

record MountAttr =
  AttrSet :: "64 word"
  AttrClr :: "64 word"

record Command =
  CmdPath :: string
  CmdArgs :: "string list"
  CmdEnv :: "string list"
  CmdDir :: string
  CmdTimeout :: "int option"

record ConfigMount =
  CmSource :: string
  CmDestination :: string
  CmDevice :: string
  CmFlags :: "64 word"
  CmPropagationFlags :: "64 word list"
  CmData :: string
  CmRelabel :: string
  CmRecAttr :: "MountAttr option"
  CmExtensions :: "64 word"
  CmPremountCmds :: "Command list"
  CmPostmountCmds :: "Command list"

definition MS_BIND :: "64 word" where "MS_BIND = 4096"

definition IsBind :: "ConfigMount \<Rightarrow> bool" where
  "IsBind m \<longleftrightarrow> CmFlags m AND MS_BIND \<noteq> 0"

definition EXT_COPYUP :: "64 word" where "EXT_COPYUP = 1"

record ConfigDevice =
  DevRule :: Rule
  DevPath :: string
  DevFileMode :: "32 word"
  DevUid :: "32 word"
  DevGid :: "32 word"

record Network =
  NetType :: string
  NetName :: string
  NetBridge :: string
  NetMacAddress :: string
  NetAddress :: string
  NetGateway :: string
  NetIPv6Address :: string
  NetIPv6Gateway :: string
  NetMtu :: int
  NetTxQueueLen :: int
  NetHostInterfaceName :: string
  NetHairpinMode :: bool

record Route =
  RtDestination :: string
  RtSource :: string
  RtGateway :: string
  RtInterfaceName :: string

record Rlimit =
  RlType :: int
  RlHard :: "64 word"
  RlSoft :: "64 word"

record Capabilities =
  Bounding :: "string list"
  Effective :: "string list"
  Inheritable :: "string list"
  Permitted :: "string list"
  Ambient :: "string list"

record IntelRdt =
  ClosID :: string
  L3CacheSchema :: string
  MemBwSchema :: string

datatype Action = Kill | ActErrno | Trap | ActAllow | Trace | Log | Notify | KillThread | KillProcess

datatype Operator = EqualTo | NotEqualTo | GreaterThan | GreaterThanOrEqualTo | LessThan | LessThanOrEqualTo | MaskEqualTo

record Arg =
  ArgIndex :: nat
  ArgValue :: "64 word"
  ArgValueTwo :: "64 word"
  ArgOp :: Operator

record Syscall =
  ScName :: string
  ScAction :: Action
  ScErrnoRet :: "nat option"
  ScArgs :: "Arg list"

record Seccomp =
  SecDefaultAction :: Action
  SecArchitectures :: "string list"
  SecSyscalls :: "Syscall list"
  SecDefaultErrnoRet :: "nat option"
  SecListenerPath :: string
  SecListenerMetadata :: string

section \<open>Namespaces\<close>

type_synonym NamespaceType = string

definition NEWNET :: NamespaceType where "NEWNET = ''NEWNET''"
definition NEWPID :: NamespaceType where "NEWPID = ''NEWPID''"
definition NEWNS :: NamespaceType where "NEWNS = ''NEWNS''"
definition NEWUTS :: NamespaceType where "NEWUTS = ''NEWUTS''"
definition NEWIPC :: NamespaceType where "NEWIPC = ''NEWIPC''"
definition NEWUSER :: NamespaceType where "NEWUSER = ''NEWUSER''"
definition NEWCGROUP :: NamespaceType where "NEWCGROUP = ''NEWCGROUP''"

lemmas ns_defs = NEWNET_def NEWPID_def NEWNS_def NEWUTS_def NEWIPC_def NEWUSER_def NEWCGROUP_def

definition NsName :: "NamespaceType \<Rightarrow> string" where
  "NsName ns =
     (if ns = NEWNET then ''net'' else if ns = NEWNS then ''mnt'' else if ns = NEWPID then ''pid''
      else if ns = NEWIPC then ''ipc'' else if ns = NEWUSER then ''user'' else if ns = NEWUTS then ''uts''
      else if ns = NEWCGROUP then ''cgroup'' else [])"

definition NamespaceTypes :: "NamespaceType list" where
  "NamespaceTypes = [NEWUSER, NEWIPC, NEWUTS, NEWNET, NEWPID, NEWNS, NEWCGROUP]"

text \<open>The answer for a known type is cached in \<open>supportedNamespaces\<close>.\<close>

definition IsNamespaceSupported ::
  "fs \<Rightarrow> NamespaceType \<Rightarrow> (NamespaceType, bool) fmap \<Rightarrow> bool \<times> (NamespaceType, bool) fmap" where
  "IsNamespaceSupported fs ns supportedNamespaces =
     (case fmlookup supportedNamespaces ns of
        Some supported \<Rightarrow> (supported, supportedNamespaces)
      | None \<Rightarrow>
          (let nsFile = NsName ns
           in if nsFile = [] then (False, supportedNamespaces)
              else let supported = is_ok (Stat fs (''/proc/self/ns/'' @ nsFile))
                   in (supported, fmupd ns supported supportedNamespaces)))"

record Namespace =
  NsType :: NamespaceType
  NsPath :: string

type_synonym Namespaces = "Namespace list"

definition GetPath :: "int \<Rightarrow> Namespace \<Rightarrow> string" where
  "GetPath pid n = ''/proc/'' @ Itoa pid @ ''/ns/'' @ NsName (NsType n)"

text \<open>\<open>index\<close> returns \<open>-1\<close>, here \<open>None\<close>, for a type that is not listed.\<close>

fun nsIndex :: "NamespaceType \<Rightarrow> Namespaces \<Rightarrow> nat option" where
  "nsIndex t [] = None"
| "nsIndex t (ns # n) = (if NsType ns = t then Some 0 else map_option Suc (nsIndex t n))"

definition nsContains :: "NamespaceType \<Rightarrow> Namespaces \<Rightarrow> bool" where
  "nsContains t n = (nsIndex t n \<noteq> None)"

definition PathOf :: "NamespaceType \<Rightarrow> Namespaces \<Rightarrow> string" where
  "PathOf t n = (case nsIndex t n of None \<Rightarrow> [] | Some i \<Rightarrow> NsPath (n ! i))"

definition nsRemove :: "NamespaceType \<Rightarrow> Namespaces \<Rightarrow> bool \<times> Namespaces" where
  "nsRemove t n = (case nsIndex t n of None \<Rightarrow> (False, n) | Some i \<Rightarrow> (True, take i n @ drop (i + 1) n))"

definition nsAdd :: "NamespaceType \<Rightarrow> string \<Rightarrow> Namespaces \<Rightarrow> Namespaces" where
  "nsAdd t path n = (case nsIndex t n of
       None \<Rightarrow> n @ [\<lparr>NsType = t, NsPath = path\<rparr>]
     | Some i \<Rightarrow> n[i := (n ! i)\<lparr>NsPath := path\<rparr>])"

text \<open>The clone flags of the kernel interface; an unknown type reads the zero value.\<close>

definition namespaceInfo :: "NamespaceType \<Rightarrow> 64 word" where
  "namespaceInfo t =
     (if t = NEWNET then 1073741824 else if t = NEWNS then 131072 else if t = NEWUSER then 268435456
      else if t = NEWIPC then 134217728 else if t = NEWUTS then 67108864 else if t = NEWPID then 536870912
      else if t = NEWCGROUP then 33554432 else 0)"

definition NsSyscall :: "Namespace \<Rightarrow> 64 word" where
  "NsSyscall n = namespaceInfo (NsType n)"

definition CloneFlags :: "Namespaces \<Rightarrow> 64 word" where
  "CloneFlags n = foldl (\<lambda>flag v. if NsPath v \<noteq> [] then flag else flag OR namespaceInfo (NsType v)) 0 n"

section \<open>The configuration\<close>

record 'v Config =
  CfNoPivotRoot :: bool
  CfParentDeathSignal :: int
  CfRootfs :: string
  CfUmask :: "32 word option"
  CfReadonlyfs :: bool
  CfRootPropagation :: "64 word"
  CfMounts :: "ConfigMount list"
  CfDevices :: "ConfigDevice list"
  CfMountLabel :: string
  CfHostname :: string
  CfNamespaces :: Namespaces
  CfCapabilities :: "Capabilities option"
  CfNetworks :: "Network list"
  CfRoutes :: "Route list"
  CfCgroups :: "'v Cgroup option"
  CfAppArmorProfile :: string
  CfProcessLabel :: string
  CfRlimits :: "Rlimit list"
  CfOomScoreAdj :: "int option"
  CfUidMappings :: "ConfigIDMap list option"
  CfGidMappings :: "ConfigIDMap list option"
  CfMaskPaths :: "string list"
  CfReadonlyPaths :: "string list"
  CfSysctl :: "(string, string) fmap"
  CfSeccomp :: "Seccomp option"
  CfNoNewPrivileges :: bool
  CfHooks :: "(string, Command list) fmap"
  CfVersion :: string
  CfLabels :: "string list"
  CfNoNewKeyring :: bool
  CfIntelRdt :: "IntelRdt option"
  CfRootlessEUID :: bool
  CfRootlessCgroups :: bool

definition zeroConfig :: "'v Config" where
  "zeroConfig = \<lparr>CfNoPivotRoot = False, CfParentDeathSignal = 0, CfRootfs = [], CfUmask = None, CfReadonlyfs = False,
     CfRootPropagation = 0, CfMounts = [], CfDevices = [], CfMountLabel = [], CfHostname = [], CfNamespaces = [],
     CfCapabilities = None, CfNetworks = [], CfRoutes = [], CfCgroups = None, CfAppArmorProfile = [], CfProcessLabel = [],
     CfRlimits = [], CfOomScoreAdj = None, CfUidMappings = None, CfGidMappings = None, CfMaskPaths = [],
     CfReadonlyPaths = [], CfSysctl = fmempty, CfSeccomp = None, CfNoNewPrivileges = False, CfHooks = fmempty,
     CfVersion = [], CfLabels = [], CfNoNewKeyring = False, CfIntelRdt = None, CfRootlessEUID = False,
     CfRootlessCgroups = False\<rparr>"

definition KnownHookNames :: "string list" where
  "KnownHookNames = [''prestart'', ''createRuntime'', ''createContainer'', ''startContainer'', ''poststart'', ''poststop'']"

section \<open>Host ids\<close>

datatype map_error = errNoUIDMap | errNoUserMap | errNoGIDMap | errNoGroupMap

text \<open>Arithmetic on Go's \<open>int\<close> wraps around at 64 bits.\<close>

definition wrap64 :: "int \<Rightarrow> int" where
  "wrap64 i = signed_take_bit 63 i"

fun hostIDFromMapping :: "int \<Rightarrow> ConfigIDMap list \<Rightarrow> int option" where
  "hostIDFromMapping i [] = None"
| "hostIDFromMapping i (m # uMap) =
     (if ContainerID m \<le> i \<and> i \<le> wrap64 (ContainerID m + MapSize m - 1)
      then Some (wrap64 (HostID m + (i - ContainerID m)))
      else hostIDFromMapping i uMap)"

definition HostUID :: "'v Config \<Rightarrow> int \<Rightarrow> (map_error, int) result" where
  "HostUID c containerId =
     (if nsContains NEWUSER (CfNamespaces c)
      then (case CfUidMappings c of
              None \<Rightarrow> Inl errNoUIDMap
            | Some uMap \<Rightarrow> (case hostIDFromMapping containerId uMap of None \<Rightarrow> Inl errNoUserMap | Some i \<Rightarrow> Inr i))
      else Inr containerId)"

definition HostRootUID :: "'v Config \<Rightarrow> (map_error, int) result" where
  "HostRootUID c = HostUID c 0"

definition HostGID :: "'v Config \<Rightarrow> int \<Rightarrow> (map_error, int) result" where
  "HostGID c containerId =
     (if nsContains NEWUSER (CfNamespaces c)
      then (case CfGidMappings c of
              None \<Rightarrow> Inl errNoGIDMap
            | Some gMap \<Rightarrow> (case hostIDFromMapping containerId gMap of None \<Rightarrow> Inl errNoGroupMap | Some i \<Rightarrow> Inr i))
      else Inr containerId)"

definition HostRootGID :: "'v Config \<Rightarrow> (map_error, int) result" where
  "HostRootGID c = HostGID c 0"

section \<open>The namespace list as a table\<close>

text \<open>
  What users of the list rely on: it is a table from types to paths.  The invariant is that no type is
  listed twice.
\<close>

locale namespace_table =
  fixes inv :: "'n \<Rightarrow> bool"
    and view :: "'n \<Rightarrow> NamespaceType \<Rightarrow> string option"
    and contains :: "NamespaceType \<Rightarrow> 'n \<Rightarrow> bool"
    and pathOf :: "NamespaceType \<Rightarrow> 'n \<Rightarrow> string"
    and add :: "NamespaceType \<Rightarrow> string \<Rightarrow> 'n \<Rightarrow> 'n"
    and remove :: "NamespaceType \<Rightarrow> 'n \<Rightarrow> bool \<times> 'n"
  assumes contains_view: "contains t n \<longleftrightarrow> view n t \<noteq> None"
    and pathOf_view: "pathOf t n = (case view n t of None \<Rightarrow> [] | Some p \<Rightarrow> p)"
    and add_inv: "inv n \<Longrightarrow> inv (add t p n)"
    and add_view: "view (add t p n) = (view n)(t \<mapsto> p)"
    and remove_inv: "inv n \<Longrightarrow> inv (snd (remove t n))"
    and remove_view: "inv n \<Longrightarrow> view (snd (remove t n)) = (view n)(t := None)"
    and remove_result: "fst (remove t n) \<longleftrightarrow> view n t \<noteq> None"
begin

lemma added_found: "contains t (add t p n) \<and> pathOf t (add t p n) = p"
  by (simp add: contains_view pathOf_view add_view)

lemma added_other: "s \<noteq> t \<Longrightarrow> contains s (add t p n) = contains s n \<and> pathOf s (add t p n) = pathOf s n"
  by (simp add: contains_view pathOf_view add_view)

lemma removed_gone: "inv n \<Longrightarrow> \<not> contains t (snd (remove t n))"
  by (simp add: contains_view remove_view)

end

definition nsMap :: "Namespaces \<Rightarrow> NamespaceType \<Rightarrow> string option" where
  "nsMap n = map_of (map (\<lambda>ns. (NsType ns, NsPath ns)) n)"

definition nsDistinct :: "Namespaces \<Rightarrow> bool" where
  "nsDistinct n = distinct (map NsType n)"

lemma nsIndex_None: "nsIndex t n = None \<longleftrightarrow> t \<notin> NsType ` set n"
  by (induction n) auto

lemma nsIndex_Some: "nsIndex t n = Some i \<Longrightarrow> i < length n \<and> NsType (n ! i) = t \<and> t \<notin> NsType ` set (take i n)"
proof (induction n arbitrary: i)
  case (Cons ns n)
  then show ?case by (cases i) (auto split: if_splits)
qed simp

lemma nsMap_split:
  assumes "nsIndex t n = Some i"
  obtains xs x ys where "n = xs @ x # ys" "i = length xs" "NsType x = t" "t \<notin> NsType ` set xs"
proof
  have i: "i < length n" "NsType (n ! i) = t" "t \<notin> NsType ` set (take i n)" using nsIndex_Some [OF assms] by auto
  show "n = take i n @ n ! i # drop (Suc i) n" using i by (simp add: id_take_nth_drop)
  show "i = length (take i n)" using i by simp
  show "NsType (n ! i) = t" "t \<notin> NsType ` set (take i n)" using i by auto
qed

lemma nsMap_append: "nsMap (xs @ ys) = nsMap ys ++ nsMap xs"
  by (simp add: nsMap_def)

lemma nsMap_Cons: "nsMap (x # xs) = (nsMap xs)(NsType x \<mapsto> NsPath x)"
  by (simp add: nsMap_def)

lemma nsMap_absent: "t \<notin> NsType ` set n \<longleftrightarrow> nsMap n t = None"
  by (auto simp: nsMap_def map_of_eq_None_iff image_image)

interpretation ns_list: namespace_table nsDistinct nsMap nsContains PathOf nsAdd nsRemove
proof
  fix t n
  show contains: "nsContains t n \<longleftrightarrow> nsMap n t \<noteq> None"
    by (simp add: nsContains_def nsIndex_None flip: nsMap_absent)
  show "PathOf t n = (case nsMap n t of None \<Rightarrow> [] | Some p \<Rightarrow> p)"
  proof (cases "nsIndex t n")
    case None
    with contains show ?thesis by (simp add: PathOf_def nsContains_def)
  next
    case (Some i)
    then obtain xs x ys where s: "n = xs @ x # ys" "i = length xs" "NsType x = t" "t \<notin> NsType ` set xs"
      by (rule nsMap_split)
    then have "nsMap n t = Some (NsPath x)" by (simp add: nsMap_append nsMap_Cons map_add_def nsMap_absent)
    with Some s show ?thesis by (simp add: PathOf_def nth_append)
  qed
  show "fst (nsRemove t n) \<longleftrightarrow> nsMap n t \<noteq> None"
    using contains by (cases "nsIndex t n") (auto simp: nsRemove_def nsContains_def)
next
  fix t p n assume d: "nsDistinct n"
  show "nsDistinct (nsAdd t p n)"
  proof (cases "nsIndex t n")
    case None
    then have "t \<notin> NsType ` set n" by (simp add: nsIndex_None)
    with None d show ?thesis by (simp add: nsAdd_def nsDistinct_def)
  next
    case (Some i)
    then obtain xs x ys where s: "n = xs @ x # ys" "i = length xs" "NsType x = t" "t \<notin> NsType ` set xs"
      by (rule nsMap_split)
    with d Some show ?thesis by (simp add: nsAdd_def nsDistinct_def nth_append)
  qed
next
  fix t p n
  show "nsMap (nsAdd t p n) = (nsMap n)(t \<mapsto> p)"
  proof (cases "nsIndex t n")
    case None
    then have "nsMap n t = None" by (simp add: nsIndex_None nsMap_absent)
    with None show ?thesis
      by (auto simp: nsAdd_def nsMap_append nsMap_Cons nsMap_def [of "[]"] map_add_def fun_eq_iff split: option.splits)
  next
    case (Some i)
    then obtain xs x ys where s: "n = xs @ x # ys" "i = length xs" "NsType x = t" "t \<notin> NsType ` set xs"
      by (rule nsMap_split)
    then have "nsMap xs t = None" by (simp add: nsMap_absent)
    with Some s show ?thesis
      by (auto simp: nsAdd_def nsMap_append nsMap_Cons map_add_def fun_eq_iff nth_append split: option.splits)
  qed
next
  fix t n assume d: "nsDistinct n"
  show "nsDistinct (snd (nsRemove t n))" "nsMap (snd (nsRemove t n)) = (nsMap n)(t := None)"
  proof -
    have "nsDistinct (snd (nsRemove t n)) \<and> nsMap (snd (nsRemove t n)) = (nsMap n)(t := None)"
    proof (cases "nsIndex t n")
      case None
      then have "nsMap n t = None" by (simp add: nsIndex_None nsMap_absent)
      with None d show ?thesis by (auto simp: nsRemove_def fun_eq_iff)
    next
      case (Some i)
      then obtain xs x ys where s: "n = xs @ x # ys" "i = length xs" "NsType x = t" "t \<notin> NsType ` set xs"
        by (rule nsMap_split)
      have "t \<notin> NsType ` set ys" using d s by (auto simp: nsDistinct_def)
      then have "nsMap xs t = None" "nsMap ys t = None" using s by (simp_all add: nsMap_absent)
      with Some s d show ?thesis
        by (auto simp: nsRemove_def nsDistinct_def nsMap_append nsMap_Cons map_add_def fun_eq_iff split: option.splits)
    qed
    then show "nsDistinct (snd (nsRemove t n))" "nsMap (snd (nsRemove t n)) = (nsMap n)(t := None)" by auto
  qed
qed

text \<open>
  The list of namespaces is a table: adding sets the path of one type and keeps the others,
  removing drops exactly one type and reports whether it was there, and no type is ever listed twice.
\<close>

theorem Namespaces_table:
  assumes "nsDistinct n"
  shows "nsMap (nsAdd t p n) = (nsMap n)(t \<mapsto> p) \<and> nsDistinct (nsAdd t p n) \<and>
    nsMap (snd (nsRemove t n)) = (nsMap n)(t := None) \<and> nsDistinct (snd (nsRemove t n)) \<and>
    fst (nsRemove t n) = nsContains t n \<and> nsContains t n = (nsMap n t \<noteq> None) \<and> PathOf t n = (case nsMap n t of None \<Rightarrow> [] | Some q \<Rightarrow> q)"
  using assms ns_list.add_view ns_list.add_inv ns_list.remove_view ns_list.remove_inv ns_list.remove_result
    ns_list.contains_view ns_list.pathOf_view by simp

theorem Namespaces_table_witness:
  "nsMap (snd (nsRemove NEWNET (nsAdd NEWPID ''/p'' [\<lparr>NsType = NEWNET, NsPath = []\<rparr>]))) = [NEWPID \<mapsto> ''/p'']"
proof -
  let ?n = "[\<lparr>NsType = NEWNET, NsPath = []\<rparr>]"
  have d: "nsDistinct ?n" and ne: "NEWNET \<noteq> NEWPID" by (simp_all add: nsDistinct_def ns_defs)
  have add: "nsMap (nsAdd NEWPID ''/p'' ?n) = [NEWNET \<mapsto> [], NEWPID \<mapsto> ''/p'']" "nsDistinct (nsAdd NEWPID ''/p'' ?n)"
    using Namespaces_table [OF d, of NEWPID "''/p''"] by (simp_all add: nsMap_def)
  have "nsMap (snd (nsRemove NEWNET (nsAdd NEWPID ''/p'' ?n))) = [NEWNET \<mapsto> [], NEWPID \<mapsto> ''/p''](NEWNET := None)"
    using Namespaces_table [OF add(2), of NEWNET] add(1) by simp
  also have "\<dots> = [NEWPID \<mapsto> ''/p'']" using ne by (auto simp: fun_eq_iff)
  finally show ?thesis .
qed

section \<open>Clone flags\<close>

definition nsBit :: "NamespaceType \<Rightarrow> nat option" where
  "nsBit t = map_of [(NEWNET, 30), (NEWNS, 17), (NEWUSER, 28), (NEWIPC, 27), (NEWUTS, 26), (NEWPID, 29), (NEWCGROUP, 25)] t"

lemma bit_pow: "bit (2 ^ k :: 64 word) i \<longleftrightarrow> i = k \<and> k < 64"
  by (auto simp: bit_exp_iff)

lemma namespaceInfo_pow: "namespaceInfo t = (case nsBit t of None \<Rightarrow> 0 | Some k \<Rightarrow> 2 ^ k)"
  by (simp add: namespaceInfo_def nsBit_def)

lemma nsBit_cases: "nsBit t = Some i \<Longrightarrow>
  (t, i) \<in> {(NEWNET, 30), (NEWNS, 17), (NEWUSER, 28), (NEWIPC, 27), (NEWUTS, 26), (NEWPID, 29), (NEWCGROUP, 25)}"
  unfolding nsBit_def by (drule map_of_SomeD) simp

lemma bit_namespaceInfo: "bit (namespaceInfo t) i \<longleftrightarrow> nsBit t = Some i"
proof (cases "nsBit t")
  case (Some k)
  then have "k < 64" using nsBit_cases [OF Some] by auto
  with Some show ?thesis by (auto simp: namespaceInfo_pow bit_pow)
qed (simp add: namespaceInfo_pow)

lemma nsBit_inj: "nsBit s = Some i \<Longrightarrow> nsBit t = Some i \<Longrightarrow> s = t"
  by (drule nsBit_cases, drule nsBit_cases) (elim insertE; simp)

lemma bit_CloneFlags_fold:
  "bit (foldl (\<lambda>flag v. if NsPath v \<noteq> [] then flag else flag OR namespaceInfo (NsType v)) f n) i \<longleftrightarrow>
   bit f i \<or> (\<exists>v \<in> set n. NsPath v = [] \<and> nsBit (NsType v) = Some i)"
  by (induction n arbitrary: f) (auto simp: bit_or_iff bit_namespaceInfo)

text \<open>
  The clone flags ask the kernel for exactly the new namespaces: the flag of a type is set if
  and only if the type is listed without a path to join.
\<close>

theorem CloneFlags_exact:
  assumes "t \<in> set NamespaceTypes"
  shows "CloneFlags n AND namespaceInfo t = namespaceInfo t \<longleftrightarrow> (\<exists>v \<in> set n. NsType v = t \<and> NsPath v = [])"
proof -
  obtain k where k: "nsBit t = Some k" using assms by (auto simp: NamespaceTypes_def nsBit_def ns_defs)
  have "CloneFlags n AND namespaceInfo t = namespaceInfo t \<longleftrightarrow> bit (CloneFlags n) k"
    using k by (auto simp: and_eq_iff_bits bit_namespaceInfo)
  also have "\<dots> \<longleftrightarrow> (\<exists>v \<in> set n. NsType v = t \<and> NsPath v = [])"
    using k nsBit_inj by (auto simp: CloneFlags_def bit_CloneFlags_fold)
  finally show ?thesis .
qed

theorem CloneFlags_exact_witness:
  "CloneFlags [\<lparr>NsType = NEWPID, NsPath = []\<rparr>, \<lparr>NsType = NEWNET, NsPath = ''/n''\<rparr>] AND namespaceInfo NEWPID = namespaceInfo NEWPID \<and>
   CloneFlags [\<lparr>NsType = NEWPID, NsPath = []\<rparr>, \<lparr>NsType = NEWNET, NsPath = ''/n''\<rparr>] AND namespaceInfo NEWNET \<noteq> namespaceInfo NEWNET"
  using CloneFlags_exact [of NEWPID] CloneFlags_exact [of NEWNET] by (auto simp: NamespaceTypes_def ns_defs)

section \<open>Host ids\<close>

text \<open>The fields of a mapping come from 32-bit numbers of the specification.\<close>

definition map32 :: "ConfigIDMap \<Rightarrow> bool" where
  "map32 m \<longleftrightarrow> 0 \<le> ContainerID m \<and> ContainerID m < 2 ^ 32 \<and> 0 \<le> HostID m \<and> HostID m < 2 ^ 32 \<and> 0 \<le> MapSize m \<and> MapSize m < 2 ^ 32"

definition covers :: "ConfigIDMap \<Rightarrow> int \<Rightarrow> bool" where
  "covers m i \<longleftrightarrow> ContainerID m \<le> i \<and> i < ContainerID m + MapSize m"

definition hostRange :: "ConfigIDMap \<Rightarrow> int set" where
  "hostRange m = {HostID m ..< HostID m + MapSize m}"

lemma wrap64_id: "- (2 ^ 63) \<le> i \<Longrightarrow> i < 2 ^ 63 \<Longrightarrow> wrap64 i = i"
  unfolding wrap64_def by (rule signed_take_bit_int_eq_self) simp_all

lemma hostID_find:
  "\<forall>m \<in> set ms. map32 m \<Longrightarrow>
   hostIDFromMapping i ms = map_option (\<lambda>m. HostID m + (i - ContainerID m)) (find (\<lambda>m. covers m i) ms)"
proof (induction ms)
  case (Cons m ms)
  have e: "wrap64 (ContainerID m + MapSize m - 1) = ContainerID m + MapSize m - 1"
    using Cons.prems by (intro wrap64_id) (simp_all add: map32_def)
  have h: "wrap64 (HostID m + (i - ContainerID m)) = HostID m + (i - ContainerID m)" if "covers m i"
    using Cons.prems that by (intro wrap64_id) (simp_all add: map32_def covers_def)
  have "ContainerID m \<le> i \<and> i \<le> ContainerID m + MapSize m - 1 \<longleftrightarrow> covers m i" by (auto simp: covers_def)
  then show ?case using Cons e h by simp
qed simp

text \<open>
  C37.  Container ids are translated to host ids of the delegated ranges, and no two of them to the same
  host id when the host ranges of different mappings do not overlap.
\<close>

theorem hostIDFromMapping_sound:
  assumes "\<forall>m \<in> set ms. map32 m"
    and "\<forall>m \<in> set ms. \<forall>m' \<in> set ms. m \<noteq> m' \<longrightarrow> hostRange m \<inter> hostRange m' = {}"
    and "hostIDFromMapping i ms = Some h" and "hostIDFromMapping j ms = Some h'"
  shows "(\<exists>m \<in> set ms. h \<in> hostRange m) \<and> (h = h' \<longrightarrow> i = j)"
proof -
  from assms(3) obtain m where m: "m \<in> set ms" "covers m i" "h = HostID m + (i - ContainerID m)"
    by (auto simp: hostID_find [OF assms(1)] find_Some_iff in_set_conv_nth)
  from assms(4) obtain m' where m': "m' \<in> set ms" "covers m' j" "h' = HostID m' + (j - ContainerID m')"
    by (auto simp: hostID_find [OF assms(1)] find_Some_iff in_set_conv_nth)
  have r: "h \<in> hostRange m" "h' \<in> hostRange m'" using m m' by (auto simp: hostRange_def covers_def)
  have "i = j" if "h = h'"
  proof -
    have "m = m'" using assms(2) m(1) m'(1) r that by blast
    with m m' that show ?thesis by simp
  qed
  with m r show ?thesis by blast
qed

theorem hostIDFromMapping_sound_witness:
  "\<exists>h. hostIDFromMapping 7 [\<lparr>ContainerID = 0, HostID = 100000, MapSize = 65536\<rparr>] = Some h \<and>
     h \<in> hostRange \<lparr>ContainerID = 0, HostID = 100000, MapSize = 65536\<rparr>"
proof -
  let ?m = "\<lparr>ContainerID = 0, HostID = 100000, MapSize = 65536\<rparr>"
  have ok: "\<forall>m \<in> set [?m]. map32 m" by (simp add: map32_def)
  have h: "hostIDFromMapping 7 [?m] = Some 100007" by (subst hostID_find [OF ok]) (simp add: covers_def)
  from hostIDFromMapping_sound [OF ok _ h h] have "100007 \<in> hostRange ?m" by simp
  with h show ?thesis by blast
qed

end
