(* ===== verification/Runc_Utils.thy ===== *)
theory Runc_Utils
  imports Go_Os
begin

text \<open>
  Helpers of \<open>libcontainer/utils\<close>: lexical cleaning of paths, labels, and exit statuses; and the
  conversions of cgroup v1 limits to cgroup v2 values from \<open>libcontainer/cgroups/utils.go\<close>, on machine
  integers.
\<close>

section \<open>Paths\<close>

definition CleanPath :: "string \<Rightarrow> string" where
  "CleanPath path =
     (if path = [] then []
      else let path = Clean path;
               path = (if \<not> IsAbs path
                       then (case Rel ''/'' (Clean (sep # path)) of None \<Rightarrow> [] | Some r \<Rightarrow> r)
                       else path)
           in Clean path)"

definition stripRoot :: "string \<Rightarrow> string \<Rightarrow> string" where
  "stripRoot root path =
     (let root = CleanPath (sep # root); path = CleanPath (sep # path);
          path = (if path = root then ''/''
                  else if root = ''/'' then path
                  else if HasPrefix path (root @ ''/'') then TrimPrefix path (root @ ''/'')
                  else path)
      in CleanPath (sep # path))"

section \<open>Labels\<close>

fun SearchLabels :: "string list \<Rightarrow> string \<Rightarrow> string" where
  "SearchLabels [] query = []"
| "SearchLabels (l # labels) query =
     (let parts = SplitN2 (CHR ''='') l
      in if length parts < 2 then SearchLabels labels query
         else if parts ! 0 = query then parts ! 1
         else SearchLabels labels query)"

definition annotationStep :: "string \<times> (string, string) fmap \<Rightarrow> string \<Rightarrow> string \<times> (string, string) fmap" where
  "annotationStep s l =
     (let parts = SplitN2 (CHR ''='') l
      in if length parts < 2 then s
         else if parts ! 0 = ''bundle'' then (parts ! 1, snd s)
         else (fst s, fmupd (parts ! 0) (parts ! 1) (snd s)))"

definition Annotations :: "string list \<Rightarrow> string \<times> (string, string) fmap" where
  "Annotations labels = foldl annotationStep ([], fmempty) labels"

section \<open>Exit statuses\<close>

text \<open>The wait status of Linux, as \<open>syscall.WaitStatus\<close> decodes it.\<close>

definition Signaled :: "32 word \<Rightarrow> bool" where
  "Signaled w \<longleftrightarrow> uint w mod 128 \<noteq> 127 \<and> uint w mod 128 \<noteq> 0"

definition WaitSignal :: "32 word \<Rightarrow> int" where
  "WaitSignal w = (if Signaled w then uint w mod 128 else -1)"

definition WaitExitStatus :: "32 word \<Rightarrow> int" where
  "WaitExitStatus w = (if uint w mod 128 = 0 then uint w div 256 mod 256 else -1)"

definition exitSignalOffset :: int where "exitSignalOffset = 128"

definition ExitStatus :: "32 word \<Rightarrow> int" where
  "ExitStatus status = (if Signaled status then exitSignalOffset + WaitSignal status else WaitExitStatus status)"

section \<open>Cgroup values\<close>

definition ConvertCPUSharesToCgroupV2Value :: "64 word \<Rightarrow> 64 word" where
  "ConvertCPUSharesToCgroupV2Value cpuShares =
     (if cpuShares = 0 then 0 else 1 + ((cpuShares - 2) * 9999) div 262142)"

definition ConvertBlkIOToIOWeightValue :: "16 word \<Rightarrow> 64 word" where
  "ConvertBlkIOToIOWeightValue blkIoWeight =
     (if blkIoWeight = 0 then 0 else 1 + (ucast blkIoWeight - 10) * 9999 div 990)"

datatype swap_error = SwapWithoutMemory | SwapInvalidMemory int | SwapBelowMemory

text \<open>The subtraction is only reached for \<open>0 < memory \<le> memorySwap\<close>, where 64 bits are enough.\<close>

definition ConvertMemorySwapToCgroupV2Value :: "int \<Rightarrow> int \<Rightarrow> (swap_error, int) result" where
  "ConvertMemorySwapToCgroupV2Value memorySwap memory =
     (if memory = -1 \<and> memorySwap = 0 then Inr (-1)
      else if memorySwap = -1 \<or> memorySwap = 0 then Inr memorySwap
      else if memory = 0 \<or> memory = -1 then Inl SwapWithoutMemory
      else if memory < 0 then Inl (SwapInvalidMemory memory)
      else if memorySwap < memory then Inl SwapBelowMemory
      else Inr (memorySwap - memory))"

section \<open>Cleaned paths stay inside\<close>

lemma CleanPath_no_parent: "dotdot \<notin> set (Split sep (CleanPath p))"
proof (cases "p = []")
  case False
  have "dotdot \<notin> set (comps (CleanPath p))"
  proof (cases "IsAbs p")
    case True
    with False show ?thesis by (simp add: CleanPath_def comps_abs_no_dotdot)
  next
    case F: False
    let ?q = "Clean (sep # Clean p)"
    have q: "IsAbs ?q" "comps ''/'' = []" by (simp_all add: comps_def cleanComps_def cleanPush_def Split_Cons)
    show ?thesis
    proof (cases "comps ?q = []")
      case True
      then have "Rel ''/'' ?q = Some dot" using q by (intro Rel_self) simp_all
      moreover have "comps dot = []" by (simp add: comps_def cleanComps_def cleanPush_def Split_single)
      ultimately show ?thesis using False F by (simp add: CleanPath_def)
    next
      case ne: False
      then have r: "Rel ''/'' ?q = Some (Join sep (comps ?q))" using q by (intro Rel_below) simp_all
      have n: "normComps False (comps ?q)"
        using comps_norm [of ?q] q(1) set_dropWhileD by (fastforce simp: normComps_def)
      have "comps (Join sep (comps ?q)) = comps ?q" using comps_unComps [OF n] ne by (simp add: unComps_def)
      moreover have "dotdot \<notin> set (comps ?q)" using q(1) by (rule comps_abs_no_dotdot)
      ultimately show ?thesis using False F r by (simp add: CleanPath_def)
    qed
  qed
  moreover have "CleanPath p = Clean (CleanPath p)" using False by (simp add: CleanPath_def Let_def)
  ultimately show ?thesis using Split_Clean [of "CleanPath p"] by (metis Un_iff dot_simps(4,6) insertE singletonD subsetD)
qed (simp add: CleanPath_def)

text \<open>
  C22.  A path cleaned by \<open>CleanPath\<close> stays lexically inside every directory it is joined to, whatever
  parent elements it had.
\<close>

theorem CleanPath_contained:
  assumes "root \<noteq> []"
  shows "inside root (JoinPath [root, CleanPath p])"
proof (cases "CleanPath p = []")
  case True
  with assms show ?thesis by (simp add: JoinPath_def)
next
  case False
  then show ?thesis
    using assms CleanPath_no_parent [of p]
    by (simp add: JoinPath2 inside_def comps_append_down IsAbs_append)
qed

theorem CleanPath_contained_witness:
  "JoinPath [''/sys/fs/cgroup'', CleanPath ''../../etc''] = ''/sys/fs/cgroup/etc'' \<and>
   inside ''/sys/fs/cgroup'' ''/sys/fs/cgroup/etc''"
proof -
  have e: "JoinPath [''/sys/fs/cgroup'', CleanPath ''../../etc''] = ''/sys/fs/cgroup/etc''" by code_simp
  show ?thesis using CleanPath_contained [of "''/sys/fs/cgroup''" "''../../etc''"] unfolding e by simp
qed

section \<open>Labels\<close>

text \<open>The labels that carry annotations: one \<open>key=value\<close> per annotation, then the bundle.\<close>

definition annotationLabels :: "(string \<times> string) list \<Rightarrow> string \<Rightarrow> string list" where
  "annotationLabels kvs bundle = map (\<lambda>(k, v). k @ ''='' @ v) kvs @ [''bundle='' @ bundle]"

lemma annotationStep_pair:
  "CHR ''='' \<notin> set k \<Longrightarrow> annotationStep s (k @ CHR ''='' # v) = (if k = ''bundle'' then (v, snd s) else (fst s, fmupd k v (snd s)))"
  by (simp add: annotationStep_def SplitN2_sep)

lemma annotation_fold:
  assumes "\<forall>(k, v) \<in> set kvs. CHR ''='' \<notin> set k \<and> k \<noteq> ''bundle''"
  shows "foldl annotationStep s (map (\<lambda>(k, v). k @ ''='' @ v) kvs) = (fst s, fold (\<lambda>(k, v) m. fmupd k v m) kvs (snd s))"
  using assms
proof (induction kvs arbitrary: s)
  case (Cons kv kvs)
  obtain k v where kv: "kv = (k, v)" by fastforce
  with Cons.prems have "annotationStep s (k @ ''='' @ v) = (fst s, fmupd k v (snd s))"
    by (simp add: annotationStep_pair)
  with Cons kv show ?case by simp
qed simp

lemma fold_fmupd_lookup:
  "distinct (map fst kvs) \<Longrightarrow>
   fmlookup (fold (\<lambda>(k, v) m. fmupd k v m) kvs m) k = (case map_of kvs k of None \<Rightarrow> fmlookup m k | Some v \<Rightarrow> Some v)"
proof (induction kvs arbitrary: m)
  case (Cons kv kvs)
  obtain a b where kv: "kv = (a, b)" by fastforce
  have "map_of kvs a = None" using Cons.prems kv by (simp add: map_of_eq_None_iff)
  with Cons kv show ?case by (auto split: option.splits)
qed simp

lemma Annotations_labels:
  assumes "distinct (map fst kvs)" and "\<forall>(k, v) \<in> set kvs. CHR ''='' \<notin> set k \<and> k \<noteq> ''bundle''"
  shows "fst (Annotations (annotationLabels kvs bundle)) = bundle \<and>
    fmlookup (snd (Annotations (annotationLabels kvs bundle))) k = map_of kvs k"
proof -
  have "annotationStep s (''bundle'' @ CHR ''='' # bundle) = (bundle, snd s)" for s
    by (subst annotationStep_pair) simp_all
  then show ?thesis
    using annotation_fold [OF assms(2), of "([], fmempty)"] fold_fmupd_lookup [OF assms(1)]
    by (auto simp: Annotations_def annotationLabels_def split: option.splits)
qed

lemma SearchLabels_found:
  assumes "distinct (map fst kvs)" and "\<forall>(k, v) \<in> set kvs. CHR ''='' \<notin> set k" and "(k, v) \<in> set kvs"
  shows "SearchLabels (map (\<lambda>(k, v). k @ ''='' @ v) kvs @ ls) k = v"
  using assms
proof (induction kvs)
  case (Cons kv kvs)
  obtain a b where kv: "kv = (a, b)" by fastforce
  with Cons.prems have s: "SplitN2 (CHR ''='') (a @ CHR ''='' # b) = [a, b]" by (intro SplitN2_sep) simp
  show ?case
  proof (cases "a = k")
    case True
    with Cons.prems kv have "b = v" by (auto simp: image_iff)
    with True kv s show ?thesis by simp
  next
    case False
    with Cons kv s show ?thesis by auto
  qed
qed simp

section \<open>Exit statuses\<close>

lemma uint_small: "n < 2 ^ 32 \<Longrightarrow> uint (word_of_nat n :: 32 word) = int n"
  by (simp add: unsigned_of_nat take_bit_nat_eq_self)

lemma ExitStatus_code: "uint w = 256 * c \<Longrightarrow> 0 \<le> c \<Longrightarrow> c < 256 \<Longrightarrow> ExitStatus w = c"
  by (simp add: ExitStatus_def Signaled_def WaitExitStatus_def)

lemma ExitStatus_signal: "uint w mod 128 = s \<Longrightarrow> 0 < s \<Longrightarrow> s < 65 \<Longrightarrow> ExitStatus w = 128 + s"
  by (simp add: ExitStatus_def Signaled_def WaitSignal_def exitSignalOffset_def)

text \<open>
  The status of a process that exited is its exit code, and that of a process killed by a signal
  is 128 plus the signal number, with or without a core dump.
\<close>

theorem ExitStatus_exact:
  "(c < 256 \<longrightarrow> ExitStatus (word_of_nat (256 * c)) = int c) \<and>
   (0 < s \<and> s < 65 \<longrightarrow> ExitStatus (word_of_nat s) = 128 + int s \<and> ExitStatus (word_of_nat (s + 128)) = 128 + int s)"
proof (intro conjI impI)
  assume "c < 256"
  then show "ExitStatus (word_of_nat (256 * c)) = int c"
    by (intro ExitStatus_code) (subst uint_small, simp_all)
next
  assume s: "0 < s \<and> s < 65"
  have "uint (word_of_nat s :: 32 word) mod 128 = int s" "uint (word_of_nat (s + 128) :: 32 word) mod 128 = int s"
    using s by (subst uint_small, simp, simp)+
  with s show "ExitStatus (word_of_nat s) = 128 + int s" "ExitStatus (word_of_nat (s + 128)) = 128 + int s"
    by (intro ExitStatus_signal; linarith)+
qed

theorem ExitStatus_exact_witness:
  "ExitStatus (word_of_nat (256 * 3)) = 3 \<and> ExitStatus (word_of_nat 9) = 137"
  using ExitStatus_exact [of 3 9] by linarith

section \<open>Cgroup values\<close>

lemma unat_CPU:
  assumes "2 \<le> x" "x \<le> 262144"
  shows "unat (ConvertCPUSharesToCgroupV2Value (word_of_nat x)) = 1 + (x - 2) * 9999 div 262142"
proof -
  define w where "w = (word_of_nat x :: 64 word)"
  have w: "unat w = x" using assms by (simp add: w_def unat_of_nat)
  have ne: "w \<noteq> 0" using w assms by auto
  have s: "unat (w - 2) = x - 2" using assms w by (simp add: unat_sub word_le_nat_alt)
  define y where "y = (w - 2) * 9999"
  have m: "unat y = (x - 2) * 9999" unfolding y_def using assms s by (subst unat_mult_lem [THEN iffD1]) simp_all
  have d: "unat (y div 262142) = (x - 2) * 9999 div 262142" by (simp add: unat_div m)
  have "(x - 2) * 9999 \<le> 262142 * 9999" using assms(2) by simp
  then have "(x - 2) * 9999 div 262142 \<le> 9999" using div_le_mono [of "(x - 2) * 9999" "262142 * 9999" 262142] by simp
  then have "unat (1 + y div 262142) = 1 + (x - 2) * 9999 div 262142"
    using d by (subst unat_add_lem [THEN iffD1]) simp_all
  with ne show ?thesis by (simp add: ConvertCPUSharesToCgroupV2Value_def y_def w_def [symmetric])
qed

text \<open>
  CPU shares from 2 to 262144 become a weight from 1 to 10000, with both ends reached and the order
  kept: the 64-bit arithmetic does not wrap around in this range.
\<close>

theorem ConvertCPUShares_range:
  assumes "2 \<le> x" and "x \<le> y" and "y \<le> 262144"
  shows "1 \<le> unat (ConvertCPUSharesToCgroupV2Value (word_of_nat x)) \<and>
    unat (ConvertCPUSharesToCgroupV2Value (word_of_nat x)) \<le> unat (ConvertCPUSharesToCgroupV2Value (word_of_nat y)) \<and>
    unat (ConvertCPUSharesToCgroupV2Value (word_of_nat y)) \<le> 10000 \<and>
    unat (ConvertCPUSharesToCgroupV2Value (word_of_nat 2)) = 1 \<and>
    unat (ConvertCPUSharesToCgroupV2Value (word_of_nat 262144)) = 10000"
proof -
  have x: "unat (ConvertCPUSharesToCgroupV2Value (word_of_nat x)) = 1 + (x - 2) * 9999 div 262142"
    and y: "unat (ConvertCPUSharesToCgroupV2Value (word_of_nat y)) = 1 + (y - 2) * 9999 div 262142"
    using assms by (intro unat_CPU; simp)+
  have lo: "unat (ConvertCPUSharesToCgroupV2Value (word_of_nat 2)) = 1"
    and hi: "unat (ConvertCPUSharesToCgroupV2Value (word_of_nat 262144)) = 10000"
    using unat_CPU [of 2] unat_CPU [of 262144] by (simp_all del: of_nat_numeral)
  have "(x - 2) * 9999 div 262142 \<le> (y - 2) * 9999 div 262142" using assms by (intro div_le_mono) simp
  moreover have "(y - 2) * 9999 div 262142 \<le> 9999"
    using assms div_le_mono [of "(y - 2) * 9999" "262142 * 9999" 262142] by simp
  ultimately show ?thesis unfolding x y lo hi by simp
qed

theorem ConvertCPUShares_range_witness:
  "unat (ConvertCPUSharesToCgroupV2Value (word_of_nat 1024)) \<le> 10000"
  using ConvertCPUShares_range [of 2 1024] by (simp del: of_nat_numeral)

text \<open>
  One CPU share, which the specification allows, wraps around below zero: the weight is far above
  the largest one the kernel accepts.  The same happens to block weights below 10.
\<close>

theorem Convert_wraps_below_range:
  "ConvertCPUSharesToCgroupV2Value 1 = 70369281052672 \<and> ConvertBlkIOToIOWeightValue 9 = 18633074821928830"
  by code_simp

end
