(* ===== verification/Container_State.thy ===== *)
theory Container_State
  imports Proc Configs Runc_Utils
begin

text \<open>
  The state machine of a container: \<open>libcontainer/state_linux.go\<close> and the operations of \<open>container_linux.go\<close> that use it.  A
  container object remembers the state it last saw; the true state is what the freezer and \<open>/proc\<close> say.  The cgroup and
  resource managers, signals and hooks are parameters that act on a state of the host.  Every operation holds
  the lock of the container, so operations are steps that follow one another.  The hooks of a configuration
  are never nil, as \<open>specconv\<close> makes them.
\<close>

section \<open>States\<close>

datatype Status = Created | Running | Pausing | Paused | Stopped

definition Status_String :: "Status \<Rightarrow> string" where
  "Status_String s = (case s of Created \<Rightarrow> ''created'' | Running \<Rightarrow> ''running'' | Pausing \<Rightarrow> ''pausing'' | Paused \<Rightarrow> ''paused''
     | Stopped \<Rightarrow> ''stopped'')"

text \<open>A restored state carries the directory of its image, a loaded state the status it was given.\<close>

datatype containerState = StoppedState | RunningState | CreatedState | PausedState | RestoredState string | LoadedState Status

definition state_status :: "containerState \<Rightarrow> Status" where
  "state_status s = (case s of StoppedState \<Rightarrow> Stopped | RunningState \<Rightarrow> Running | CreatedState \<Rightarrow> Created | PausedState \<Rightarrow> Paused
     | RestoredState _ \<Rightarrow> Running | LoadedState st \<Rightarrow> st)"

datatype ct_error =
    StateTransition string string
  | ErrRunning
  | ErrPaused
  | ErrNotRunning
  | ErrNotPaused
  | CtManager string
  | CtSignal string
  | CtHook string
  | CtOs errno
  | CtNilPanic

datatype FreezerState = Undefined | Frozen | Thawed

record InitProcess =
  IpPid :: int
  IpStartTime :: nat

record 'v LinuxContainer =
  CtID :: string
  CtRoot :: string
  CtConfig :: "'v Config"
  CtInit :: "InitProcess option"
  CtInitStartTime :: nat
  CtState :: containerState

record OciState =
  OsVersion :: string
  OsID :: string
  OsStatus :: string
  OsPid :: int
  OsBundle :: string
  OsAnnotations :: "(string, string) fmap"

text \<open>The interface \<open>cgroups.Manager\<close>, as far as it is used here.\<close>

record 'h Manager =
  GetFreezerState :: "'h \<Rightarrow> (string, FreezerState) result"
  Freeze :: "FreezerState \<Rightarrow> 'h \<Rightarrow> 'h \<times> string option"
  MgrDestroy :: "'h \<Rightarrow> 'h \<times> string option"
  MgrExists :: "'h \<Rightarrow> bool"
  GetAllPids :: "'h \<Rightarrow> (string, int list) result"
  MgrSet :: "Resources option \<Rightarrow> 'h \<Rightarrow> 'h \<times> string option"

record ('h, 'v) RdtManager =
  RdtDestroy :: "'h \<Rightarrow> 'h \<times> string option"
  RdtSet :: "'v Config \<Rightarrow> 'h \<Rightarrow> 'h \<times> string option"

text \<open>The rest of the host: files, signals, waiting for children, hooks, and writing the state file.\<close>

record ('h, 'v) Host =
  manager :: "'h Manager"
  rdtManager :: "('h, 'v) RdtManager option"
  hostFs :: "'h \<Rightarrow> fs"
  removeAll :: "string \<Rightarrow> 'h \<Rightarrow> 'h \<times> errno option"
  sendSignal :: "int \<Rightarrow> int \<Rightarrow> 'h \<Rightarrow> 'h \<times> string option"
  getSubreaper :: "'h \<Rightarrow> (string, int) result"
  isWaitable :: "'h \<Rightarrow> int \<Rightarrow> (string, bool) result"
  waitPid :: "int \<Rightarrow> 'h \<Rightarrow> 'h"
  runHooks :: "Command list \<Rightarrow> OciState \<Rightarrow> 'h \<Rightarrow> 'h \<times> string option"
  updateState :: "'v LinuxContainer \<Rightarrow> 'h \<Rightarrow> 'h \<times> string option"

definition SIGKILL :: int where "SIGKILL = 9"
definition execFifoFilename :: string where "execFifoFilename = ''exec.fifo''"

section \<open>The true state\<close>

definition runType :: "('h, 'v) Host \<Rightarrow> 'h \<Rightarrow> 'v LinuxContainer \<Rightarrow> Status" where
  "runType H h c = (case CtInit c of
       None \<Rightarrow> Stopped
     | Some p \<Rightarrow>
         (case procStat (hostFs H h) (IpPid p) of
            Inl _ \<Rightarrow> Stopped
          | Inr stat \<Rightarrow>
              if StStartTime stat \<noteq> CtInitStartTime c \<or> StState stat = ProcZombie \<or> StState stat = ProcDead then Stopped
              else if is_ok (Stat (hostFs H h) (JoinPath [CtRoot c, execFifoFilename])) then Created
              else Running))"

definition isPaused :: "('h, 'v) Host \<Rightarrow> 'h \<Rightarrow> (ct_error, bool) result" where
  "isPaused H h = (case GetFreezerState (manager H) h of Inl e \<Rightarrow> Inl (CtManager e) | Inr st \<Rightarrow> Inr (st = Frozen))"

section \<open>Transitions\<close>

definition transitionError :: "'v LinuxContainer \<Rightarrow> containerState \<Rightarrow> ct_error" where
  "transitionError c s = StateTransition (Status_String (state_status (CtState c))) (Status_String (state_status s))"

definition stopped_transition :: "containerState \<Rightarrow> 'v LinuxContainer \<Rightarrow> (ct_error, 'v LinuxContainer) result" where
  "stopped_transition s c = (case s of
       RunningState \<Rightarrow> Inr (c\<lparr>CtState := s\<rparr>)
     | RestoredState _ \<Rightarrow> Inr (c\<lparr>CtState := s\<rparr>)
     | StoppedState \<Rightarrow> Inr c
     | _ \<Rightarrow> Inl (transitionError c s))"

definition running_transition :: "('h, 'v) Host \<Rightarrow> 'h \<Rightarrow> containerState \<Rightarrow> 'v LinuxContainer \<Rightarrow> (ct_error, 'v LinuxContainer) result" where
  "running_transition H h s c = (case s of
       StoppedState \<Rightarrow> if runType H h c = Running then Inl ErrRunning else Inr (c\<lparr>CtState := s\<rparr>)
     | PausedState \<Rightarrow> Inr (c\<lparr>CtState := s\<rparr>)
     | RunningState \<Rightarrow> Inr c
     | _ \<Rightarrow> Inl (transitionError c s))"

definition created_transition :: "containerState \<Rightarrow> 'v LinuxContainer \<Rightarrow> (ct_error, 'v LinuxContainer) result" where
  "created_transition s c = (case s of
       RunningState \<Rightarrow> Inr (c\<lparr>CtState := s\<rparr>)
     | PausedState \<Rightarrow> Inr (c\<lparr>CtState := s\<rparr>)
     | StoppedState \<Rightarrow> Inr (c\<lparr>CtState := s\<rparr>)
     | CreatedState \<Rightarrow> Inr c
     | _ \<Rightarrow> Inl (transitionError c s))"

definition paused_transition :: "containerState \<Rightarrow> 'v LinuxContainer \<Rightarrow> (ct_error, 'v LinuxContainer) result" where
  "paused_transition s c = (case s of
       RunningState \<Rightarrow> Inr (c\<lparr>CtState := s\<rparr>)
     | StoppedState \<Rightarrow> Inr (c\<lparr>CtState := s\<rparr>)
     | PausedState \<Rightarrow> Inr c
     | _ \<Rightarrow> Inl (transitionError c s))"

definition restored_transition :: "containerState \<Rightarrow> 'v LinuxContainer \<Rightarrow> (ct_error, 'v LinuxContainer) result" where
  "restored_transition s c = (case s of
       StoppedState \<Rightarrow> Inr c
     | RunningState \<Rightarrow> Inr c
     | _ \<Rightarrow> Inl (transitionError c s))"

definition loaded_transition :: "containerState \<Rightarrow> 'v LinuxContainer \<Rightarrow> (ct_error, 'v LinuxContainer) result" where
  "loaded_transition s c = Inr (c\<lparr>CtState := s\<rparr>)"

definition transition :: "('h, 'v) Host \<Rightarrow> 'h \<Rightarrow> containerState \<Rightarrow> 'v LinuxContainer \<Rightarrow> (ct_error, 'v LinuxContainer) result" where
  "transition H h s c = (case CtState c of
       StoppedState \<Rightarrow> stopped_transition s c
     | RunningState \<Rightarrow> running_transition H h s c
     | CreatedState \<Rightarrow> created_transition s c
     | PausedState \<Rightarrow> paused_transition s c
     | RestoredState _ \<Rightarrow> restored_transition s c
     | LoadedState _ \<Rightarrow> loaded_transition s c)"

lemmas transition_defs = transition_def stopped_transition_def running_transition_def created_transition_def paused_transition_def
  restored_transition_def loaded_transition_def

definition refreshState :: "('h, 'v) Host \<Rightarrow> 'h \<Rightarrow> 'v LinuxContainer \<Rightarrow> (ct_error, 'v LinuxContainer) result" where
  "refreshState H h c =
     rbind (isPaused H h) (\<lambda>paused.
       if paused then transition H h PausedState c
       else (case runType H h c of
               Created \<Rightarrow> transition H h CreatedState c
             | Running \<Rightarrow> transition H h RunningState c
             | _ \<Rightarrow> transition H h StoppedState c))"

text \<open>The status, and the container with its refreshed state.\<close>

definition currentStatus :: "('h, 'v) Host \<Rightarrow> 'h \<Rightarrow> 'v LinuxContainer \<Rightarrow> (ct_error, Status \<times> 'v LinuxContainer) result" where
  "currentStatus H h c = rbind (refreshState H h c) (\<lambda>c'. Inr (state_status (CtState c'), c'))"

definition currentOCIState :: "('h, 'v) Host \<Rightarrow> 'h \<Rightarrow> 'v LinuxContainer \<Rightarrow> (ct_error, OciState \<times> 'v LinuxContainer) result" where
  "currentOCIState H h c =
     (let (bundle, annotations) = Annotations (CfLabels (CtConfig c))
      in rbind (currentStatus H h c) (\<lambda>(status, c').
           Inr (\<lparr>OsVersion = ''1.0.2-dev'', OsID = CtID c, OsStatus = Status_String status,
                 OsPid = (if status \<noteq> Stopped then (case CtInit c' of None \<Rightarrow> 0 | Some p \<Rightarrow> IpPid p) else 0),
                 OsBundle = bundle, OsAnnotations = annotations\<rparr>, c')))"

section \<open>Signals\<close>

text \<open>Waiting for one of the signalled processes; a process that was not killed is only waited for when it has exited.\<close>

definition waitOne :: "('h, 'v) Host \<Rightarrow> int \<Rightarrow> int \<Rightarrow> 'h \<Rightarrow> int \<Rightarrow> 'h" where
  "waitOne H sig subreaper h pid =
     (if sig \<noteq> SIGKILL \<and> isWaitable H h pid \<noteq> Inr True then h
      else if subreaper = 0 then waitPid H pid h else h)"

definition signalAllProcesses :: "('h, 'v) Host \<Rightarrow> int \<Rightarrow> 'h \<Rightarrow> 'h \<times> ct_error option" where
  "signalAllProcesses H sig h =
     (let h1 = fst (Freeze (manager H) Frozen h)
      in case GetAllPids (manager H) h1 of
           Inl e \<Rightarrow> (fst (Freeze (manager H) Thawed h1), Some (CtManager e))
         | Inr pids \<Rightarrow>
             (let h2 = foldl (\<lambda>h pid. fst (sendSignal H pid sig h)) h1 pids;
                  h3 = fst (Freeze (manager H) Thawed h2);
                  subreaper = (case getSubreaper H h3 of Inl _ \<Rightarrow> 0 | Inr i \<Rightarrow> i)
              in (foldl (waitOne H sig subreaper) h3 pids, None)))"

section \<open>Destroying\<close>

definition runPoststopHooks :: "('h, 'v) Host \<Rightarrow> 'v LinuxContainer \<Rightarrow> 'h \<Rightarrow> 'h \<times> 'v LinuxContainer \<times> ct_error option" where
  "runPoststopHooks H c h = (case currentOCIState H h c of
       Inl e \<Rightarrow> (h, c, Some e)
     | Inr (s, c') \<Rightarrow>
         (case runHooks H (fmget [] (CfHooks (CtConfig c')) ''poststop'') (s\<lparr>OsStatus := ''stopped''\<rparr>) h of
            (h', e) \<Rightarrow> (h', c', map_option CtHook e)))"

definition orErr :: "'e option \<Rightarrow> 'e option \<Rightarrow> 'e option" where
  "orErr err new = (case err of None \<Rightarrow> new | Some e \<Rightarrow> Some e)"

definition destroy :: "('h, 'v) Host \<Rightarrow> 'v LinuxContainer \<Rightarrow> 'h \<Rightarrow> 'h \<times> 'v LinuxContainer \<times> ct_error option" where
  "destroy H c h =
     (let ns = CfNamespaces (CtConfig c);
          h1 = (if \<not> nsContains NEWPID ns \<or> PathOf NEWPID ns \<noteq> [] then fst (signalAllProcesses H SIGKILL h) else h);
          (h2, err) = MgrDestroy (manager H) h1;
          (h3, ierr) = (case rdtManager H of None \<Rightarrow> (h2, None) | Some r \<Rightarrow> RdtDestroy r h2);
          (h4, rerr) = removeAll H (CtRoot c) h3;
          c1 = c\<lparr>CtInit := None\<rparr>;
          (h5, c2, herr) = runPoststopHooks H c1 h4
      in (h5, c2\<lparr>CtState := StoppedState\<rparr>,
          orErr (orErr (orErr (map_option CtManager err) (map_option CtManager ierr)) (map_option CtOs rerr)) herr))"

definition running_destroy :: "('h, 'v) Host \<Rightarrow> 'v LinuxContainer \<Rightarrow> 'h \<Rightarrow> 'h \<times> 'v LinuxContainer \<times> ct_error option" where
  "running_destroy H c h = (if runType H h c = Running then (h, c, Some ErrRunning) else destroy H c h)"

definition created_destroy :: "('h, 'v) Host \<Rightarrow> 'v LinuxContainer \<Rightarrow> 'h \<Rightarrow> 'h \<times> 'v LinuxContainer \<times> ct_error option" where
  "created_destroy H c h = (case CtInit c of
       None \<Rightarrow> (h, c, Some CtNilPanic)
     | Some p \<Rightarrow> destroy H c (fst (sendSignal H (IpPid p) SIGKILL h)))"

definition paused_destroy :: "('h, 'v) Host \<Rightarrow> 'v LinuxContainer \<Rightarrow> 'h \<Rightarrow> 'h \<times> 'v LinuxContainer \<times> ct_error option" where
  "paused_destroy H c h =
     (let t = runType H h c
      in if t \<noteq> Running \<and> t \<noteq> Created
         then (case Freeze (manager H) Thawed h of
                 (h1, Some e) \<Rightarrow> (h1, c, Some (CtManager e))
               | (h1, None) \<Rightarrow> destroy H c h1)
         else (h, c, Some ErrPaused))"

definition restored_destroy :: "('h, 'v) Host \<Rightarrow> 'v LinuxContainer \<Rightarrow> 'h \<Rightarrow> 'h \<times> 'v LinuxContainer \<times> ct_error option" where
  "restored_destroy H c h = (case Stat (hostFs H h) (JoinPath [CtRoot c, ''checkpoint'']) of
       Inl e \<Rightarrow> if e = ENOENT then destroy H c h else (h, c, Some (CtOs e))
     | Inr _ \<Rightarrow> destroy H c h)"

text \<open>The method of every state but the loaded one, which refreshes the state first.\<close>

definition destroyState :: "('h, 'v) Host \<Rightarrow> 'v LinuxContainer \<Rightarrow> 'h \<Rightarrow> 'h \<times> 'v LinuxContainer \<times> ct_error option" where
  "destroyState H c h = (case CtState c of
       StoppedState \<Rightarrow> destroy H c h
     | RunningState \<Rightarrow> running_destroy H c h
     | CreatedState \<Rightarrow> created_destroy H c h
     | PausedState \<Rightarrow> paused_destroy H c h
     | RestoredState _ \<Rightarrow> restored_destroy H c h
     | LoadedState _ \<Rightarrow> (h, c, None))"

lemmas destroyState_defs = destroyState_def running_destroy_def created_destroy_def paused_destroy_def restored_destroy_def

definition Destroy :: "('h, 'v) Host \<Rightarrow> 'v LinuxContainer \<Rightarrow> 'h \<Rightarrow> 'h \<times> 'v LinuxContainer \<times> ct_error option" where
  "Destroy H c h = (case CtState c of
       LoadedState _ \<Rightarrow>
         (case refreshState H h c of Inl e \<Rightarrow> (h, c, Some e) | Inr c' \<Rightarrow> destroyState H c' h)
     | _ \<Rightarrow> destroyState H c h)"

section \<open>Operations\<close>

definition StatusOp :: "('h, 'v) Host \<Rightarrow> 'h \<Rightarrow> 'v LinuxContainer \<Rightarrow> 'v LinuxContainer \<times> (ct_error, Status) result" where
  "StatusOp H h c = (case currentStatus H h c of Inl e \<Rightarrow> (c, Inl e) | Inr (st, c') \<Rightarrow> (c', Inr st))"

definition Pause :: "('h, 'v) Host \<Rightarrow> 'v LinuxContainer \<Rightarrow> 'h \<Rightarrow> 'h \<times> 'v LinuxContainer \<times> ct_error option" where
  "Pause H c h = (case currentStatus H h c of
       Inl e \<Rightarrow> (h, c, Some e)
     | Inr (status, c1) \<Rightarrow>
         if status = Running \<or> status = Created
         then (case Freeze (manager H) Frozen h of
                 (h1, Some e) \<Rightarrow> (h1, c1, Some (CtManager e))
               | (h1, None) \<Rightarrow> (case transition H h1 PausedState c1 of Inl e \<Rightarrow> (h1, c1, Some e) | Inr c2 \<Rightarrow> (h1, c2, None)))
         else (h, c1, Some ErrNotRunning))"

definition Resume :: "('h, 'v) Host \<Rightarrow> 'v LinuxContainer \<Rightarrow> 'h \<Rightarrow> 'h \<times> 'v LinuxContainer \<times> ct_error option" where
  "Resume H c h = (case currentStatus H h c of
       Inl e \<Rightarrow> (h, c, Some e)
     | Inr (status, c1) \<Rightarrow>
         if status \<noteq> Paused then (h, c1, Some ErrNotPaused)
         else (case Freeze (manager H) Thawed h of
                 (h1, Some e) \<Rightarrow> (h1, c1, Some (CtManager e))
               | (h1, None) \<Rightarrow> (case transition H h1 RunningState c1 of Inl e \<Rightarrow> (h1, c1, Some e) | Inr c2 \<Rightarrow> (h1, c2, None))))"

definition Signal :: "('h, 'v) Host \<Rightarrow> int \<Rightarrow> bool \<Rightarrow> 'v LinuxContainer \<Rightarrow> 'h \<Rightarrow> 'h \<times> 'v LinuxContainer \<times> ct_error option" where
  "Signal H sig allProcs c h = (case currentStatus H h c of
       Inl e \<Rightarrow> (h, c, Some e)
     | Inr (status, c1) \<Rightarrow>
         if allProcs
         then if status = Stopped \<and> \<not> MgrExists (manager H) h then (h, c1, None)
              else (case signalAllProcesses H sig h of (h1, e) \<Rightarrow> (h1, c1, e))
         else if status = Running \<or> status = Created \<or> status = Paused
         then (case CtInit c1 of
                 None \<Rightarrow> (h, c1, Some CtNilPanic)
               | Some p \<Rightarrow>
                   (case sendSignal H (IpPid p) sig h of
                      (h1, Some e) \<Rightarrow> (h1, c1, Some (CtSignal e))
                    | (h1, None) \<Rightarrow>
                        if status = Paused \<and> sig = SIGKILL then (fst (Freeze (manager H) Thawed h1), c1, None) else (h1, c1, None)))
         else (h, c1, Some ErrNotRunning))"

definition Processes :: "('h, 'v) Host \<Rightarrow> 'h \<Rightarrow> 'v LinuxContainer \<Rightarrow> 'v LinuxContainer \<times> (ct_error, int list) result" where
  "Processes H h c = (case currentStatus H h c of
       Inl e \<Rightarrow> (c, Inl e)
     | Inr (status, c1) \<Rightarrow>
         if status = Stopped \<and> \<not> MgrExists (manager H) h then (c1, Inr [])
         else (c1, case GetAllPids (manager H) h of Inl e \<Rightarrow> Inl (CtManager e) | Inr pids \<Rightarrow> Inr pids))"

definition resourcesIn :: "'v Config \<Rightarrow> Resources option" where
  "resourcesIn config = Option.bind (CfCgroups config) CgResources"

definition SetConfig :: "('h, 'v) Host \<Rightarrow> 'v Config \<Rightarrow> 'v LinuxContainer \<Rightarrow> 'h \<Rightarrow> 'h \<times> 'v LinuxContainer \<times> ct_error option" where
  "SetConfig H config c h = (case currentStatus H h c of
       Inl e \<Rightarrow> (h, c, Some e)
     | Inr (status, c1) \<Rightarrow>
         if status = Stopped then (h, c1, Some ErrNotRunning)
         else (case MgrSet (manager H) (resourcesIn config) h of
                 (h1, Some e) \<Rightarrow> (fst (MgrSet (manager H) (resourcesIn (CtConfig c1)) h1), c1, Some (CtManager e))
               | (h1, None) \<Rightarrow>
                   (let finish = (\<lambda>h. let c2 = c1\<lparr>CtConfig := config\<rparr>
                                       in case updateState H c2 h of (h', e) \<Rightarrow> (h', c2, map_option CtManager e))
                    in case rdtManager H of
                         None \<Rightarrow> finish h1
                       | Some r \<Rightarrow>
                           (case RdtSet r config h1 of
                              (h2, Some e) \<Rightarrow>
                                (fst (RdtSet r (CtConfig c1) (fst (MgrSet (manager H) (resourcesIn (CtConfig c1)) h2))), c1, Some (CtManager e))
                            | (h2, None) \<Rightarrow> finish h2))))"

section \<open>Reading the status\<close>

lemma runType_state [simp]:
  "runType H h (c\<lparr>CtState := s\<rparr>) = runType H h c" "runType H h (c\<lparr>CtConfig := cfg\<rparr>) = runType H h c"
  by (simp_all add: runType_def split: option.split sum.split)

lemma runType_cases: "runType H h c \<in> {Created, Running, Stopped}"
  by (simp add: runType_def split: option.split sum.split)

definition trueStatus :: "('h, 'v) Host \<Rightarrow> 'h \<Rightarrow> 'v LinuxContainer \<Rightarrow> Status" where
  "trueStatus H h c = (if GetFreezerState (manager H) h = Inr Frozen then Paused else runType H h c)"

definition stateFor :: "Status \<Rightarrow> containerState" where
  "stateFor st = (case st of Created \<Rightarrow> CreatedState | Running \<Rightarrow> RunningState | Paused \<Rightarrow> PausedState | _ \<Rightarrow> StoppedState)"

text \<open>The changes that the state machine does not accept.\<close>

definition illegal :: "containerState \<Rightarrow> Status \<Rightarrow> bool" where
  "illegal s t \<longleftrightarrow> s = StoppedState \<and> t \<in> {Paused, Created} \<or> s \<in> {RunningState, PausedState} \<and> t = Created"

definition restored :: "'v LinuxContainer \<Rightarrow> bool" where
  "restored c \<longleftrightarrow> (\<exists>dir. CtState c = RestoredState dir)"

lemma trueStatus_cases: "trueStatus H h c \<in> {Created, Running, Paused, Stopped}"
  using runType_cases [of H h c] by (auto simp: trueStatus_def)

lemma transition_true:
  assumes "\<not> restored c" and "t = trueStatus H h c"
  shows "transition H h (stateFor t) c =
    (if illegal (CtState c) t then Inl (transitionError c (stateFor t)) else Inr (c\<lparr>CtState := stateFor t\<rparr>))"
proof -
  have run: "t = Stopped \<Longrightarrow> runType H h c \<noteq> Running" using assms(2) by (auto simp: trueStatus_def split: if_splits)
  have same: "c\<lparr>CtState := CtState c\<rparr> = c" by simp
  have "t \<in> {Created, Running, Paused, Stopped}" using assms(2) trueStatus_cases by simp
  then show ?thesis using assms(1) run same
    by (cases "CtState c") (auto simp: transition_defs illegal_def stateFor_def restored_def)
qed

lemma refreshState_true:
  assumes "GetFreezerState (manager H) h = Inr f" and "\<not> restored c"
  shows "refreshState H h c = (if illegal (CtState c) (trueStatus H h c) then Inl (transitionError c (stateFor (trueStatus H h c)))
    else Inr (c\<lparr>CtState := stateFor (trueStatus H h c)\<rparr>))"
proof -
  have "refreshState H h c = transition H h (stateFor (trueStatus H h c)) c"
    using assms(1) runType_cases [of H h c] by (auto simp: refreshState_def isPaused_def trueStatus_def stateFor_def)
  then show ?thesis using transition_true [OF assms(2) refl, of H h] by simp
qed


lemma currentStatus_ok:
  assumes "currentStatus H h c = Inr (st, c')" and "\<not> restored c"
  shows "st = trueStatus H h c \<and> c' = c\<lparr>CtState := stateFor st\<rparr>"
proof -
  obtain f where f: "GetFreezerState (manager H) h = Inr f"
    using assms(1) by (cases "GetFreezerState (manager H) h") (auto simp: currentStatus_def refreshState_def isPaused_def)
  have "state_status (stateFor (trueStatus H h c)) = trueStatus H h c"
    using trueStatus_cases [of H h c] by (auto simp: stateFor_def state_status_def)
  then show ?thesis using assms(1) refreshState_true [OF f assms(2)] by (auto simp: currentStatus_def split: if_splits)
qed

section \<open>Steps\<close>

definition alive :: "('h, 'v) Host \<Rightarrow> 'h \<Rightarrow> int \<Rightarrow> nat \<Rightarrow> bool" where
  "alive H h pid start = (case procStat (hostFs H h) pid of
       Inl _ \<Rightarrow> False
     | Inr st \<Rightarrow> StStartTime st = start \<and> StState st \<noteq> ProcZombie \<and> StState st \<noteq> ProcDead)"

text \<open>A process that has ended does not come back: its number may be used again, but with another start time.\<close>

definition deadKept :: "('h, 'v) Host \<Rightarrow> 'h \<Rightarrow> 'h \<Rightarrow> bool" where
  "deadKept H h h' \<longleftrightarrow> (\<forall>pid start. \<not> alive H h pid start \<longrightarrow> \<not> alive H h' pid start)"

definition hostOK :: "('h, 'v) Host \<Rightarrow> bool" where
  "hostOK H \<longleftrightarrow>
     (\<forall>h st. deadKept H h (fst (Freeze (manager H) st h))) \<and> (\<forall>h. deadKept H h (fst (MgrDestroy (manager H) h))) \<and>
     (\<forall>h r. deadKept H h (fst (MgrSet (manager H) r h))) \<and>
     (\<forall>h m. rdtManager H = Some m \<longrightarrow> deadKept H h (fst (RdtDestroy m h)) \<and> (\<forall>cfg. deadKept H h (fst (RdtSet m cfg h)))) \<and>
     (\<forall>h d. deadKept H h (fst (removeAll H d h))) \<and> (\<forall>h p s. deadKept H h (fst (sendSignal H p s h))) \<and>
     (\<forall>h p. deadKept H h (waitPid H p h)) \<and> (\<forall>h hs s. deadKept H h (fst (runHooks H hs s h))) \<and>
     (\<forall>h c. deadKept H h (fst (updateState H c h)))"

text \<open>
  What can happen to a container object and its host: any operation, the start of its first process
  (\<open>process_linux.go\<close>), and anything that other processes do.
\<close>

inductive ctStep :: "('h, 'v) Host \<Rightarrow> 'v LinuxContainer \<times> 'h \<Rightarrow> 'v LinuxContainer \<times> 'h \<Rightarrow> bool" for H where
  host: "deadKept H h h' \<Longrightarrow> ctStep H (c, h) (c, h')"
| start: "deadKept H h h' \<Longrightarrow> ctStep H (c, h) (c\<lparr>CtInit := Some p, CtInitStartTime := t, CtState := CreatedState\<rparr>, h')"
| status: "StatusOp H h c = (c', r) \<Longrightarrow> ctStep H (c, h) (c', h)"
| processes: "Processes H h c = (c', ps) \<Longrightarrow> ctStep H (c, h) (c', h)"
| pause: "Pause H c h = (h', c', r) \<Longrightarrow> ctStep H (c, h) (c', h')"
| resume: "Resume H c h = (h', c', r) \<Longrightarrow> ctStep H (c, h) (c', h')"
| signal: "Signal H sig allProcs c h = (h', c', r) \<Longrightarrow> ctStep H (c, h) (c', h')"
| setConfig: "SetConfig H cfg c h = (h', c', r) \<Longrightarrow> ctStep H (c, h) (c', h')"
| destroy: "Destroy H c h = (h', c', r) \<Longrightarrow> ctStep H (c, h) (c', h')"

inductive_cases ctStepE: "ctStep H (c, h) (c', h')"

text \<open>A container that is remembered as stopped has no live process, and none is remembered as restored.\<close>

definition ctInv :: "('h, 'v) Host \<Rightarrow> 'v LinuxContainer \<times> 'h \<Rightarrow> bool" where
  "ctInv H x = (case x of (c, h) \<Rightarrow> \<not> restored c \<and> (CtState c = StoppedState \<longrightarrow> runType H h c = Stopped))"

lemma runType_Stopped: "runType H h c = Stopped \<longleftrightarrow> (\<forall>p. CtInit c = Some p \<longrightarrow> \<not> alive H h (IpPid p) (CtInitStartTime c))"
  by (auto simp: runType_def alive_def split: option.splits sum.splits)

lemma deadKept_refl [simp]: "deadKept H h h"
  by (simp add: deadKept_def)

lemma deadKept_trans [trans]: "deadKept H a b \<Longrightarrow> deadKept H b c \<Longrightarrow> deadKept H a c"
  by (simp add: deadKept_def)

lemma deadKept_stopped: "deadKept H h h' \<Longrightarrow> runType H h c = Stopped \<Longrightarrow> runType H h' c = Stopped"
  by (auto simp: runType_Stopped deadKept_def)

lemma stateFor_simps [simp]: "stateFor Created = CreatedState" "stateFor Running = RunningState" "stateFor Paused = PausedState"
  "stateFor Stopped = StoppedState" "stateFor t \<noteq> RestoredState d"
  by (simp_all add: stateFor_def split: Status.split)

lemma ctInv_refreshed:
  assumes "currentStatus H h c = Inr (st, c')" and "ctInv H (c, h)"
  shows "ctInv H (c', h) \<and> st = trueStatus H h c \<and> CtState c' = stateFor st"
proof -
  from assms(2) have nr: "\<not> restored c" by (simp add: ctInv_def)
  note k = currentStatus_ok [OF assms(1) nr]
  have "stateFor st = StoppedState \<Longrightarrow> runType H h c = Stopped"
    using k trueStatus_cases [of H h c] by (auto simp: trueStatus_def stateFor_def split: if_splits Status.splits)
  with k show ?thesis by (auto simp: ctInv_def restored_def)
qed

lemma ctInv_host: "ctInv H (c, h) \<Longrightarrow> deadKept H h h' \<Longrightarrow> ctInv H (c, h')"
  by (auto simp: ctInv_def deadKept_stopped)

lemma hostOK_D:
  assumes "hostOK H"
  shows "deadKept H h (fst (Freeze (manager H) st h))" "deadKept H h (fst (MgrDestroy (manager H) h))"
    "deadKept H h (fst (MgrSet (manager H) r h))" "rdtManager H = Some m \<Longrightarrow> deadKept H h (fst (RdtDestroy m h))"
    "rdtManager H = Some m \<Longrightarrow> deadKept H h (fst (RdtSet m cfg h))" "deadKept H h (fst (removeAll H d h))"
    "deadKept H h (fst (sendSignal H p s h))" "deadKept H h (waitPid H p h)" "deadKept H h (fst (runHooks H hs o1 h))"
    "deadKept H h (fst (updateState H c h))"
  using assms unfolding hostOK_def by blast+

lemma foldl_deadKept: "(\<And>h x. deadKept H h (f h x)) \<Longrightarrow> deadKept H h (foldl f h xs)"
proof (induction xs arbitrary: h)
  case (Cons x xs)
  then show ?case using deadKept_trans [of H h "f h x"] by simp
qed simp

lemma signalAllProcesses_deadKept:
  assumes "hostOK H"
  shows "deadKept H h (fst (signalAllProcesses H sig h))"
proof -
  let ?h1 = "fst (Freeze (manager H) Frozen h)"
  note D = hostOK_D [OF assms]
  show ?thesis
  proof (cases "GetAllPids (manager H) ?h1")
    case (Inl e)
    then show ?thesis using D(1) deadKept_trans by (fastforce simp: signalAllProcesses_def Let_def)
  next
    case (Inr pids)
    let ?h2 = "foldl (\<lambda>h pid. fst (sendSignal H pid sig h)) ?h1 pids"
    have w: "deadKept H h (waitOne H sig sub h p)" for sub h p using D(8) by (simp add: waitOne_def)
    have "deadKept H h ?h1" by (rule D(1))
    also have "deadKept H ?h1 ?h2" by (rule foldl_deadKept) (rule D(7))
    also have "deadKept H ?h2 (fst (Freeze (manager H) Thawed ?h2))" by (rule D(1))
    also have "deadKept H x (foldl (waitOne H sig sub) x pids)" for x sub by (rule foldl_deadKept) (rule w)
    finally show ?thesis using Inr by (simp add: signalAllProcesses_def Let_def)
  qed
qed

lemma runPoststopHooks_keeps:
  "runPoststopHooks H c h = (h', c', e) \<Longrightarrow> CtInit c = None \<Longrightarrow> CtInit c' = None"
proof -
  assume r: "runPoststopHooks H c h = (h', c', e)" and "CtInit c = None"
  have "CtInit d = CtInit c" if "refreshState H h c = Inr d" for d
    using that by (auto simp: refreshState_def isPaused_def transition_defs split: sum.splits if_splits Status.splits containerState.splits)
  with r \<open>CtInit c = None\<close> show ?thesis
    by (auto simp: runPoststopHooks_def currentOCIState_def currentStatus_def rbind_Inr_iff split: sum.splits prod.splits)
qed

lemma destroy_inv: "destroy H c h = (h', c', e) \<Longrightarrow> ctInv H (c', h')"
proof -
  assume d: "destroy H c h = (h', c', e)"
  then obtain h4 c2 herr where r: "runPoststopHooks H (c\<lparr>CtInit := None\<rparr>) h4 = (h', c2, herr)" and c': "c' = c2\<lparr>CtState := StoppedState\<rparr>"
    by (auto simp: destroy_def Let_def split: prod.splits)
  from runPoststopHooks_keeps [OF r] have "CtInit c2 = None" by simp
  then show ?thesis by (simp add: c' ctInv_def restored_def runType_Stopped)
qed

lemma destroyState_result:
  assumes "destroyState H c h = (h', c', e)"
  shows "(\<exists>h1 e'. destroy H c h1 = (h', c', e')) \<or> c' = c \<and> (h' = h \<or> h' = fst (Freeze (manager H) Thawed h))"
proof (cases "CtState c")
  case CreatedState
  with assms show ?thesis by (cases "CtInit c") (auto simp: destroyState_defs)
next
  case PausedState
  obtain h1 r where "Freeze (manager H) Thawed h = (h1, r)" by fastforce
  with PausedState assms show ?thesis by (cases r) (auto simp: destroyState_defs Let_def split: if_splits)
next
  case (RestoredState d)
  with assms show ?thesis by (auto simp: destroyState_defs split: sum.splits if_splits)
qed (use assms in \<open>auto simp: destroyState_defs split: if_splits\<close>)

lemma destroyState_inv:
  assumes "destroyState H c h = (h', c', e)" and "ctInv H (c, h)" and "hostOK H"
  shows "ctInv H (c', h')"
  using destroyState_result [OF assms(1)]
proof
  assume "\<exists>h1 e'. destroy H c h1 = (h', c', e')"
  then obtain h1 e' where "destroy H c h1 = (h', c', e')" by blast
  then show ?thesis by (rule destroy_inv)
next
  assume "c' = c \<and> (h' = h \<or> h' = fst (Freeze (manager H) Thawed h))"
  then show ?thesis using assms(2) ctInv_host [OF assms(2) hostOK_D(1) [OF assms(3)]] by auto
qed

lemma Destroy_inv:
  assumes d: "Destroy H c h = (h', c', e)" and i: "ctInv H (c, h)" and ok: "hostOK H"
  shows "ctInv H (c', h')"
proof (cases "\<exists>st. CtState c = LoadedState st")
  case True
  show ?thesis
  proof (cases "refreshState H h c")
    case (Inl x)
    with True d i show ?thesis by (auto simp: Destroy_def)
  next
    case (Inr c1)
    then have "currentStatus H h c = Inr (state_status (CtState c1), c1)" by (simp add: currentStatus_def)
    from ctInv_refreshed [OF this i] have i1: "ctInv H (c1, h)" by simp
    have "destroyState H c1 h = (h', c', e)" using True d Inr by (auto simp: Destroy_def)
    from destroyState_inv [OF this i1 ok] show ?thesis .
  qed
next
  case False
  then have "destroyState H c h = (h', c', e)" using d by (auto simp: Destroy_def split: containerState.splits)
  then show ?thesis by (rule destroyState_inv [OF _ i ok])
qed

text \<open>Operations that refresh the state and then act on the host, keeping the refreshed container.\<close>

lemma ctInv_act:
  assumes "currentStatus H h c = Inr (st, c1)" and "ctInv H (c, h)" and "deadKept H h h'"
  shows "ctInv H (c1, h')"
  by (rule ctInv_host [OF conjunct1 [OF ctInv_refreshed [OF assms(1,2)]] assms(3)])

lemma Pause_inv:
  assumes p: "Pause H c h = (h', c', e)" and i: "ctInv H (c, h)" and ok: "hostOK H"
  shows "ctInv H (c', h')"
proof (cases "currentStatus H h c")
  case (Inl x)
  with p i show ?thesis by (simp add: Pause_def)
next
  case (Inr y)
  obtain st c1 where y: "y = (st, c1)" by fastforce
  obtain h1 r where f: "Freeze (manager H) Frozen h = (h1, r)" by fastforce
  have "deadKept H h h1" using hostOK_D(1) [OF ok] f by (metis fst_conv)
  note i1 = ctInv_act [OF Inr [unfolded y] i this] ctInv_act [OF Inr [unfolded y] i deadKept_refl]
  have "ctInv H (c2, h1)" if "transition H h1 PausedState c1 = Inr c2" for c2
    using that i1(1) by (auto simp: transition_defs ctInv_def restored_def split: containerState.splits)
  moreover have "c' = c1 \<and> h' = h \<or> c' = c1 \<and> h' = h1 \<or> transition H h1 PausedState c1 = Inr c' \<and> h' = h1"
    using p Inr y f by (cases r; cases "transition H h1 PausedState c1"; cases "st = Running \<or> st = Created") (simp_all add: Pause_def)
  ultimately show ?thesis using i1 by auto
qed

lemma Resume_inv:
  assumes p: "Resume H c h = (h', c', e)" and i: "ctInv H (c, h)" and ok: "hostOK H"
  shows "ctInv H (c', h')"
proof (cases "currentStatus H h c")
  case (Inl x)
  with p i show ?thesis by (simp add: Resume_def)
next
  case (Inr y)
  obtain st c1 where y: "y = (st, c1)" by fastforce
  obtain h1 r where f: "Freeze (manager H) Thawed h = (h1, r)" by fastforce
  have "deadKept H h h1" using hostOK_D(1) [OF ok] f by (metis fst_conv)
  note i1 = ctInv_act [OF Inr [unfolded y] i this] ctInv_act [OF Inr [unfolded y] i deadKept_refl]
  have "ctInv H (c2, h1)" if "transition H h1 RunningState c1 = Inr c2" for c2
    using that i1(1) by (auto simp: transition_defs ctInv_def restored_def split: containerState.splits)
  moreover have "c' = c1 \<and> h' = h \<or> c' = c1 \<and> h' = h1 \<or> transition H h1 RunningState c1 = Inr c' \<and> h' = h1"
    using p Inr y f by (cases r; cases "transition H h1 RunningState c1"; cases "st = Paused") (simp_all add: Resume_def)
  ultimately show ?thesis using i1 by auto
qed

lemma Signal_inv:
  assumes p: "Signal H sig a c h = (h', c', e)" and i: "ctInv H (c, h)" and ok: "hostOK H"
  shows "ctInv H (c', h')"
proof (cases "currentStatus H h c")
  case (Inl x)
  with p i show ?thesis by (simp add: Signal_def)
next
  case (Inr y)
  obtain st c1 where y: "y = (st, c1)" by fastforce
  note act = ctInv_act [OF Inr [unfolded y] i]
  have all: "ctInv H (c1, fst (signalAllProcesses H sig h))" by (rule act) (rule signalAllProcesses_deadKept [OF ok])
  have one: "ctInv H (c1, fst (sendSignal H pid sig h))" for pid by (rule act) (rule hostOK_D(7) [OF ok])
  have thaw: "ctInv H (c1, fst (Freeze (manager H) Thawed (fst (sendSignal H pid sig h))))" for pid
    by (rule act) (rule deadKept_trans [OF hostOK_D(7) [OF ok] hostOK_D(1) [OF ok]])
  show ?thesis
  proof (cases a)
    case True
    then have "c' = c1 \<and> (h' = h \<or> h' = fst (signalAllProcesses H sig h))"
      using p Inr y by (cases "signalAllProcesses H sig h") (auto simp: Signal_def split: if_splits)
    then show ?thesis using all act [OF deadKept_refl] by auto
  next
    case False
    show ?thesis
    proof (cases "(st = Running \<or> st = Created \<or> st = Paused) \<and> CtInit c1 \<noteq> None")
      case True
      then obtain ip where ip: "CtInit c1 = Some ip" by auto
      obtain h1 r where s: "sendSignal H (IpPid ip) sig h = (h1, r)" by fastforce
      have "c' = c1 \<and> (h' = h1 \<or> h' = fst (Freeze (manager H) Thawed h1))"
        using p Inr y s ip True \<open>\<not> a\<close> by (cases r) (auto simp: Signal_def split: if_splits)
      then show ?thesis using one [of "IpPid ip"] thaw [of "IpPid ip"] s by auto
    next
      case False
      with p Inr y \<open>\<not> a\<close> have "c' = c1 \<and> h' = h" by (auto simp: Signal_def split: if_splits)
      then show ?thesis using act [OF deadKept_refl] by auto
    qed
  qed
qed

lemma SetConfig_inv:
  assumes p: "SetConfig H cfg c h = (h', c', e)" and i: "ctInv H (c, h)" and ok: "hostOK H"
  shows "ctInv H (c', h')"
proof (cases "currentStatus H h c")
  case (Inl x)
  with p i show ?thesis by (simp add: SetConfig_def)
next
  case (Inr y)
  obtain st c1 where y: "y = (st, c1)" by fastforce
  note D = hostOK_D [OF ok] and act = ctInv_act [OF Inr [unfolded y] i]
  have cfg: "ctInv H (c1\<lparr>CtConfig := cfg\<rparr>, x)" if "ctInv H (c1, x)" for x
    using that by (simp add: ctInv_def restored_def)
  obtain h1 r1 where m: "MgrSet (manager H) (resourcesIn cfg) h = (h1, r1)" by fastforce
  have k1: "deadKept H h h1" using D(3) m by (metis fst_conv)
  show ?thesis
  proof (cases "st = Stopped \<or> r1 \<noteq> None")
    case True
    then have "c' = c1 \<and> (h' = h \<or> h' = fst (MgrSet (manager H) (resourcesIn (CtConfig c1)) h1))"
      using p Inr y m by (auto simp: SetConfig_def split: if_splits)
    then show ?thesis using act [OF deadKept_refl] act [OF deadKept_trans [OF k1 D(3)]] by auto
  next
    case False
    show ?thesis
    proof (cases "rdtManager H")
      case None
      with False p Inr y m have "c' = c1\<lparr>CtConfig := cfg\<rparr> \<and> h' = fst (updateState H (c1\<lparr>CtConfig := cfg\<rparr>) h1)"
        by (auto simp: SetConfig_def Let_def split: prod.splits)
      then show ?thesis using cfg act [OF deadKept_trans [OF k1 D(10)]] by auto
    next
      case (Some rdt)
      obtain h2 r2 where s: "RdtSet rdt cfg h1 = (h2, r2)" by fastforce
      have k2: "deadKept H h h2" using deadKept_trans [OF k1 D(5) [OF Some]] s by (metis fst_conv)
      have "c' = c1\<lparr>CtConfig := cfg\<rparr> \<and> h' = fst (updateState H (c1\<lparr>CtConfig := cfg\<rparr>) h2) \<or>
          c' = c1 \<and> h' = fst (RdtSet rdt (CtConfig c1) (fst (MgrSet (manager H) (resourcesIn (CtConfig c1)) h2)))"
        using False p Inr y m s Some by (cases r2) (auto simp: SetConfig_def Let_def split: prod.splits)
      then show ?thesis
        using cfg act [OF deadKept_trans [OF k2 D(10)]] act [OF deadKept_trans [OF deadKept_trans [OF k2 D(3)] D(5) [OF Some]]] by auto
    qed
  qed
qed

lemma ctStep_inv:
  assumes "ctStep H x y" and "ctInv H x" and "hostOK H"
  shows "ctInv H y"
  using assms
proof (induction rule: ctStep.induct)
  case (host h h' c)
  show ?case by (rule ctInv_host [OF host(2,1)])
next
  case (start h h' c p t)
  then show ?case by (simp add: ctInv_def restored_def)
next
  case (status h c c' r)
  then show ?case
  proof (cases "currentStatus H h c")
    case (Inr y)
    obtain st c1 where y: "y = (st, c1)" by fastforce
    from ctInv_refreshed [OF Inr [unfolded y] status.prems(1)] status.hyps Inr y show ?thesis by (simp add: StatusOp_def)
  qed (use status in \<open>simp add: StatusOp_def\<close>)
next
  case (processes h c c' ps)
  then show ?case
  proof (cases "currentStatus H h c")
    case (Inr y)
    obtain st c1 where y: "y = (st, c1)" by fastforce
    from ctInv_refreshed [OF Inr [unfolded y] processes.prems(1)] processes.hyps Inr y show ?thesis
      by (auto simp: Processes_def split: if_splits)
  qed (use processes in \<open>simp add: Processes_def\<close>)
next
  case (pause c h h' c' r)
  then show ?case by (rule Pause_inv)
next
  case (resume c h h' c' r)
  then show ?case by (rule Resume_inv)
next
  case (signal sig a c h h' c' r)
  then show ?case by (rule Signal_inv)
next
  case (setConfig cfg c h h' c' r)
  then show ?case by (rule SetConfig_inv)
next
  case (destroy c h h' c' r)
  then show ?case by (rule Destroy_inv)
qed

text \<open>A container object that was just made, or loaded from its state file.\<close>

definition freshContainer :: "'v LinuxContainer \<Rightarrow> bool" where
  "freshContainer c \<longleftrightarrow> CtState c = StoppedState \<and> CtInit c = None \<or> (\<exists>st. CtState c = LoadedState st)"

lemma reachable_inv:
  assumes "(ctStep H)\<^sup>*\<^sup>* (c0, h0) (c, h)" and "freshContainer c0" and "hostOK H"
  shows "ctInv H (c, h)"
  using assms(1)
proof (induction rule: rtranclp_induct)
  case base
  show ?case using assms(2) by (auto simp: freshContainer_def ctInv_def restored_def runType_Stopped)
next
  case (step y z)
  then show ?case using ctStep_inv [OF step(2,3) assms(3)] by simp
qed


section \<open>A small host\<close>

text \<open>A host of files and a freezer, on which every operation succeeds.\<close>

type_synonym demoHost = "fs \<times> FreezerState"

definition demoManager :: "demoHost Manager" where
  "demoManager = \<lparr>GetFreezerState = (\<lambda>h. Inr (snd h)), Freeze = (\<lambda>st h. ((fst h, st), None)), MgrDestroy = (\<lambda>h. (h, None)),
     MgrExists = (\<lambda>h. True), GetAllPids = (\<lambda>h. Inr [7]), MgrSet = (\<lambda>r h. (h, None))\<rparr>"

definition demoHost :: "(demoHost, unit) Host" where
  "demoHost = \<lparr>manager = demoManager, rdtManager = None, hostFs = fst, removeAll = (\<lambda>d h. (h, None)),
     sendSignal = (\<lambda>p s h. (h, None)), getSubreaper = (\<lambda>h. Inr 0), isWaitable = (\<lambda>h p. Inr True), waitPid = (\<lambda>p h. h),
     runHooks = (\<lambda>hs s h. (h, None)), updateState = (\<lambda>c h. (h, None))\<rparr>"

definition demoStat :: string where
  "demoStat = ''7 (init) S 1 7 7 0 -1 4194560 9 8 0 3 6 2 7 9 20 0 1 0 97 52965376 3920''"

text \<open>The process 7 runs; the container is only created while the named pipe exists.\<close>

definition demoProc :: fs where
  "demoProc = fmap_of_list [([''proc''], IDir 493), ([''proc'', ''7''], IDir 493), ([''proc'', ''7'', ''stat''], IFile 292 demoStat),
     ([''run''], IDir 493)]"

definition demoCreated :: fs where
  "demoCreated = fmupd [''run'', ''exec.fifo''] (IFile 402 []) demoProc"

definition demoContainer :: "containerState \<Rightarrow> unit LinuxContainer" where
  "demoContainer st = \<lparr>CtID = ''c1'', CtRoot = ''/run'', CtConfig = zeroConfig, CtInit = Some \<lparr>IpPid = 7, IpStartTime = 97\<rparr>,
     CtInitStartTime = 97, CtState = st\<rparr>"

lemma demo_stat: "parseStat demoStat = Inr \<lparr>StName = ''init'', StState = CHR ''S'', StStartTime = 97\<rparr>"
proof -
  have "dec 97 = ''97''" by code_simp
  then show ?thesis
    using parseStat_line [of "''7 ''" "CHR ''S''" "[''1'', ''7'', ''7'', ''0'', ''-1'', ''4194560'', ''9'', ''8'', ''0'', ''3'', ''6'', ''2'', ''7'', ''9'', ''20'', ''0'', ''1'', ''0'']"
        97 "''52965376 3920''" "''init''"] by (simp add: demoStat_def)
qed

lemma demo_runType: "runType demoHost (demoProc, f) (demoContainer s) = Running" "runType demoHost (demoCreated, f) (demoContainer s) = Created"
proof -
  have "ReadFile demoProc (JoinPath [''/proc'', Itoa 7, ''stat'']) = Inr demoStat"
    "ReadFile demoCreated (JoinPath [''/proc'', Itoa 7, ''stat'']) = Inr demoStat" by code_simp+
  then have "procStat demoProc 7 = Inr \<lparr>StName = ''init'', StState = CHR ''S'', StStartTime = 97\<rparr>"
    "procStat demoCreated 7 = Inr \<lparr>StName = ''init'', StState = CHR ''S'', StStartTime = 97\<rparr>"
    by (simp_all add: procStat_def demo_stat)
  moreover have "\<not> is_ok (Stat demoProc (JoinPath [''/run'', execFifoFilename]))" "is_ok (Stat demoCreated (JoinPath [''/run'', execFifoFilename]))"
    by code_simp+
  ultimately show "runType demoHost (demoProc, f) (demoContainer s) = Running" "runType demoHost (demoCreated, f) (demoContainer s) = Created"
    by (simp_all add: runType_def demoHost_def demoContainer_def ProcZombie_def ProcDead_def)
qed

lemma demoHost_ok: "hostOK demoHost"
  by (simp add: hostOK_def demoHost_def demoManager_def deadKept_def alive_def)


lemma demo_freezer: "GetFreezerState (manager demoHost) (fs, st) = Inr st"
  by (simp add: demoHost_def demoManager_def)

lemma demo_state [simp]: "CtState (demoContainer s) = s" "demoContainer s\<lparr>CtState := s'\<rparr> = demoContainer s'" "restored (demoContainer s) \<longleftrightarrow> (\<exists>d. s = RestoredState d)"
  by (simp_all add: demoContainer_def restored_def)

lemma demo_true: "trueStatus demoHost (demoCreated, Thawed) (demoContainer s) = Created" "trueStatus demoHost (demoCreated, Frozen) (demoContainer s) = Paused"
  "trueStatus demoHost (demoProc, Thawed) (demoContainer s) = Running"
  by (simp_all add: trueStatus_def demo_freezer demo_runType)


section \<open>Limits of the state machine\<close>

lemma demo_status:
  "\<not> illegal s (trueStatus demoHost (fs, f) (demoContainer s)) \<Longrightarrow> (\<And>d. s \<noteq> RestoredState d) \<Longrightarrow>
   currentStatus demoHost (fs, f) (demoContainer s) =
     Inr (trueStatus demoHost (fs, f) (demoContainer s), demoContainer (stateFor (trueStatus demoHost (fs, f) (demoContainer s))))"
proof -
  assume l: "\<not> illegal s (trueStatus demoHost (fs, f) (demoContainer s))" and "\<And>d. s \<noteq> RestoredState d"
  then have "\<not> restored (demoContainer s)" by simp
  moreover have "state_status (stateFor (trueStatus demoHost (fs, f) (demoContainer s))) = trueStatus demoHost (fs, f) (demoContainer s)"
    using trueStatus_cases [of demoHost "(fs, f)" "demoContainer s"] by (auto simp: stateFor_def state_status_def)
  ultimately show ?thesis using l refreshState_true [OF demo_freezer] by (simp add: currentStatus_def)
qed

text \<open>
  Pausing and resuming a container that was only created leaves its object unusable: it is remembered as
  running, and asking for its status fails as long as the container is not started.
\<close>

lemma resume_created_breaks_status:
  "Pause demoHost (demoContainer CreatedState) (demoCreated, Thawed) = ((demoCreated, Frozen), demoContainer PausedState, None)"
  "Resume demoHost (demoContainer PausedState) (demoCreated, Frozen) = ((demoCreated, Thawed), demoContainer RunningState, None)"
  "snd (StatusOp demoHost (demoCreated, Thawed) (demoContainer RunningState)) = Inl (StateTransition ''running'' ''created'')"
proof -
  have f: "Freeze (manager demoHost) st (fs, x) = ((fs, st), None)" for st fs x by (simp add: demoHost_def demoManager_def)
  show "Pause demoHost (demoContainer CreatedState) (demoCreated, Thawed) = ((demoCreated, Frozen), demoContainer PausedState, None)"
    using demo_status [of CreatedState demoCreated Thawed] by (simp add: Pause_def demo_true illegal_def f transition_defs)
  show "Resume demoHost (demoContainer PausedState) (demoCreated, Frozen) = ((demoCreated, Thawed), demoContainer RunningState, None)"
    using demo_status [of PausedState demoCreated Frozen] by (simp add: Resume_def demo_true illegal_def f transition_defs)
  have "refreshState demoHost (demoCreated, Thawed) (demoContainer RunningState) = Inl (StateTransition ''running'' ''created'')"
    using refreshState_true [OF demo_freezer, of "demoContainer RunningState" demoCreated Thawed]
    by (simp add: demo_true illegal_def transitionError_def state_status_def Status_String_def)
  then show "snd (StatusOp demoHost (demoCreated, Thawed) (demoContainer RunningState)) = Inl (StateTransition ''running'' ''created'')"
    by (simp add: StatusOp_def currentStatus_def)
qed

text \<open>A container that is remembered as created is killed and destroyed even when it runs by now.\<close>

lemma Destroy_created_running:
  "CtState c = CreatedState \<Longrightarrow> CtInit c = Some p \<Longrightarrow> Destroy H c h = destroy H c (fst (sendSignal H (IpPid p) SIGKILL h))"
  by (simp add: Destroy_def destroyState_defs)

text \<open>Pausing a container that was restored in this process freezes it and then reports an error.\<close>

lemma Pause_restored:
  "CtState c = RestoredState d \<Longrightarrow> isPaused H h = Inr False \<Longrightarrow> runType H h c = Running \<Longrightarrow> Freeze (manager H) Frozen h = (h1, None) \<Longrightarrow>
   Pause H c h = (h1, c, Some (StateTransition ''running'' ''paused''))"
  by (simp add: Pause_def currentStatus_def refreshState_def transition_defs transitionError_def state_status_def Status_String_def)

text \<open>A restored container is reported as running after its process has ended.\<close>

lemma Status_restored_stale:
  "CtState c = RestoredState d \<Longrightarrow> isPaused H h = Inr False \<Longrightarrow> runType H h c = Stopped \<Longrightarrow> snd (StatusOp H h c) = Inr Running"
  by (simp add: StatusOp_def currentStatus_def refreshState_def transition_defs state_status_def)

end
