(* ===== verification/Specconv_Mounts.thy ===== *)
theory Specconv_Mounts
  imports Configs Runc_Utils "HOL-Library.List_Lexorder" "HOL-Library.Char_ord"
begin

text \<open>
  The tables and mount options of \<open>libcontainer/specconv/spec_linux.go\<close>: the options of an OCI mount
  become mount flags, propagation flags, recursive attributes, extensions and the data string of the
  file system.  Flag values are those of the Linux system call interface.
\<close>

section \<open>Tables\<close>

definition namespaceMapping :: "(string \<times> NamespaceType) list" where
  "namespaceMapping = [(''pid'', NEWPID), (''network'', NEWNET), (''mount'', NEWNS), (''user'', NEWUSER), (''ipc'', NEWIPC),
     (''uts'', NEWUTS), (''cgroup'', NEWCGROUP)]"

definition MS_RDONLY :: "64 word" where "MS_RDONLY = 1"
definition MS_NOSUID :: "64 word" where "MS_NOSUID = 2"
definition MS_NODEV :: "64 word" where "MS_NODEV = 4"
definition MS_NOEXEC :: "64 word" where "MS_NOEXEC = 8"
definition MS_SYNCHRONOUS :: "64 word" where "MS_SYNCHRONOUS = 16"
definition MS_REMOUNT :: "64 word" where "MS_REMOUNT = 32"
definition MS_MANDLOCK :: "64 word" where "MS_MANDLOCK = 64"
definition MS_DIRSYNC :: "64 word" where "MS_DIRSYNC = 128"
definition MS_NOSYMFOLLOW :: "64 word" where "MS_NOSYMFOLLOW = 256"
definition MS_NOATIME :: "64 word" where "MS_NOATIME = 1024"
definition MS_NODIRATIME :: "64 word" where "MS_NODIRATIME = 2048"
definition MS_REC :: "64 word" where "MS_REC = 16384"
definition MS_SILENT :: "64 word" where "MS_SILENT = 32768"
definition MS_POSIXACL :: "64 word" where "MS_POSIXACL = 65536"
definition MS_UNBINDABLE :: "64 word" where "MS_UNBINDABLE = 131072"
definition MS_PRIVATE :: "64 word" where "MS_PRIVATE = 262144"
definition MS_SLAVE :: "64 word" where "MS_SLAVE = 524288"
definition MS_SHARED :: "64 word" where "MS_SHARED = 1048576"
definition MS_RELATIME :: "64 word" where "MS_RELATIME = 2097152"
definition MS_I_VERSION :: "64 word" where "MS_I_VERSION = 8388608"
definition MS_STRICTATIME :: "64 word" where "MS_STRICTATIME = 16777216"
definition MS_LAZYTIME :: "64 word" where "MS_LAZYTIME = 33554432"

definition mountPropagationMapping :: "(string \<times> 64 word) list" where
  "mountPropagationMapping =
     [(''rprivate'', MS_PRIVATE OR MS_REC), (''private'', MS_PRIVATE), (''rslave'', MS_SLAVE OR MS_REC), (''slave'', MS_SLAVE),
      (''rshared'', MS_SHARED OR MS_REC), (''shared'', MS_SHARED), (''runbindable'', MS_UNBINDABLE OR MS_REC),
      (''unbindable'', MS_UNBINDABLE), ([], 0)]"

text \<open>An option name with whether it clears the flag, and the flag.\<close>

definition mountFlags :: "(string \<times> bool \<times> 64 word) list" where
  "mountFlags =
     [(''acl'', False, MS_POSIXACL), (''async'', True, MS_SYNCHRONOUS), (''atime'', True, MS_NOATIME), (''bind'', False, MS_BIND),
      (''defaults'', False, 0), (''dev'', True, MS_NODEV), (''diratime'', True, MS_NODIRATIME), (''dirsync'', False, MS_DIRSYNC),
      (''exec'', True, MS_NOEXEC), (''iversion'', False, MS_I_VERSION), (''lazytime'', False, MS_LAZYTIME),
      (''loud'', True, MS_SILENT), (''mand'', False, MS_MANDLOCK), (''noacl'', True, MS_POSIXACL), (''noatime'', False, MS_NOATIME),
      (''nodev'', False, MS_NODEV), (''nodiratime'', False, MS_NODIRATIME), (''noexec'', False, MS_NOEXEC),
      (''noiversion'', True, MS_I_VERSION), (''nolazytime'', True, MS_LAZYTIME), (''nomand'', True, MS_MANDLOCK),
      (''norelatime'', True, MS_RELATIME), (''nostrictatime'', True, MS_STRICTATIME), (''nosuid'', False, MS_NOSUID),
      (''nosymfollow'', False, MS_NOSYMFOLLOW), (''rbind'', False, MS_BIND OR MS_REC), (''relatime'', False, MS_RELATIME),
      (''remount'', False, MS_REMOUNT), (''ro'', False, MS_RDONLY), (''rw'', True, MS_RDONLY), (''silent'', False, MS_SILENT),
      (''strictatime'', False, MS_STRICTATIME), (''suid'', True, MS_NOSUID), (''sync'', False, MS_SYNCHRONOUS),
      (''symfollow'', True, MS_NOSYMFOLLOW)]"

definition MOUNT_ATTR_RDONLY :: "64 word" where "MOUNT_ATTR_RDONLY = 1"
definition MOUNT_ATTR_NOSUID :: "64 word" where "MOUNT_ATTR_NOSUID = 2"
definition MOUNT_ATTR_NODEV :: "64 word" where "MOUNT_ATTR_NODEV = 4"
definition MOUNT_ATTR_NOEXEC :: "64 word" where "MOUNT_ATTR_NOEXEC = 8"
definition MOUNT_ATTR_RELATIME :: "64 word" where "MOUNT_ATTR_RELATIME = 0"
definition MOUNT_ATTR_NOATIME :: "64 word" where "MOUNT_ATTR_NOATIME = 16"
definition MOUNT_ATTR_STRICTATIME :: "64 word" where "MOUNT_ATTR_STRICTATIME = 32"
definition MOUNT_ATTR__ATIME :: "64 word" where "MOUNT_ATTR__ATIME = 112"
definition MOUNT_ATTR_NODIRATIME :: "64 word" where "MOUNT_ATTR_NODIRATIME = 128"
definition MOUNT_ATTR_NOSYMFOLLOW :: "64 word" where "MOUNT_ATTR_NOSYMFOLLOW = 2097152"

definition recAttrFlags :: "(string \<times> bool \<times> 64 word) list" where
  "recAttrFlags =
     [(''rro'', False, MOUNT_ATTR_RDONLY), (''rrw'', True, MOUNT_ATTR_RDONLY), (''rnosuid'', False, MOUNT_ATTR_NOSUID),
      (''rsuid'', True, MOUNT_ATTR_NOSUID), (''rnodev'', False, MOUNT_ATTR_NODEV), (''rdev'', True, MOUNT_ATTR_NODEV),
      (''rnoexec'', False, MOUNT_ATTR_NOEXEC), (''rexec'', True, MOUNT_ATTR_NOEXEC), (''rnodiratime'', False, MOUNT_ATTR_NODIRATIME),
      (''rdiratime'', True, MOUNT_ATTR_NODIRATIME), (''rrelatime'', False, MOUNT_ATTR_RELATIME),
      (''rnorelatime'', True, MOUNT_ATTR_RELATIME), (''rnoatime'', False, MOUNT_ATTR_NOATIME), (''ratime'', True, MOUNT_ATTR_NOATIME),
      (''rstrictatime'', False, MOUNT_ATTR_STRICTATIME), (''rnostrictatime'', True, MOUNT_ATTR_STRICTATIME),
      (''rnosymfollow'', False, MOUNT_ATTR_NOSYMFOLLOW), (''rsymfollow'', True, MOUNT_ATTR_NOSYMFOLLOW)]"

definition extensionFlags :: "(string \<times> bool \<times> 64 word) list" where
  "extensionFlags = [(''tmpcopyup'', False, EXT_COPYUP)]"

definition KnownNamespaces :: "string list" where
  "KnownNamespaces = sort (map fst namespaceMapping)"

definition KnownMountOptions :: "string list" where
  "KnownMountOptions = sort (map fst mountFlags @ filter (\<lambda>k. k \<noteq> []) (map fst mountPropagationMapping) @
     map fst recAttrFlags @ map fst extensionFlags)"

section \<open>Mount options\<close>

definition zeroMount :: ConfigMount where
  "zeroMount = \<lparr>CmSource = [], CmDestination = [], CmDevice = [], CmFlags = 0, CmPropagationFlags = [], CmData = [], CmRelabel = [],
     CmRecAttr = None, CmExtensions = 0, CmPremountCmds = [], CmPostmountCmds = []\<rparr>"

record OptState =
  OsMount :: ConfigMount
  OsData :: "string list"
  OsSet :: "64 word"
  OsClr :: "64 word"

definition setFlag :: "bool \<times> 64 word \<Rightarrow> 64 word \<Rightarrow> 64 word" where
  "setFlag cf flags = (if fst cf then flags AND NOT (snd cf) else flags OR snd cf)"

definition effective :: "(string \<times> bool \<times> 64 word) list \<Rightarrow> string \<Rightarrow> (bool \<times> 64 word) option" where
  "effective table opt = (case map_of table opt of None \<Rightarrow> None | Some cf \<Rightarrow> if snd cf \<noteq> 0 then Some cf else None)"

definition recAttrStep :: "bool \<times> 64 word \<Rightarrow> OptState \<Rightarrow> OptState" where
  "recAttrStep cf s =
     (if fst cf then s\<lparr>OsClr := OsClr s OR snd cf\<rparr>
      else s\<lparr>OsSet := OsSet s OR snd cf,
             OsClr := if snd cf AND MOUNT_ATTR__ATIME = snd cf then OsClr s OR MOUNT_ATTR__ATIME else OsClr s\<rparr>)"

definition optionStep :: "OptState \<Rightarrow> string \<Rightarrow> OptState" where
  "optionStep s opt =
     (case effective mountFlags opt of
        Some cf \<Rightarrow> s\<lparr>OsMount := (OsMount s)\<lparr>CmFlags := setFlag cf (CmFlags (OsMount s))\<rparr>\<rparr>
      | None \<Rightarrow>
          (case map_of mountPropagationMapping opt of
             Some f \<Rightarrow>
               if f \<noteq> 0 then s\<lparr>OsMount := (OsMount s)\<lparr>CmPropagationFlags := CmPropagationFlags (OsMount s) @ [f]\<rparr>\<rparr>
               else s\<lparr>OsData := OsData s @ [opt]\<rparr>
           | None \<Rightarrow>
               (case map_of recAttrFlags opt of
                  Some cf \<Rightarrow> recAttrStep cf s
                | None \<Rightarrow>
                    (case effective extensionFlags opt of
                       Some cf \<Rightarrow> s\<lparr>OsMount := (OsMount s)\<lparr>CmExtensions := setFlag cf (CmExtensions (OsMount s))\<rparr>\<rparr>
                     | None \<Rightarrow> s\<lparr>OsData := OsData s @ [opt]\<rparr>))))"

definition parseMountOptions :: "string list \<Rightarrow> ConfigMount" where
  "parseMountOptions options =
     (let s = foldl optionStep \<lparr>OsMount = zeroMount, OsData = [], OsSet = 0, OsClr = 0\<rparr> options;
          m = (OsMount s)\<lparr>CmData := Join (CHR '','') (OsData s)\<rparr>
      in if OsSet s \<noteq> 0 \<or> OsClr s \<noteq> 0 then m\<lparr>CmRecAttr := Some \<lparr>AttrSet = OsSet s, AttrClr = OsClr s\<rparr>\<rparr> else m)"

record SpecMount =
  SmDestination :: string
  SmType :: string
  SmSource :: string
  SmOptions :: "string list"

datatype mount_error = MountNullByte

definition createLibcontainerMount :: "string \<Rightarrow> SpecMount \<Rightarrow> (mount_error, ConfigMount) result" where
  "createLibcontainerMount cwd m =
     (let mnt = (parseMountOptions (SmOptions m))\<lparr>CmDestination := SmDestination m, CmSource := SmSource m, CmDevice := SmType m\<rparr>;
          mnt = (if IsBind mnt
                 then mnt\<lparr>CmDevice := ''bind'',
                          CmSource := if IsAbs (CmSource mnt) then CmSource mnt else JoinPath [cwd, SmSource m]\<rparr>
                 else mnt)
      in rguard (CHR 0x00 \<in> set (CmSource mnt) \<or> CHR 0x00 \<in> set (CmDestination mnt) \<or> CHR 0x00 \<in> set (CmDevice mnt))
           MountNullByte (Inr mnt))"

section \<open>Properties of the options\<close>

lemma optionStep_flags:
  "CmFlags (OsMount (optionStep s opt)) =
     (case effective mountFlags opt of None \<Rightarrow> CmFlags (OsMount s) | Some cf \<Rightarrow> setFlag cf (CmFlags (OsMount s)))"
  by (simp add: optionStep_def recAttrStep_def split: option.splits)

lemma bit_setFlag: "bit (setFlag (c, f) w) k \<longleftrightarrow> (if c then bit w k \<and> \<not> bit f k else bit w k \<or> bit f k)"
  by (auto simp: setFlag_def bit_and_iff bit_or_iff bit_not_iff dest: bit_imp_le_length)

text \<open>Bit \<open>k\<close> is set by some option and not cleared by a later one.\<close>

definition lastSets :: "string list \<Rightarrow> nat \<Rightarrow> bool" where
  "lastSets os k \<longleftrightarrow> (\<exists>pre opt post f. os = pre @ opt # post \<and> effective mountFlags opt = Some (False, f) \<and> bit f k \<and>
     (\<forall>opt' \<in> set post. \<forall>f'. effective mountFlags opt' = Some (True, f') \<longrightarrow> \<not> bit f' k))"

lemma lastSetsI:
  "os = pre @ opt # post \<Longrightarrow> effective mountFlags opt = Some (False, f) \<Longrightarrow> bit f k \<Longrightarrow>
   \<forall>opt' \<in> set post. \<forall>f'. effective mountFlags opt' = Some (True, f') \<longrightarrow> \<not> bit f' k \<Longrightarrow> lastSets os k"
  unfolding lastSets_def by blast

lemma lastSets_snoc:
  "lastSets (os @ [opt]) k \<longleftrightarrow>
     (case effective mountFlags opt of
        None \<Rightarrow> lastSets os k
      | Some (c, f) \<Rightarrow> if c then lastSets os k \<and> \<not> bit f k else lastSets os k \<or> bit f k)"
proof -
  have "lastSets (os @ [opt]) k \<longleftrightarrow>
      (\<exists>f. effective mountFlags opt = Some (False, f) \<and> bit f k) \<or>
      lastSets os k \<and> (\<forall>f'. effective mountFlags opt = Some (True, f') \<longrightarrow> \<not> bit f' k)" (is "?L \<longleftrightarrow> ?R")
  proof
    assume ?L
    then obtain pre o1 post f where s: "os @ [opt] = pre @ o1 # post" and e: "effective mountFlags o1 = Some (False, f)" "bit f k"
      and p: "\<forall>opt' \<in> set post. \<forall>f'. effective mountFlags opt' = Some (True, f') \<longrightarrow> \<not> bit f' k"
      unfolding lastSets_def by blast
    show ?R
    proof (cases post rule: rev_cases)
      case Nil
      with s e show ?thesis by auto
    next
      case (snoc ys y)
      with s have "os = pre @ o1 # ys" "y = opt" by auto
      moreover from this have "lastSets os k" using e p snoc by (intro lastSetsI) auto
      ultimately show ?thesis using p snoc by simp
    qed
  next
    assume ?R
    then show ?L
    proof
      assume "\<exists>f. effective mountFlags opt = Some (False, f) \<and> bit f k"
      then show ?L by (auto intro: lastSetsI)
    next
      assume r: "lastSets os k \<and> (\<forall>f'. effective mountFlags opt = Some (True, f') \<longrightarrow> \<not> bit f' k)"
      then obtain pre o1 post f where s: "os = pre @ o1 # post" and e: "effective mountFlags o1 = Some (False, f)" "bit f k"
        and p: "\<forall>opt' \<in> set post. \<forall>f'. effective mountFlags opt' = Some (True, f') \<longrightarrow> \<not> bit f' k"
        unfolding lastSets_def by blast
      have "os @ [opt] = pre @ o1 # (post @ [opt])" using s by simp
      then show ?L by (rule lastSetsI [OF _ e]) (use p r in auto)
    qed
  qed
  then show ?thesis by (auto split: option.splits)
qed

lemma fold_flags: "bit (CmFlags (OsMount (foldl optionStep s os))) k \<longleftrightarrow>
  lastSets os k \<or> (bit (CmFlags (OsMount s)) k \<and> (\<forall>opt \<in> set os. \<forall>f. effective mountFlags opt = Some (True, f) \<longrightarrow> \<not> bit f k))"
proof (induction os rule: rev_induct)
  case Nil
  then show ?case by (simp add: lastSets_def)
next
  case (snoc opt os)
  then show ?case
    by (cases "effective mountFlags opt") (auto simp: optionStep_flags bit_setFlag lastSets_snoc)
qed

definition isData :: "string \<Rightarrow> bool" where
  "isData opt \<longleftrightarrow> effective mountFlags opt = None \<and> map_of mountPropagationMapping opt \<in> {None, Some 0} \<and>
     map_of recAttrFlags opt = None \<and> effective extensionFlags opt = None"

lemma optionStep_data: "OsData (optionStep s opt) = OsData s @ (if isData opt then [opt] else [])"
proof -
  have "map_of recAttrFlags [] = None" "effective extensionFlags [] = None" by (simp_all add: recAttrFlags_def effective_def extensionFlags_def)
  moreover have "map_of mountPropagationMapping opt = Some 0 \<Longrightarrow> opt = []"
    by (simp add: mountPropagationMapping_def MS_PRIVATE_def MS_REC_def MS_SLAVE_def MS_SHARED_def MS_UNBINDABLE_def split: if_splits)
  ultimately show ?thesis
    by (auto simp: optionStep_def isData_def recAttrStep_def split: option.splits)
qed

lemma fold_data: "OsData (foldl optionStep s os) = OsData s @ filter isData os"
  by (induction os arbitrary: s) (simp_all add: optionStep_data)


text \<open>
  A converted mount has no null byte in the strings that are sent to the kernel, and a bind mount
  has an absolute source and the type that later stages look for.
\<close>

theorem createLibcontainerMount_safe:
  assumes "createLibcontainerMount cwd m = Inr c" and "IsAbs cwd"
  shows "CHR 0x00 \<notin> set (CmSource c) \<union> set (CmDestination c) \<union> set (CmDevice c) \<and> CmDestination c = SmDestination m \<and>
    (IsBind c \<longrightarrow> IsAbs (CmSource c) \<and> CmDevice c = ''bind'') \<and>
    (\<not> IsBind c \<longrightarrow> CmSource c = SmSource m \<and> CmDevice c = SmType m)"
proof -
  have abs: "IsAbs (JoinPath [cwd, s])" for s
    using assms(2) by (cases "s = []") (auto simp: JoinPath_def IsAbs_append)
  show ?thesis
    using assms(1) abs by (auto simp: createLibcontainerMount_def Let_def IsBind_def result_simps split: if_splits)
qed

definition exampleSpecMount :: SpecMount where
  "exampleSpecMount = \<lparr>SmDestination = ''/data'', SmType = ''none'', SmSource = ''data'', SmOptions = [''ro'', ''rbind'', ''rw'']\<rparr>"

theorem createLibcontainerMount_safe_witness:
  "\<exists>c. createLibcontainerMount ''/b'' exampleSpecMount = Inr c \<and> IsAbs (CmSource c) \<and> CmDevice c = ''bind''"
proof -
  obtain c where c: "createLibcontainerMount ''/b'' exampleSpecMount = Inr c" and b: "IsBind c"
  proof
    show "createLibcontainerMount ''/b'' exampleSpecMount = Inr (zeroMount\<lparr>CmSource := ''/b/data'', CmDestination := ''/data'',
        CmDevice := ''bind'', CmFlags := 20480\<rparr>)" by code_simp
    show "IsBind (zeroMount\<lparr>CmSource := ''/b/data'', CmDestination := ''/data'', CmDevice := ''bind'', CmFlags := 20480\<rparr>)" by code_simp
  qed
  from createLibcontainerMount_safe [OF c] b c show ?thesis by simp
qed

text \<open>
  The option \<open>defaults\<close> is listed as known but has no flag, so it reaches the file system as data.
\<close>

lemma defaults_is_data: "CmData (parseMountOptions [''defaults'']) = ''defaults'' \<and> ''defaults'' \<in> set (map fst mountFlags)"
  by code_simp

end
