(* ===== verification/Specconv_Seccomp.thy ===== *)
theory Specconv_Seccomp
  imports Configs "HOL-Library.List_Lexorder" "HOL-Library.Char_ord"
begin

text \<open>
  The names of \<open>libcontainer/seccomp/config.go\<close> and \<open>SetupSeccomp\<close> of \<open>specconv/spec_linux.go\<close>, which turns
  the seccomp section of an OCI specification into the list of system call rules.
\<close>

section \<open>Names\<close>

definition operators :: "(string \<times> Operator) list" where
  "operators = [(''SCMP_CMP_NE'', NotEqualTo), (''SCMP_CMP_LT'', LessThan), (''SCMP_CMP_LE'', LessThanOrEqualTo),
     (''SCMP_CMP_EQ'', EqualTo), (''SCMP_CMP_GE'', GreaterThanOrEqualTo), (''SCMP_CMP_GT'', GreaterThan),
     (''SCMP_CMP_MASKED_EQ'', MaskEqualTo)]"

definition actions :: "(string \<times> Action) list" where
  "actions = [(''SCMP_ACT_KILL'', Kill), (''SCMP_ACT_ERRNO'', ActErrno), (''SCMP_ACT_TRAP'', Trap), (''SCMP_ACT_ALLOW'', ActAllow),
     (''SCMP_ACT_TRACE'', Trace), (''SCMP_ACT_LOG'', Log), (''SCMP_ACT_NOTIFY'', Notify), (''SCMP_ACT_KILL_THREAD'', KillThread),
     (''SCMP_ACT_KILL_PROCESS'', KillProcess)]"

definition archs :: "(string \<times> string) list" where
  "archs = [(''SCMP_ARCH_X86'', ''x86''), (''SCMP_ARCH_X86_64'', ''amd64''), (''SCMP_ARCH_X32'', ''x32''), (''SCMP_ARCH_ARM'', ''arm''),
     (''SCMP_ARCH_AARCH64'', ''arm64''), (''SCMP_ARCH_MIPS'', ''mips''), (''SCMP_ARCH_MIPS64'', ''mips64''),
     (''SCMP_ARCH_MIPS64N32'', ''mips64n32''), (''SCMP_ARCH_MIPSEL'', ''mipsel''), (''SCMP_ARCH_MIPSEL64'', ''mipsel64''),
     (''SCMP_ARCH_MIPSEL64N32'', ''mipsel64n32''), (''SCMP_ARCH_PPC'', ''ppc''), (''SCMP_ARCH_PPC64'', ''ppc64''),
     (''SCMP_ARCH_PPC64LE'', ''ppc64le''), (''SCMP_ARCH_S390'', ''s390''), (''SCMP_ARCH_S390X'', ''s390x'')]"

definition KnownOperators :: "string list" where "KnownOperators = sort (map fst operators)"
definition KnownActions :: "string list" where "KnownActions = sort (map fst actions)"
definition KnownArchs :: "string list" where "KnownArchs = sort (map fst archs)"

datatype seccomp_error = BadOperator string | BadAction string | BadArch string | SeccompFlags

definition lookupName :: "(string \<times> 'a) list \<Rightarrow> (string \<Rightarrow> 'e) \<Rightarrow> string \<Rightarrow> ('e, 'a) result" where
  "lookupName table err s = (case map_of table s of None \<Rightarrow> Inl (err s) | Some x \<Rightarrow> Inr x)"

definition ConvertStringToOperator :: "string \<Rightarrow> (seccomp_error, Operator) result" where
  "ConvertStringToOperator s = lookupName operators BadOperator s"

definition ConvertStringToAction :: "string \<Rightarrow> (seccomp_error, Action) result" where
  "ConvertStringToAction s = lookupName actions BadAction s"

definition ConvertStringToArch :: "string \<Rightarrow> (seccomp_error, string) result" where
  "ConvertStringToArch s = lookupName archs BadArch s"

section \<open>Conversion\<close>

record SpecArg =
  SaIndex :: nat
  SaValue :: "64 word"
  SaValueTwo :: "64 word"
  SaOp :: string

record SpecSyscall =
  SyNames :: "string list"
  SyAction :: string
  SyErrnoRet :: "nat option"
  SyArgs :: "SpecArg list"

record SpecSeccomp =
  SeDefaultAction :: string
  SeDefaultErrnoRet :: "nat option"
  SeArchitectures :: "string list"
  SeFlags :: "string list"
  SeListenerPath :: string
  SeListenerMetadata :: string
  SeSyscalls :: "SpecSyscall list"

text \<open>The loop that converts every element and returns at the first error.\<close>

definition rmap :: "('a \<Rightarrow> ('e, 'b) result) \<Rightarrow> 'a list \<Rightarrow> ('e, 'b list) result" where
  "rmap f xs = rfold (\<lambda>x ys. rbind (f x) (\<lambda>y. Inr (ys @ [y]))) xs []"

definition convertArg :: "SpecArg \<Rightarrow> (seccomp_error, Arg) result" where
  "convertArg a = rbind (ConvertStringToOperator (SaOp a)) (\<lambda>newOp.
     Inr \<lparr>ArgIndex = SaIndex a, ArgValue = SaValue a, ArgValueTwo = SaValueTwo a, ArgOp = newOp\<rparr>)"

definition convertCall :: "SpecSyscall \<Rightarrow> (seccomp_error, Syscall list) result" where
  "convertCall call = rbind (ConvertStringToAction (SyAction call)) (\<lambda>newAction.
     rmap (\<lambda>name. rbind (rmap convertArg (SyArgs call)) (\<lambda>args.
       Inr \<lparr>ScName = name, ScAction = newAction, ScErrnoRet = SyErrnoRet call, ScArgs = args\<rparr>)) (SyNames call))"

definition SetupSeccomp :: "SpecSeccomp option \<Rightarrow> (seccomp_error, Seccomp option) result" where
  "SetupSeccomp config = (case config of
       None \<Rightarrow> Inr None
     | Some c \<Rightarrow>
         if SeDefaultAction c = [] \<and> SeSyscalls c = [] then Inr None
         else rguard (SeFlags c \<noteq> []) SeccompFlags
           (rbind (rmap ConvertStringToArch (SeArchitectures c)) (\<lambda>newArchs.
            rbind (ConvertStringToAction (SeDefaultAction c)) (\<lambda>newDefaultAction.
            rbind (rmap convertCall (SeSyscalls c)) (\<lambda>calls.
              Inr (Some \<lparr>SecDefaultAction = newDefaultAction, SecArchitectures = newArchs, SecSyscalls = concat calls,
                SecDefaultErrnoRet = SeDefaultErrnoRet c, SecListenerPath = SeListenerPath c,
                SecListenerMetadata = SeListenerMetadata c\<rparr>))))))"

section \<open>Properties\<close>

lemma rmap_fold: "rfold (\<lambda>x ys. rbind (f x) (\<lambda>y. Inr (ys @ [y]))) xs acc = Inr ys \<longleftrightarrow>
  (\<exists>zs. ys = acc @ zs \<and> list_all2 (\<lambda>x y. f x = Inr y) xs zs)"
proof (induction xs arbitrary: acc)
  case (Cons x xs)
  then show ?case by (auto simp: result_simps list_all2_Cons1)
qed auto

lemma rmap_Inr: "rmap f xs = Inr ys \<longleftrightarrow> list_all2 (\<lambda>x y. f x = Inr y) xs ys"
  by (simp add: rmap_def rmap_fold)

lemma lookupName_Inr: "lookupName t e s = Inr x \<longleftrightarrow> map_of t s = Some x"
  by (auto simp: lookupName_def split: option.splits)

lemma convertCall_Inr:
  "convertCall call = Inr rules \<longleftrightarrow>
   (\<exists>act. map_of actions (SyAction call) = Some act \<and>
     list_all2 (\<lambda>name r. ScName r = name \<and> ScAction r = act \<and> ScErrnoRet r = SyErrnoRet call \<and>
       list_all2 (\<lambda>a b. map_of operators (SaOp a) = Some (ArgOp b) \<and> ArgIndex b = SaIndex a \<and> ArgValue b = SaValue a \<and>
         ArgValueTwo b = SaValueTwo a) (SyArgs call) (ScArgs r)) (SyNames call) rules)"
proof -
  have arg: "convertArg a = Inr b \<longleftrightarrow> map_of operators (SaOp a) = Some (ArgOp b) \<and> ArgIndex b = SaIndex a \<and>
      ArgValue b = SaValue a \<and> ArgValueTwo b = SaValueTwo a" for a b
    by (cases b) (auto simp: convertArg_def ConvertStringToOperator_def result_simps lookupName_Inr)
  have rule: "rbind (rmap convertArg (SyArgs call)) (\<lambda>args.
       Inr \<lparr>ScName = name, ScAction = act, ScErrnoRet = SyErrnoRet call, ScArgs = args\<rparr>) = Inr r \<longleftrightarrow>
     ScName r = name \<and> ScAction r = act \<and> ScErrnoRet r = SyErrnoRet call \<and>
       list_all2 (\<lambda>a b. convertArg a = Inr b) (SyArgs call) (ScArgs r)" for name act r
    by (cases r) (auto simp: result_simps rmap_Inr)
  show ?thesis
    unfolding convertCall_def ConvertStringToAction_def
    by (subst rbind_Inr_iff) (simp add: lookupName_Inr rmap_Inr rule arg)
qed

text \<open>One system call of the specification and the rules made from it: a rule for every name.\<close>

definition ruleFor :: "SpecSyscall \<Rightarrow> string \<Rightarrow> Syscall \<Rightarrow> bool" where
  "ruleFor call name r \<longleftrightarrow> ScName r = name \<and> map_of actions (SyAction call) = Some (ScAction r) \<and> ScErrnoRet r = SyErrnoRet call \<and>
     list_all2 (\<lambda>a b. map_of operators (SaOp a) = Some (ArgOp b) \<and> ArgIndex b = SaIndex a \<and> ArgValue b = SaValue a \<and>
       ArgValueTwo b = SaValueTwo a) (SyArgs call) (ScArgs r)"

lemma convertCall_rules: "convertCall call = Inr rules \<Longrightarrow> list_all2 (ruleFor call) (SyNames call) rules"
  by (auto simp: convertCall_Inr ruleFor_def elim!: list_all2_mono)

lemma rules_concat:
  "list_all2 (\<lambda>call rules. convertCall call = Inr rules) calls rss \<Longrightarrow>
   list_all2 (\<lambda>(call, name) r. ruleFor call name r) (concat (map (\<lambda>call. map (Pair call) (SyNames call)) calls)) (concat rss)"
proof (induction rule: list_all2_induct)
  case (Cons call calls rules rss)
  have "list_all2 (\<lambda>(call, name) r. ruleFor call name r) (map (Pair call) (SyNames call)) rules"
    using convertCall_rules [OF Cons(1)] by (simp add: list_all2_map1)
  with Cons show ?case by (simp add: list_all2_appendI)
qed simp

text \<open>
  The seccomp rules are those of the specification: one rule for every listed name, in order, with
  the named action, the errno and all argument conditions of its entry; the default action and the
  architectures are the named ones.  A section with an unknown name is rejected.
\<close>

theorem SetupSeccomp_exact:
  assumes "SetupSeccomp (Some c) = Inr (Some s)"
  shows "list_all2 (\<lambda>(call, name) r. ruleFor call name r)
      (concat (map (\<lambda>call. map (Pair call) (SyNames call)) (SeSyscalls c))) (SecSyscalls s) \<and>
    map_of actions (SeDefaultAction c) = Some (SecDefaultAction s) \<and> SecDefaultErrnoRet s = SeDefaultErrnoRet c \<and>
    list_all2 (\<lambda>a b. map_of archs a = Some b) (SeArchitectures c) (SecArchitectures s)"
proof -
  from assms obtain newArchs act rss where "rmap ConvertStringToArch (SeArchitectures c) = Inr newArchs"
    "ConvertStringToAction (SeDefaultAction c) = Inr act" and r: "rmap convertCall (SeSyscalls c) = Inr rss"
    and s: "s = \<lparr>SecDefaultAction = act, SecArchitectures = newArchs, SecSyscalls = concat rss,
                SecDefaultErrnoRet = SeDefaultErrnoRet c, SecListenerPath = SeListenerPath c,
                SecListenerMetadata = SeListenerMetadata c\<rparr>"
    by (auto simp: SetupSeccomp_def result_simps split: if_splits)
  then show ?thesis
    using rules_concat [OF r [unfolded rmap_Inr]]
    by (simp add: rmap_Inr ConvertStringToArch_def ConvertStringToAction_def lookupName_Inr)
qed

definition exampleSeccomp :: SpecSeccomp where
  "exampleSeccomp = \<lparr>SeDefaultAction = ''SCMP_ACT_ERRNO'', SeDefaultErrnoRet = None, SeArchitectures = [''SCMP_ARCH_X86_64''], SeFlags = [],
     SeListenerPath = [], SeListenerMetadata = [],
     SeSyscalls = [\<lparr>SyNames = [''read'', ''write''], SyAction = ''SCMP_ACT_ALLOW'', SyErrnoRet = None, SyArgs = []\<rparr>]\<rparr>"

definition exampleRules :: Seccomp where
  "exampleRules = \<lparr>SecDefaultAction = ActErrno, SecArchitectures = [''amd64''],
     SecSyscalls = [\<lparr>ScName = ''read'', ScAction = ActAllow, ScErrnoRet = None, ScArgs = []\<rparr>,
       \<lparr>ScName = ''write'', ScAction = ActAllow, ScErrnoRet = None, ScArgs = []\<rparr>],
     SecDefaultErrnoRet = None, SecListenerPath = [], SecListenerMetadata = []\<rparr>"

theorem SetupSeccomp_exact_witness:
  "list_all2 (\<lambda>(call, name) r. ruleFor call name r)
     (concat (map (\<lambda>call. map (Pair call) (SyNames call)) (SeSyscalls exampleSeccomp))) (SecSyscalls exampleRules)"
proof -
  have "SetupSeccomp (Some exampleSeccomp) = Inr (Some exampleRules)" by code_simp
  from SetupSeccomp_exact [OF this] show ?thesis by simp
qed

end
