(* ===== verification/Validator.thy ===== *)
theory Validator
  imports Configs Runc_Utils "HOL-Library.List_Lexorder" "HOL-Library.Char_ord"
begin

text \<open>
  Package \<open>libcontainer/configs/validate\<close>: the checks that a configuration must pass before a container
  is created.  What they ask of the machine is collected in \<open>ValidateEnv\<close>: the file system and working
  directory, whether SELinux, the unified cgroup hierarchy and the two Intel RDT features are
  enabled, and the device and inode numbers that the kernel reports for namespace files.
\<close>

section \<open>Checks\<close>

datatype validate_error =
    VRootfs errno
  | VRootfsNotClean
  | VNetwork
  | VHostname
  | VSecurity
  | VSelinux
  | VUserNsDisabled
  | VMappingsWithoutUserNs
  | VCgroupNsDisabled
  | VSysctlHostIpc string
  | VNetnsPath errno
  | VSysctlHostNet string
  | VSysctlHostname
  | VSysctlNotNamespaced string
  | VClosID string
  | VCatDisabled
  | VMbaDisabled
  | VCgroupPath
  | VV1NoUnified
  | VSwap swap_error
  | VMountNotAbs string
  | VRootlessNoUserNs
  | VRootlessNoUidMap
  | VRootlessNoGidMap
  | VRootlessUid
  | VRootlessGid

record ValidateEnv =
  VFs :: fs
  VCwd :: "string list"
  SelinuxEnabled :: bool
  UnifiedMode :: bool
  CATEnabled :: bool
  MBAEnabled :: bool
  NsInode :: "string \<Rightarrow> (errno, int \<times> int) result"

definition checkRootfs :: "ValidateEnv \<Rightarrow> 'v Config \<Rightarrow> (validate_error, unit) result" where
  "checkRootfs env config =
     (case Stat (VFs env) (osPath (VCwd env) (CfRootfs config)) of
        Inl e \<Rightarrow> Inl (VRootfs e)
      | Inr _ \<Rightarrow>
          (case EvalSymlinks (VFs env) (Abs (absPathOf (VCwd env)) (CfRootfs config)) of
             Inl e \<Rightarrow> Inl (VRootfs e)
           | Inr cleaned \<Rightarrow> rguard (Clean (CfRootfs config) \<noteq> cleaned) VRootfsNotClean (Inr ())))"

definition checkNetwork :: "'v Config \<Rightarrow> (validate_error, unit) result" where
  "checkNetwork config =
     rguard (\<not> nsContains NEWNET (CfNamespaces config) \<and> (CfNetworks config \<noteq> [] \<or> CfRoutes config \<noteq> [])) VNetwork (Inr ())"

definition checkHostname :: "'v Config \<Rightarrow> (validate_error, unit) result" where
  "checkHostname config =
     rguard (CfHostname config \<noteq> [] \<and> \<not> nsContains NEWUTS (CfNamespaces config)) VHostname (Inr ())"

definition checkSecurity :: "ValidateEnv \<Rightarrow> 'v Config \<Rightarrow> (validate_error, unit) result" where
  "checkSecurity env config =
     rguard ((CfMaskPaths config \<noteq> [] \<or> CfReadonlyPaths config \<noteq> []) \<and> \<not> nsContains NEWNS (CfNamespaces config)) VSecurity
       (rguard (CfProcessLabel config \<noteq> [] \<and> \<not> SelinuxEnabled env) VSelinux (Inr ()))"

definition checkUsernamespace :: "ValidateEnv \<Rightarrow> 'v Config \<Rightarrow> (validate_error, unit) result" where
  "checkUsernamespace env config =
     (if nsContains NEWUSER (CfNamespaces config)
      then rguard (Stat (VFs env) ''/proc/self/ns/user'' = Inl ENOENT) VUserNsDisabled (Inr ())
      else rguard (CfUidMappings config \<noteq> None \<or> CfGidMappings config \<noteq> None) VMappingsWithoutUserNs (Inr ()))"

definition checkCgroupnamespace :: "ValidateEnv \<Rightarrow> 'v Config \<Rightarrow> (validate_error, unit) result" where
  "checkCgroupnamespace env config =
     rguard (nsContains NEWCGROUP (CfNamespaces config) \<and> Stat (VFs env) ''/proc/self/ns/cgroup'' = Inl ENOENT) VCgroupNsDisabled (Inr ())"

text \<open>\<open>strings.Map\<close> with a function that exchanges two ASCII characters, on valid UTF-8.\<close>

definition swapSep :: "char \<Rightarrow> char" where
  "swapSep r = (if r = CHR ''.'' then CHR ''/'' else if r = CHR ''/'' then CHR ''.'' else r)"

definition convertSysctlVariableToDotsSeparator :: "string \<Rightarrow> string" where
  "convertSysctlVariableToDotsSeparator val =
     (case find (\<lambda>c. c = CHR ''.'' \<or> c = CHR ''/'') val of
        None \<Rightarrow> val
      | Some c \<Rightarrow> if c = CHR ''.'' then val else map swapSep val)"

definition validSysctls :: "string list" where
  "validSysctls = [''kernel.msgmax'', ''kernel.msgmnb'', ''kernel.msgmni'', ''kernel.sem'', ''kernel.shmall'',
     ''kernel.shmmax'', ''kernel.shmmni'', ''kernel.shm_rmid_forced'']"

definition isHostNetNS :: "ValidateEnv \<Rightarrow> string \<Rightarrow> (errno, bool) result" where
  "isHostNetNS env path =
     rbind (NsInode env ''/proc/self/ns/net'') (\<lambda>st1. rbind (NsInode env path) (\<lambda>st2. Inr (st1 = st2)))"

definition hostnet :: "ValidateEnv \<Rightarrow> 'v Config \<Rightarrow> (errno, bool) result" where
  "hostnet env config =
     (if \<not> nsContains NEWNET (CfNamespaces config) then Inr True
      else let path = PathOf NEWNET (CfNamespaces config)
           in if path = [] then Inr False else isHostNetNS env path)"

definition checkSysctlKey :: "ValidateEnv \<Rightarrow> 'v Config \<Rightarrow> string \<Rightarrow> (validate_error, unit) result" where
  "checkSysctlKey env config key =
     (let s = convertSysctlVariableToDotsSeparator key
      in if s \<in> set validSysctls \<or> HasPrefix s ''fs.mqueue.''
         then rguard (\<not> nsContains NEWIPC (CfNamespaces config)) (VSysctlHostIpc s) (Inr ())
         else if HasPrefix s ''net.''
         then (case hostnet env config of
                 Inl e \<Rightarrow> Inl (VNetnsPath e)
               | Inr h \<Rightarrow> rguard h (VSysctlHostNet s) (Inr ()))
         else if nsContains NEWUTS (CfNamespaces config) \<and> s = ''kernel.domainname'' then Inr ()
         else if nsContains NEWUTS (CfNamespaces config) \<and> s = ''kernel.hostname'' then Inl VSysctlHostname
         else Inl (VSysctlNotNamespaced s))"

text \<open>The keys of the map in ascending order; Go visits them in an unspecified order.\<close>

definition checkSysctl :: "ValidateEnv \<Rightarrow> 'v Config \<Rightarrow> (validate_error, unit) result" where
  "checkSysctl env config =
     rfold (\<lambda>key _. checkSysctlKey env config key) (sorted_list_of_fset (fmdom (CfSysctl config))) ()"

definition checkIntelrdt :: "ValidateEnv \<Rightarrow> 'v Config \<Rightarrow> (validate_error, unit) result" where
  "checkIntelrdt env config = (case CfIntelRdt config of
       None \<Rightarrow> Inr ()
     | Some rdt \<Rightarrow>
         rguard (ClosID rdt = ''.'' \<or> ClosID rdt = ''..'' \<or> CHR ''/'' \<in> set (ClosID rdt)) (VClosID (ClosID rdt))
           (rguard (\<not> CATEnabled env \<and> L3CacheSchema rdt \<noteq> []) VCatDisabled
             (rguard (\<not> MBAEnabled env \<and> MemBwSchema rdt \<noteq> []) VMbaDisabled (Inr ()))))"

definition checkCgroups :: "ValidateEnv \<Rightarrow> 'v Config \<Rightarrow> (validate_error, unit) result" where
  "checkCgroups env config = (case CfCgroups config of
       None \<Rightarrow> Inr ()
     | Some c \<Rightarrow>
         rguard ((CgName c \<noteq> [] \<or> CgParent c \<noteq> []) \<and> CgPath c \<noteq> []) VCgroupPath
           (case CgResources c of
              None \<Rightarrow> Inr ()
            | Some r \<Rightarrow>
                rguard (\<not> UnifiedMode env \<and> RUnified r \<noteq> None) VV1NoUnified
                  (if UnifiedMode env
                   then (case ConvertMemorySwapToCgroupV2Value (RMemorySwap r) (RMemory r) of
                           Inl e \<Rightarrow> Inl (VSwap e) | Inr _ \<Rightarrow> Inr ())
                   else Inr ())))"

definition checkMounts :: "'v Config \<Rightarrow> (validate_error, unit) result" where
  "checkMounts config =
     rfold (\<lambda>m _. rguard (\<not> IsAbs (CmDestination m)) (VMountNotAbs (CmDestination m)) (Inr ())) (CfMounts config) ()"

section \<open>Rootless containers\<close>

definition hasIDMapping :: "int \<Rightarrow> ConfigIDMap list \<Rightarrow> bool" where
  "hasIDMapping i mappings = list_ex (\<lambda>m. ContainerID m \<le> i \<and> i < wrap64 (ContainerID m + MapSize m)) mappings"

definition mappingsOf :: "ConfigIDMap list option \<Rightarrow> ConfigIDMap list" where
  "mappingsOf m = (case m of None \<Rightarrow> [] | Some ms \<Rightarrow> ms)"

definition rootlessEUIDMappings :: "'v Config \<Rightarrow> (validate_error, unit) result" where
  "rootlessEUIDMappings config =
     rguard (\<not> nsContains NEWUSER (CfNamespaces config)) VRootlessNoUserNs
       (rguard (mappingsOf (CfUidMappings config) = []) VRootlessNoUidMap
         (rguard (mappingsOf (CfGidMappings config) = []) VRootlessNoGidMap (Inr ())))"

text \<open>
  \<open>fmt.Sscanf(opt, "uid=%d", &uid)\<close> behind the literal prefix: blanks are skipped, a newline is an
  error, then an optional sign and the longest run of digits are read; what follows is ignored.
\<close>

definition sscanfInt :: "string \<Rightarrow> int option" where
  "sscanfInt s =
     (let t = dropWhile (\<lambda>c. isSpace c \<and> c \<noteq> CHR 0x0A) s;
          signed = (t \<noteq> [] \<and> (hd t = CHR ''+'' \<or> hd t = CHR ''-''));
          digits = takeWhile isDigit (if signed then tl t else t)
      in if digits = [] then None
         else case ParseInt 64 (if signed then hd t # digits else digits) of
           (i, None) \<Rightarrow> Some i
         | (_, Some _) \<Rightarrow> None)"

definition checkIdOption :: "string \<Rightarrow> ConfigIDMap list \<Rightarrow> validate_error \<Rightarrow> string \<Rightarrow> (validate_error, unit) result" where
  "checkIdOption pre mappings err opt =
     (if HasPrefix opt pre
      then (case sscanfInt (drop (length pre) opt) of
              None \<Rightarrow> Inr ()
            | Some i \<Rightarrow> rguard (\<not> hasIDMapping i mappings) err (Inr ()))
      else Inr ())"

definition rootlessEUIDMount :: "'v Config \<Rightarrow> (validate_error, unit) result" where
  "rootlessEUIDMount config =
     rfold (\<lambda>mount _. rfold (\<lambda>opt _.
         rbind (checkIdOption ''uid='' (mappingsOf (CfUidMappings config)) VRootlessUid opt) (\<lambda>_.
           checkIdOption ''gid='' (mappingsOf (CfGidMappings config)) VRootlessGid opt))
       (Split (CHR '','') (CmData mount)) ()) (CfMounts config) ()"

definition rootlessEUID :: "'v Config \<Rightarrow> (validate_error, unit) result" where
  "rootlessEUID config =
     (if \<not> CfRootlessEUID config then Inr ()
      else rbind (rootlessEUIDMappings config) (\<lambda>_. rootlessEUIDMount config))"

section \<open>The validator\<close>

text \<open>The result carries the warnings that are only logged.\<close>

definition checks :: "ValidateEnv \<Rightarrow> ('v Config \<Rightarrow> (validate_error, unit) result) list" where
  "checks env = [checkCgroups env, checkRootfs env, checkNetwork, checkHostname, checkSecurity env, checkUsernamespace env,
     checkCgroupnamespace env, checkSysctl env, checkIntelrdt env, rootlessEUID]"

definition warns :: "('v Config \<Rightarrow> (validate_error, unit) result) list" where
  "warns = [checkMounts]"

definition Validate :: "ValidateEnv \<Rightarrow> 'v Config \<Rightarrow> (validate_error, validate_error list) result" where
  "Validate env config =
     rbind (rfold (\<lambda>c _. c config) (checks env) ()) (\<lambda>_.
       Inr (concat (map (\<lambda>c. case c config of Inl e \<Rightarrow> [e] | Inr _ \<Rightarrow> []) warns)))"

section \<open>Properties\<close>

lemma rfold_unit: "rfold (\<lambda>x _. f x) xs () = Inr () \<longleftrightarrow> (\<forall>x \<in> set xs. f x = Inr ())"
  by (induction xs) (auto simp: result_simps)

lemma Validate_checks: "Validate env c = Inr ws \<Longrightarrow> k \<in> set (checks env) \<Longrightarrow> k c = Inr ()"
  using rfold_unit [of "\<lambda>k. k c" "checks env"] by (auto simp: Validate_def result_simps)

lemmas Validate_check = Validate_checks [unfolded checks_def]

definition privateSysctl :: "ValidateEnv \<Rightarrow> 'v Config \<Rightarrow> string \<Rightarrow> bool" where
  "privateSysctl env c s \<longleftrightarrow>
     (s \<in> set validSysctls \<or> HasPrefix s ''fs.mqueue.'') \<and> nsContains NEWIPC (CfNamespaces c) \<or>
     HasPrefix s ''net.'' \<and> nsContains NEWNET (CfNamespaces c) \<and>
       (PathOf NEWNET (CfNamespaces c) = [] \<or> isHostNetNS env (PathOf NEWNET (CfNamespaces c)) = Inr False) \<or>
     s = ''kernel.domainname'' \<and> nsContains NEWUTS (CfNamespaces c)"

lemma ipc_not_net: "s \<in> set validSysctls \<or> HasPrefix s ''fs.mqueue.'' \<Longrightarrow> \<not> HasPrefix s ''net.''"
  by (auto simp: validSysctls_def HasPrefix_iff)

lemma hostnet_private: "hostnet env c = Inr False \<longleftrightarrow> nsContains NEWNET (CfNamespaces c) \<and>
    (PathOf NEWNET (CfNamespaces c) = [] \<or> isHostNetNS env (PathOf NEWNET (CfNamespaces c)) = Inr False)"
  by (auto simp: hostnet_def Let_def)

lemma checkSysctlKey_iff:
  "checkSysctlKey env c key = Inr () \<longleftrightarrow> privateSysctl env c (convertSysctlVariableToDotsSeparator key)"
proof -
  define s where "s = convertSysctlVariableToDotsSeparator key"
  have dom: "\<not> HasPrefix ''kernel.domainname'' ''net.''" "\<not> HasPrefix ''kernel.domainname'' ''fs.mqueue.''"
    "''kernel.domainname'' \<notin> set validSysctls" by code_simp+
  show ?thesis
  proof (cases "s \<in> set validSysctls \<or> HasPrefix s ''fs.mqueue.''")
    case True
    then have "s \<noteq> ''kernel.domainname''" using dom by auto
    with True ipc_not_net [OF True] show ?thesis
      unfolding checkSysctlKey_def privateSysctl_def s_def [symmetric] Let_def by (simp add: result_simps)
  next
    case ipc: False
    show ?thesis
    proof (cases "HasPrefix s ''net.''")
      case True
      then have "s \<noteq> ''kernel.domainname''" using dom by auto
      with True ipc show ?thesis
        unfolding checkSysctlKey_def privateSysctl_def s_def [symmetric] Let_def
        by (cases "hostnet env c") (auto simp: result_simps simp flip: hostnet_private)
    next
      case False
      with ipc show ?thesis
        unfolding checkSysctlKey_def privateSysctl_def s_def [symmetric] Let_def by auto
    qed
  qed
qed


definition exampleVEnv :: ValidateEnv where
  "exampleVEnv = \<lparr>VFs = fmap_of_list [([''r''], IDir 493), ([''proc''], IDir 365),
       ([''proc'', ''self''], IDir 365), ([''proc'', ''self'', ''ns''], IDir 365), ([''proc'', ''self'', ''ns'', ''user''], IFile 292 [])], VCwd = [], SelinuxEnabled = False, UnifiedMode = True,
     CATEnabled = False, MBAEnabled = False, NsInode = \<lambda>_. Inr (4, 1)\<rparr>"

definition exampleConfig :: "unit Config" where
  "exampleConfig = zeroConfig\<lparr>CfRootfs := ''/r'', CfNamespaces := [\<lparr>NsType = NEWNET, NsPath = []\<rparr>, \<lparr>NsType = NEWUSER, NsPath = []\<rparr>],
     CfUidMappings := Some [\<lparr>ContainerID = 0, HostID = 100000, MapSize = 65536\<rparr>],
     CfGidMappings := Some [\<lparr>ContainerID = 0, HostID = 100000, MapSize = 65536\<rparr>],
     CfSysctl := fmap_of_list [(''net/ipv4/ip_forward'', ''1'')], CfRootlessEUID := True,
     CfMounts := [\<lparr>CmSource = ''devpts'', CmDestination = ''/dev/pts'', CmDevice = ''devpts'', CmFlags = 0, CmPropagationFlags = [],
       CmData = ''mode=0620,gid=5'', CmRelabel = [], CmRecAttr = None, CmExtensions = 0, CmPremountCmds = [], CmPostmountCmds = []\<rparr>]\<rparr>"


lemma rawComps_elems: "\<forall>c \<in> set (rawComps p). c \<noteq> [] \<and> c \<noteq> dot \<and> sep \<notin> set c"
  using Split_no_sep by (auto simp: rawComps_def)

lemma walk_norm:
  assumes "walk fs n True cur cs = Inr (m, q)" and "normComps True cur"
    and "\<forall>c \<in> set cs. c \<noteq> [] \<and> c \<noteq> dot \<and> sep \<notin> set c"
  shows "normComps True q"
  using assms
proof (induction fs n True cur cs rule: walk.induct)
  case (2 fs n cur c cs)
  have cur: "normComps True (butlast cur)"
    using "2.prems"(2) by (cases cur rule: rev_cases) (auto dest: normComps_butlast)
  show ?case
  proof (cases "c = dotdot")
    case True
    with 2 cur show ?thesis by simp
  next
    case c: False
    then have nc: "normComps True (cur @ [c])" using "2.prems"(2,3) by (intro normComps_snoc_name) simp_all
    show ?thesis
    proof (cases "inodeAt fs (cur @ [c])")
      case None
      with "2.prems" c nc show ?thesis by (auto split: if_splits)
    next
      case (Some i)
      show ?thesis
      proof (cases i)
        case (IDir k)
        with 2 c Some nc show ?thesis by simp
      next
        case (IFile k s)
        with "2.prems" c Some nc show ?thesis by (auto split: if_splits)
      next
        case (ILink t)
        have "\<forall>x \<in> set (rawComps t @ cs). x \<noteq> [] \<and> x \<noteq> dot \<and> sep \<notin> set x"
          using "2.prems"(3) rawComps_elems [of t] by auto
        with 2 c Some ILink nc show ?thesis by (cases n) (auto split: if_splits)
      qed
    qed
  qed
qed simp

lemma noLinks_dirs: "dirPath fs cur cs \<Longrightarrow> (\<forall>t. inodeAt fs (cur @ cs @ [c]) \<noteq> Some (ILink t)) \<Longrightarrow> noLinks fs cur (cs @ [c])"
  by (induction cs arbitrary: cur) auto

lemma EvalSymlinks_noLinks:
  assumes "EvalSymlinks fs p = Inr r"
  shows "\<exists>q. r = absPathOf q \<and> normComps True q \<and> noLinks fs [] q \<and> inodeAt fs q \<noteq> None"
proof -
  from assms obtain n q where w: "walk fs maxSymlinks True [] (rawComps p) = Inr (n, q)" and r: "r = absPathOf q"
    and e: "inodeAt fs q \<noteq> None"
    by (auto simp: EvalSymlinks_def resolve_def result_simps split: if_splits)
  have n: "normComps True q" by (rule walk_norm [OF w _ rawComps_elems]) simp
  from walk_canonical [OF w] have d: "dirPath fs [] (butlast q)" "\<forall>t. inodeAt fs q \<noteq> Some (ILink t)" by auto
  have "noLinks fs [] q"
    using d noLinks_dirs [of fs "[]" "butlast q" "last q"] by (cases "q = []") auto
  with r n e show ?thesis by blast
qed


lemma example_rootless: "rootlessEUID exampleConfig = Inr ()"
  by (simp add: rootlessEUID_def exampleConfig_def rootlessEUIDMappings_def rootlessEUIDMount_def nsContains_def ns_defs
      mappingsOf_def Split_def checkIdOption_def sscanfInt_def isSpace_def ParseInt_def ParseUint_def isDigit_def
      digitVal_def hasIDMapping_def wrap64_id)

lemma example_Validate: "Validate exampleVEnv exampleConfig = Inr []"
proof -
  have "checkCgroups exampleVEnv exampleConfig = Inr ()" "checkRootfs exampleVEnv exampleConfig = Inr ()"
    "checkNetwork exampleConfig = Inr ()" "checkHostname exampleConfig = Inr ()" "checkSecurity exampleVEnv exampleConfig = Inr ()"
    "checkUsernamespace exampleVEnv exampleConfig = Inr ()" "checkCgroupnamespace exampleVEnv exampleConfig = Inr ()"
    "checkSysctl exampleVEnv exampleConfig = Inr ()" "checkIntelrdt exampleVEnv exampleConfig = Inr ()"
    "checkMounts exampleConfig = Inr ()"
    by code_simp+
  then show ?thesis by (simp add: Validate_def checks_def warns_def example_rootless)
qed


section \<open>Mount options of rootless containers\<close>

lemma hasIDMapping_iff:
  assumes "\<forall>m \<in> set ms. map32 m"
  shows "hasIDMapping i ms \<longleftrightarrow> hostIDFromMapping i ms \<noteq> None"
proof -
  have "wrap64 (ContainerID m + MapSize m) = ContainerID m + MapSize m" if "m \<in> set ms" for m
  proof -
    have "map32 m" using assms that by blast
    then show ?thesis by (intro wrap64_id) (simp_all add: map32_def)
  qed
  then have "hasIDMapping i ms \<longleftrightarrow> (\<exists>m \<in> set ms. covers m i)"
    by (auto simp: hasIDMapping_def list_ex_iff covers_def)
  then show ?thesis unfolding hostID_find [OF assms] by (auto simp: find_None_iff)
qed

lemma checkIdOption_ok:
  "checkIdOption pre ms e opt = Inr () \<Longrightarrow> HasPrefix opt pre \<Longrightarrow> sscanfInt (drop (length pre) opt) = Some i \<Longrightarrow> hasIDMapping i ms"
  by (simp add: checkIdOption_def result_simps)

lemma rootless_options:
  assumes "rootlessEUIDMount c = Inr ()" and "m \<in> set (CfMounts c)" and "opt \<in> set (Split (CHR '','') (CmData m))"
  shows "checkIdOption ''uid='' (mappingsOf (CfUidMappings c)) VRootlessUid opt = Inr () \<and>
    checkIdOption ''gid='' (mappingsOf (CfGidMappings c)) VRootlessGid opt = Inr ()"
  using assms unfolding rootlessEUIDMount_def rfold_unit by (auto simp: result_simps)

text \<open>
  C35.  In a rootless container that passes validation, every user and group id that a mount option
  names is mapped to a host id.
\<close>

theorem Validate_rootless_ids:
  assumes "Validate env c = Inr ws" and "CfRootlessEUID c"
    and "\<forall>m \<in> set (mappingsOf (CfUidMappings c)) \<union> set (mappingsOf (CfGidMappings c)). map32 m"
    and "mt \<in> set (CfMounts c)" and "opt \<in> set (Split (CHR '','') (CmData mt))"
  shows "(HasPrefix opt ''uid='' \<and> sscanfInt (drop 4 opt) = Some i \<longrightarrow> is_ok (HostUID c i)) \<and>
    (HasPrefix opt ''gid='' \<and> sscanfInt (drop 4 opt) = Some i \<longrightarrow> is_ok (HostGID c i))"
proof -
  have "rootlessEUID c = Inr ()" by (rule Validate_check [OF assms(1)]) simp
  then have m: "rootlessEUIDMappings c = Inr ()" and r: "rootlessEUIDMount c = Inr ()"
    using assms(2) by (auto simp: rootlessEUID_def result_simps)
  obtain us gs where ug: "CfUidMappings c = Some us" "CfGidMappings c = Some gs" and ns: "nsContains NEWUSER (CfNamespaces c)"
    using m by (auto simp: rootlessEUIDMappings_def mappingsOf_def result_simps split: option.splits)
  have ok: "\<forall>m \<in> set us. map32 m" "\<forall>m \<in> set gs. map32 m" using assms(3) ug by (auto simp: mappingsOf_def)
  note o = rootless_options [OF r assms(4,5), unfolded ug mappingsOf_def, simplified]
  have "is_ok (HostUID c i)" if "HasPrefix opt ''uid=''" "sscanfInt (drop 4 opt) = Some i"
  proof -
    have "hasIDMapping i us" using o that by (intro checkIdOption_ok [of "''uid=''" us VRootlessUid opt]) (simp_all add: eval_nat_numeral)
    then show ?thesis using hasIDMapping_iff [OF ok(1)] ug ns by (auto simp: HostUID_def)
  qed
  moreover have "is_ok (HostGID c i)" if "HasPrefix opt ''gid=''" "sscanfInt (drop 4 opt) = Some i"
  proof -
    have "hasIDMapping i gs" using o that by (intro checkIdOption_ok [of "''gid=''" gs VRootlessGid opt]) (simp_all add: eval_nat_numeral)
    then show ?thesis using hasIDMapping_iff [OF ok(2)] ug ns by (auto simp: HostGID_def)
  qed
  ultimately show ?thesis by blast
qed

theorem Validate_rootless_ids_witness: "is_ok (HostGID exampleConfig 5)"
proof -
  define mt where "mt = hd (CfMounts exampleConfig)"
  have e: "CfRootlessEUID exampleConfig" "mt \<in> set (CfMounts exampleConfig)" "CmData mt = ''mode=0620,gid=5''"
    "mappingsOf (CfUidMappings exampleConfig) = [\<lparr>ContainerID = 0, HostID = 100000, MapSize = 65536\<rparr>]"
    "mappingsOf (CfGidMappings exampleConfig) = [\<lparr>ContainerID = 0, HostID = 100000, MapSize = 65536\<rparr>]"
    by (simp_all add: mt_def exampleConfig_def mappingsOf_def)
  have o: "''gid=5'' \<in> set (Split (CHR '','') (CmData mt))" unfolding e(3) by code_simp
  have s: "HasPrefix ''gid=5'' ''gid=''" "sscanfInt (drop 4 ''gid=5'') = Some 5"
    by (simp_all add: sscanfInt_def isSpace_def ParseInt_def ParseUint_def isDigit_def digitVal_def)
  have "\<forall>m \<in> set (mappingsOf (CfUidMappings exampleConfig)) \<union> set (mappingsOf (CfGidMappings exampleConfig)). map32 m"
    unfolding e(4,5) by (simp add: map32_def)
  from Validate_rootless_ids [OF example_Validate e(1) this e(2) o, of 5] s show ?thesis by simp
qed

end
