(* ===== verification/Specconv.thy ===== *)
theory Specconv
  imports Specconv_Mounts Specconv_Seccomp Validator
begin

text \<open>
  \<open>libcontainer/specconv/spec_linux.go\<close>: an OCI runtime specification becomes a container configuration.
  The records starting with \<open>Spec\<close> are the fields of the OCI specification that the code reads; an
  absent pointer is \<open>None\<close>.  The list \<open>AllowedDevices\<close> is a global variable whose entries are shared with
  every configuration, so the conversion takes it and returns it.  D-Bus values of systemd
  properties are read by a library, which is the parameter \<open>parseVariant\<close>.
\<close>

section \<open>The OCI specification\<close>

record SpecDeviceCgroup =
  SdAllow :: bool
  SdType :: string
  SdMajor :: "int option"
  SdMinor :: "int option"
  SdAccess :: string

record SpecMemory =
  MemLimit :: "int option"
  MemReservation :: "int option"
  MemSwap :: "int option"
  MemSwappiness :: "64 word option"
  MemDisableOOMKiller :: "bool option"

record SpecCPU =
  CpuSharesOf :: "64 word option"
  CpuQuotaOf :: "int option"
  CpuPeriodOf :: "64 word option"
  CpuRtRuntimeOf :: "int option"
  CpuRtPeriodOf :: "64 word option"
  CpusOf :: string
  MemsOf :: string

record SpecWeightDevice =
  SwMajor :: int
  SwMinor :: int
  SwWeight :: "16 word option"
  SwLeafWeight :: "16 word option"

record SpecThrottleDevice =
  StMajor :: int
  StMinor :: int
  StRate :: "64 word"

record SpecBlockIO =
  BioWeight :: "16 word option"
  BioLeafWeight :: "16 word option"
  BioWeightDevice :: "SpecWeightDevice list"
  BioReadBps :: "SpecThrottleDevice list"
  BioWriteBps :: "SpecThrottleDevice list"
  BioReadIOPS :: "SpecThrottleDevice list"
  BioWriteIOPS :: "SpecThrottleDevice list"

record SpecNetwork =
  NetClassID :: "32 word option"
  NetPriorities :: "(string \<times> 32 word) list"

record SpecResources =
  SrDevices :: "SpecDeviceCgroup list"
  SrMemory :: "SpecMemory option"
  SrCPU :: "SpecCPU option"
  SrPids :: "int option"
  SrBlockIO :: "SpecBlockIO option"
  SrHugepageLimits :: "(string \<times> 64 word) list"
  SrRdma :: "(string, 32 word option \<times> 32 word option) fmap"
  SrNetwork :: "SpecNetwork option"
  SrUnified :: "(string, string) fmap"

record SpecDevice =
  SpdPath :: string
  SpdType :: string
  SpdMajor :: int
  SpdMinor :: int
  SpdFileMode :: "32 word option"
  SpdUID :: "32 word option"
  SpdGID :: "32 word option"

record SpecIDMapping =
  SimContainerID :: "32 word"
  SimHostID :: "32 word"
  SimSize :: "32 word"

record SpecLinux =
  SlUIDMappings :: "SpecIDMapping list"
  SlGIDMappings :: "SpecIDMapping list"
  SlSysctl :: "(string, string) fmap"
  SlResources :: "SpecResources option"
  SlCgroupsPath :: string
  SlNamespaces :: "(string \<times> string) list"
  SlDevices :: "SpecDevice list"
  SlSeccomp :: "SpecSeccomp option"
  SlRootfsPropagation :: string
  SlMaskedPaths :: "string list"
  SlReadonlyPaths :: "string list"
  SlMountLabel :: string
  SlIntelRdt :: "IntelRdt option"

record SpecProcess =
  SpUID :: "32 word"
  SpUmask :: "32 word option"
  SpCapabilities :: "Capabilities option"
  SpNoNewPrivileges :: bool
  SpOOMScoreAdj :: "int option"
  SpSelinuxLabel :: string

record SpecHook =
  ShPath :: string
  ShArgs :: "string list"
  ShEnv :: "string list"
  ShTimeout :: "int option"

record SpecHooks =
  HkPrestart :: "SpecHook list"
  HkCreateRuntime :: "SpecHook list"
  HkCreateContainer :: "SpecHook list"
  HkStartContainer :: "SpecHook list"
  HkPoststart :: "SpecHook list"
  HkPoststop :: "SpecHook list"

record Spec =
  SRoot :: "(string \<times> bool) option"
  SHostname :: string
  SMounts :: "SpecMount list"
  SHooks :: "SpecHooks option"
  SAnnotations :: "(string, string) fmap"
  SLinux :: "SpecLinux option"
  SProcess :: "SpecProcess option"

record CreateOpts =
  CgroupName :: string
  UseSystemdCgroup :: bool
  NoPivotRoot :: bool
  NoNewKeyring :: bool
  OptSpec :: Spec
  RootlessEUIDOpt :: bool
  RootlessCgroups :: bool

datatype spec_error =
    SpecGetwd errno
  | SpecNoRoot
  | SpecMountErr mount_error
  | SpecDeviceType string
  | SpecCgroupDeviceType string
  | SpecEmptyAccess nat
  | SpecCgroupsPath string
  | SpecPropName string
  | SpecPropValue string
  | SpecIndexPanic
  | SpecRootPropagation string
  | SpecUnsafePropagation
  | SpecUnknownNamespace string
  | SpecDuplicateNamespace string
  | SpecMapping map_error
  | SpecSeccompErr seccomp_error

text \<open>Reading an optional field over a default value.\<close>

definition orElse :: "'a option \<Rightarrow> 'a \<Rightarrow> 'a" where
  "orElse x d = (case x of None \<Rightarrow> d | Some v \<Rightarrow> v)"

section \<open>Systemd properties\<close>

text \<open>
  The D-Bus values that the code distinguishes by their signature; the value of a double is kept
  abstract together with its product with one million, rounded as \<open>uint64(f * 1000000)\<close>.
\<close>

datatype 'd Variant =
    VarByte "8 word"
  | VarInt16 "16 word"
  | VarUint16 "16 word"
  | VarInt32 "32 word"
  | VarUint32 "32 word"
  | VarInt64 "64 word"
  | VarUint64 "64 word"
  | VarDouble 'd
  | VarOther string

definition checkPropertyName :: "string \<Rightarrow> bool" where
  "checkPropertyName s \<longleftrightarrow> 3 \<le> length s \<and>
     list_all (\<lambda>c. let n = (of_char c :: nat) in 65 \<le> n \<and> n \<le> 90 \<or> 97 \<le> n \<and> n \<le> 122) s"

definition convertSecToUSec :: "('d \<Rightarrow> 64 word) \<Rightarrow> 'd Variant \<Rightarrow> 'd Variant option" where
  "convertSecToUSec micros value = (case value of
       VarByte v \<Rightarrow> Some (VarUint64 (ucast v * 1000000))
     | VarInt16 v \<Rightarrow> Some (VarUint64 (scast v * 1000000))
     | VarUint16 v \<Rightarrow> Some (VarUint64 (ucast v * 1000000))
     | VarInt32 v \<Rightarrow> Some (VarUint64 (scast v * 1000000))
     | VarUint32 v \<Rightarrow> Some (VarUint64 (ucast v * 1000000))
     | VarInt64 v \<Rightarrow> Some (VarUint64 (v * 1000000))
     | VarUint64 v \<Rightarrow> Some (VarUint64 (v * 1000000))
     | VarDouble d \<Rightarrow> Some (VarUint64 (micros d))
     | VarOther _ \<Rightarrow> None)"

record 'd SystemdEnv =
  parseVariant :: "string \<Rightarrow> 'd Variant option"
  floatMicros :: "'d \<Rightarrow> 64 word"

definition TrimSuffix :: "string \<Rightarrow> string \<Rightarrow> string" where
  "TrimSuffix s suf = (if suffix suf s then take (length s - length suf) s else s)"

definition keyPrefix :: string where "keyPrefix = ''org.systemd.property.''"

definition systemdProp :: "'d SystemdEnv \<Rightarrow> string \<Rightarrow> string \<Rightarrow> (spec_error, 'd Variant SdProperty) result" where
  "systemdProp env name v =
     rguard (\<not> checkPropertyName name) (SpecPropName name)
       (case parseVariant env v of
          None \<Rightarrow> Inl (SpecPropValue v)
        | Some value \<Rightarrow>
            (let trimName = TrimSuffix name ''Sec''
             in if length trimName < length name
                then if trimName = [] then Inl SpecIndexPanic
                     else let ch = (of_char (last trimName) :: nat)
                          in if 97 \<le> ch \<and> ch \<le> 122
                             then (case convertSecToUSec (floatMicros env) value of
                                     None \<Rightarrow> Inl (SpecPropValue v)
                                   | Some usec \<Rightarrow> Inr \<lparr>SdName = trimName @ ''USec'', SdValue = usec\<rparr>)
                             else Inr \<lparr>SdName = name, SdValue = value\<rparr>
                else Inr \<lparr>SdName = name, SdValue = value\<rparr>))"

text \<open>Annotations are visited in ascending order of their keys; Go visits them in an unspecified order.\<close>

definition initSystemdProps :: "'d SystemdEnv \<Rightarrow> Spec \<Rightarrow> (spec_error, 'd Variant SdProperty list) result" where
  "initSystemdProps env spec =
     rmap (\<lambda>(k, v). systemdProp env (TrimPrefix k keyPrefix) v)
       (filter (\<lambda>(k, v). length (TrimPrefix k keyPrefix) \<noteq> length k) (sorted_list_of_fmap (SAnnotations spec)))"

section \<open>Devices\<close>

definition devRule :: "DevType \<Rightarrow> int \<Rightarrow> int \<Rightarrow> string \<Rightarrow> Rule" where
  "devRule t major minor perms = \<lparr>Type = t, Major = major, Minor = minor, Perms = perms, Allow = True\<rparr>"

definition allowRule :: "Rule \<Rightarrow> ConfigDevice" where
  "allowRule r = \<lparr>DevRule = r, DevPath = [], DevFileMode = 0, DevUid = 0, DevGid = 0\<rparr>"

definition allowNode :: "string \<Rightarrow> Rule \<Rightarrow> ConfigDevice" where
  "allowNode path r = \<lparr>DevRule = r, DevPath = path, DevFileMode = 438, DevUid = 0, DevGid = 0\<rparr>"

text \<open>The initial value of the global variable.\<close>

definition AllowedDevices :: "ConfigDevice list" where
  "AllowedDevices =
     [allowRule (devRule CharDevice Wildcard Wildcard ''m''),
      allowRule (devRule BlockDevice Wildcard Wildcard ''m''),
      allowNode ''/dev/null'' (devRule CharDevice 1 3 ''rwm''),
      allowNode ''/dev/random'' (devRule CharDevice 1 8 ''rwm''),
      allowNode ''/dev/full'' (devRule CharDevice 1 7 ''rwm''),
      allowNode ''/dev/tty'' (devRule CharDevice 5 0 ''rwm''),
      allowNode ''/dev/zero'' (devRule CharDevice 1 5 ''rwm''),
      allowNode ''/dev/urandom'' (devRule CharDevice 1 9 ''rwm''),
      allowRule (devRule CharDevice 136 Wildcard ''rwm''),
      allowRule (devRule CharDevice 5 2 ''rwm''),
      allowRule (devRule CharDevice 10 200 ''rwm'')]"

definition stringToCgroupDeviceRune :: "string \<Rightarrow> (spec_error, DevType) result" where
  "stringToCgroupDeviceRune s =
     (if s = ''a'' then Inr WildcardDevice else if s = ''b'' then Inr BlockDevice else if s = ''c'' then Inr CharDevice
      else Inl (SpecCgroupDeviceType s))"

definition stringToDeviceRune :: "string \<Rightarrow> (spec_error, DevType) result" where
  "stringToDeviceRune s =
     (if s = ''p'' then Inr FifoDevice else if s = ''u'' \<or> s = ''c'' then Inr CharDevice else if s = ''b'' then Inr BlockDevice
      else Inl (SpecDeviceType s))"

definition specDevices :: "Spec \<Rightarrow> SpecDevice list" where
  "specDevices spec = (case SLinux spec of None \<Rightarrow> [] | Some l \<Rightarrow> SlDevices l)"

text \<open>A default device is kept unless the specification has a device of the same path.\<close>

definition keptDefault :: "Spec \<Rightarrow> ConfigDevice \<Rightarrow> bool" where
  "keptDefault spec ad \<longleftrightarrow> \<not> (DevPath ad \<noteq> [] \<and> list_ex (\<lambda>sd. SpdPath sd = DevPath ad) (specDevices spec))"

definition convertDevice :: "SpecDevice \<Rightarrow> (spec_error, ConfigDevice) result" where
  "convertDevice d =
     rbind (stringToDeviceRune (SpdType d)) (\<lambda>dt.
       Inr \<lparr>DevRule = \<lparr>Type = dt, Major = SpdMajor d, Minor = SpdMinor d, Perms = [], Allow = False\<rparr>,
            DevPath = SpdPath d,
            DevFileMode = (case SpdFileMode d of None \<Rightarrow> 438 | Some m \<Rightarrow> m AND NOT 61440),
            DevUid = orElse (SpdUID d) 0, DevGid = orElse (SpdGID d) 0\<rparr>)"

text \<open>The kept default devices, and the devices of the configuration.\<close>

definition createDevices :: "ConfigDevice list \<Rightarrow> Spec \<Rightarrow> (spec_error, ConfigDevice list \<times> ConfigDevice list) result" where
  "createDevices allowed spec =
     (let deduped = filter (keptDefault spec) allowed
      in rbind (rmap convertDevice (specDevices spec)) (\<lambda>ds.
           Inr (deduped, filter (\<lambda>ad. DevPath ad \<noteq> []) deduped @ ds)))"

section \<open>Cgroups\<close>

definition cgroupRule :: "nat \<Rightarrow> SpecDeviceCgroup \<Rightarrow> (spec_error, Rule) result" where
  "cgroupRule i d =
     rguard (SdAccess d = []) (SpecEmptyAccess i)
       (rbind (stringToCgroupDeviceRune (if SdType d \<noteq> [] then SdType d else ''a'')) (\<lambda>dt.
         Inr \<lparr>Type = dt, Major = orElse (SdMajor d) (-1), Minor = orElse (SdMinor d) (-1), Perms = SdAccess d, Allow = SdAllow d\<rparr>))"

definition memoryResources :: "SpecMemory \<Rightarrow> Resources \<Rightarrow> Resources" where
  "memoryResources m r = r\<lparr>RMemory := orElse (MemLimit m) (RMemory r),
     RMemoryReservation := orElse (MemReservation m) (RMemoryReservation r), RMemorySwap := orElse (MemSwap m) (RMemorySwap r),
     RMemorySwappiness := (if MemSwappiness m \<noteq> None then MemSwappiness m else RMemorySwappiness r),
     ROomKillDisable := orElse (MemDisableOOMKiller m) (ROomKillDisable r)\<rparr>"

definition cpuResources :: "SpecCPU \<Rightarrow> Resources \<Rightarrow> Resources" where
  "cpuResources c r =
     (let r = (case CpuSharesOf c of None \<Rightarrow> r | Some s \<Rightarrow> r\<lparr>RCpuShares := s, RCpuWeight := ConvertCPUSharesToCgroupV2Value s\<rparr>)
      in r\<lparr>RCpuQuota := orElse (CpuQuotaOf c) (RCpuQuota r), RCpuPeriod := orElse (CpuPeriodOf c) (RCpuPeriod r),
           RCpuRtRuntime := orElse (CpuRtRuntimeOf c) (RCpuRtRuntime r), RCpuRtPeriod := orElse (CpuRtPeriodOf c) (RCpuRtPeriod r),
           RCpusetCpus := CpusOf c, RCpusetMems := MemsOf c\<rparr>)"

definition throttle :: "SpecThrottleDevice list \<Rightarrow> ThrottleDevice list" where
  "throttle tds = map (\<lambda>td. NewThrottleDevice (StMajor td) (StMinor td) (StRate td)) tds"

definition blockIOResources :: "SpecBlockIO \<Rightarrow> Resources \<Rightarrow> Resources" where
  "blockIOResources b r = r\<lparr>RBlkioWeight := orElse (BioWeight b) (RBlkioWeight r),
     RBlkioLeafWeight := orElse (BioLeafWeight b) (RBlkioLeafWeight r),
     RBlkioWeightDevice := RBlkioWeightDevice r @
       map (\<lambda>wd. NewWeightDevice (SwMajor wd) (SwMinor wd) (orElse (SwWeight wd) 0) (orElse (SwLeafWeight wd) 0)) (BioWeightDevice b),
     RThrottleReadBps := RThrottleReadBps r @ throttle (BioReadBps b), RThrottleWriteBps := RThrottleWriteBps r @ throttle (BioWriteBps b),
     RThrottleReadIOPS := RThrottleReadIOPS r @ throttle (BioReadIOPS b),
     RThrottleWriteIOPS := RThrottleWriteIOPS r @ throttle (BioWriteIOPS b)\<rparr>"

definition networkResources :: "SpecNetwork \<Rightarrow> Resources \<Rightarrow> Resources" where
  "networkResources n r = r\<lparr>RNetClsClassid := orElse (NetClassID n) (RNetClsClassid r),
     RNetPrioIfpriomap := RNetPrioIfpriomap r @
       map (\<lambda>(name, prio). \<lparr>PrioInterface = name, Priority = uint prio\<rparr>) (NetPriorities n)\<rparr>"

definition whenSome :: "('a \<Rightarrow> 'r \<Rightarrow> 'r) \<Rightarrow> 'a option \<Rightarrow> 'r \<Rightarrow> 'r" where
  "whenSome f x r = (case x of None \<Rightarrow> r | Some v \<Rightarrow> f v r)"

definition resourcesOf :: "SpecResources \<Rightarrow> Resources \<Rightarrow> Resources" where
  "resourcesOf s r =
     (let r = whenSome memoryResources (SrMemory s) r;
          r = whenSome cpuResources (SrCPU s) r;
          r = whenSome (\<lambda>limit r. r\<lparr>RPidsLimit := limit\<rparr>) (SrPids s) r;
          r = whenSome blockIOResources (SrBlockIO s) r;
          r = r\<lparr>RHugetlbLimit := RHugetlbLimit r @ map (\<lambda>(sz, l). \<lparr>Pagesize = sz, HugeLimit = l\<rparr>) (SrHugepageLimits s)\<rparr>;
          r = r\<lparr>RRdma := fmmap (\<lambda>(h, ob). \<lparr>HcaHandles = h, HcaObjects = ob\<rparr>) (SrRdma s)\<rparr>;
          r = whenSome networkResources (SrNetwork s) r
      in if SrUnified s \<noteq> fmempty then r\<lparr>RUnified := Some (SrUnified s)\<rparr> else r)"

definition specResources :: "Spec \<Rightarrow> SpecResources option" where
  "specResources spec = (case SLinux spec of None \<Rightarrow> None | Some l \<Rightarrow> SlResources l)"

definition cgroupNames :: "CreateOpts \<Rightarrow> 'v Cgroup \<Rightarrow> (spec_error, 'v Cgroup) result" where
  "cgroupNames opts c =
     (let path = (case SLinux (OptSpec opts) of None \<Rightarrow> [] | Some l \<Rightarrow> SlCgroupsPath l);
          myCgroupPath = (if path \<noteq> [] \<and> \<not> UseSystemdCgroup opts then CleanPath path else path)
      in if UseSystemdCgroup opts
         then if myCgroupPath = [] then Inr (c\<lparr>CgScopePrefix := ''runc'', CgName := CgroupName opts\<rparr>)
              else let parts = Split (CHR '':'') myCgroupPath
                   in rguard (length parts \<noteq> 3) (SpecCgroupsPath myCgroupPath)
                        (Inr (c\<lparr>CgParent := parts ! 0, CgScopePrefix := parts ! 1, CgName := parts ! 2\<rparr>))
         else Inr ((if myCgroupPath = [] then c\<lparr>CgName := CgroupName opts\<rparr> else c)\<lparr>CgPath := myCgroupPath\<rparr>))"

definition zeroCgroup :: "'v Cgroup" where
  "zeroCgroup = \<lparr>CgName = [], CgParent = [], CgPath = [], CgScopePrefix = [], CgResources = None, CgSystemd = False,
     CgSystemdProps = [], CgRootless = False, CgOwnerUID = None\<rparr>"

definition CreateCgroupConfig ::
  "'d SystemdEnv \<Rightarrow> CreateOpts \<Rightarrow> ConfigDevice list \<Rightarrow> (spec_error, 'd Variant Cgroup) result" where
  "CreateCgroupConfig env opts defaultDevs =
     rbind (if UseSystemdCgroup opts then initSystemdProps env (OptSpec opts) else Inr []) (\<lambda>sp.
     rbind (cgroupNames opts (zeroCgroup\<lparr>CgSystemd := UseSystemdCgroup opts, CgRootless := RootlessCgroups opts, CgSystemdProps := sp\<rparr>)) (\<lambda>c.
     rbind (case specResources (OptSpec opts) of
              None \<Rightarrow> Inr zeroResources
            | Some s \<Rightarrow>
                rbind (rmap (\<lambda>(i, d). cgroupRule i d) (enumerate 0 (SrDevices s))) (\<lambda>rules.
                  Inr (resourcesOf s (zeroResources\<lparr>RDevices := rules\<rparr>)))) (\<lambda>r.
       Inr (c\<lparr>CgResources := Some (r\<lparr>RDevices := RDevices r @ map DevRule defaultDevs\<rparr>)\<rparr>))))"

section \<open>User namespaces and hooks\<close>

definition createIDMap :: "SpecIDMapping \<Rightarrow> ConfigIDMap" where
  "createIDMap m = \<lparr>ContainerID = uint (SimContainerID m), HostID = uint (SimHostID m), MapSize = uint (SimSize m)\<rparr>"

text \<open>Appending no element to a nil slice leaves it nil.\<close>

definition appendMaps :: "ConfigIDMap list option \<Rightarrow> SpecIDMapping list \<Rightarrow> ConfigIDMap list option" where
  "appendMaps old ms = (if ms = [] then old else Some (mappingsOf old @ map createIDMap ms))"

definition ownDevice :: "int \<Rightarrow> int \<Rightarrow> ConfigDevice \<Rightarrow> ConfigDevice" where
  "ownDevice rootUID rootGID node = node\<lparr>DevUid := word_of_int rootUID, DevGid := word_of_int rootGID\<rparr>"

text \<open>
  The devices of the configuration are pointers, and the kept default devices among them are entries
  of the global list: the new owner is written to both.
\<close>

definition setupUserNamespace ::
  "Spec \<Rightarrow> ConfigDevice list \<Rightarrow> 'v Config \<Rightarrow> ConfigDevice list \<times> (spec_error, 'v Config) result" where
  "setupUserNamespace spec allowed config =
     (let (us, gs) = (case SLinux spec of None \<Rightarrow> ([], []) | Some l \<Rightarrow> (SlUIDMappings l, SlGIDMappings l));
          config = config\<lparr>CfUidMappings := appendMaps (CfUidMappings config) us, CfGidMappings := appendMaps (CfGidMappings config) gs\<rparr>
      in case HostRootUID config of
           Inl e \<Rightarrow> (allowed, Inl (SpecMapping e))
         | Inr rootUID \<Rightarrow>
             (case HostRootGID config of
                Inl e \<Rightarrow> (allowed, Inl (SpecMapping e))
              | Inr rootGID \<Rightarrow>
                  (map (\<lambda>ad. if keptDefault spec ad \<and> DevPath ad \<noteq> [] then ownDevice rootUID rootGID ad else ad) allowed,
                   Inr (config\<lparr>CfDevices := map (ownDevice rootUID rootGID) (CfDevices config)\<rparr>))))"

definition createCommandHook :: "SpecHook \<Rightarrow> Command" where
  "createCommandHook h = \<lparr>CmdPath = ShPath h, CmdArgs = ShArgs h, CmdEnv = ShEnv h, CmdDir = [],
     CmdTimeout = map_option (\<lambda>t. wrap64 (t * 1000000000)) (ShTimeout h)\<rparr>"

definition addHooks :: "string \<Rightarrow> SpecHook list \<Rightarrow> (string, Command list) fmap \<Rightarrow> (string, Command list) fmap" where
  "addHooks name hs m = (if hs = [] then m else fmupd name (fmget [] m name @ map createCommandHook hs) m)"

definition createHooks :: "Spec \<Rightarrow> (string, Command list) fmap" where
  "createHooks spec = (case SHooks spec of
       None \<Rightarrow> fmempty
     | Some h \<Rightarrow>
         addHooks ''poststop'' (HkPoststop h) (addHooks ''poststart'' (HkPoststart h) (addHooks ''startContainer'' (HkStartContainer h)
           (addHooks ''createContainer'' (HkCreateContainer h) (addHooks ''createRuntime'' (HkCreateRuntime h)
             (addHooks ''prestart'' (HkPrestart h) fmempty))))))"

section \<open>The configuration\<close>

definition addNamespace :: "string \<times> string \<Rightarrow> Namespaces \<Rightarrow> (spec_error, Namespaces) result" where
  "addNamespace ns n = (case map_of namespaceMapping (fst ns) of
       None \<Rightarrow> Inl (SpecUnknownNamespace (fst ns))
     | Some t \<Rightarrow> rguard (nsContains t n) (SpecDuplicateNamespace (fst ns)) (Inr (nsAdd t (snd ns) n)))"

definition loopback :: Network where
  "loopback = \<lparr>NetType = ''loopback'', NetName = [], NetBridge = [], NetMacAddress = [], NetAddress = [], NetGateway = [],
     NetIPv6Address = [], NetIPv6Gateway = [], NetMtu = 0, NetTxQueueLen = 0, NetHostInterfaceName = [], NetHairpinMode = False\<rparr>"

definition linuxNetwork :: "'v Config \<Rightarrow> 'v Config" where
  "linuxNetwork config =
     (if nsContains NEWNET (CfNamespaces config) \<and> PathOf NEWNET (CfNamespaces config) = []
      then config\<lparr>CfNetworks := [loopback]\<rparr> else config)"

text \<open>The settings that are copied from the Linux section.\<close>

definition linuxTail :: "SpecLinux \<Rightarrow> 'v Config \<Rightarrow> (spec_error, 'v Config) result" where
  "linuxTail l config =
     (let config = config\<lparr>CfMaskPaths := SlMaskedPaths l, CfReadonlyPaths := SlReadonlyPaths l, CfMountLabel := SlMountLabel l,
                          CfSysctl := SlSysctl l\<rparr>
      in case SetupSeccomp (SlSeccomp l) of
           Inl e \<Rightarrow> Inl (SpecSeccompErr e)
         | Inr seccomp \<Rightarrow>
             Inr (config\<lparr>CfSeccomp := seccomp,
                         CfIntelRdt := map_option (\<lambda>r. \<lparr>ClosID = ClosID r, L3CacheSchema = L3CacheSchema r, MemBwSchema = MemBwSchema r\<rparr>)
                                         (SlIntelRdt l)\<rparr>))"

definition linuxConfig ::
  "Spec \<Rightarrow> SpecLinux \<Rightarrow> ConfigDevice list \<Rightarrow> 'v Config \<Rightarrow> ConfigDevice list \<times> (spec_error, 'v Config) result" where
  "linuxConfig spec l allowed config = (case map_of mountPropagationMapping (SlRootfsPropagation l) of
       None \<Rightarrow> (allowed, Inl (SpecRootPropagation (SlRootfsPropagation l)))
     | Some prop \<Rightarrow>
         if CfNoPivotRoot config \<and> prop AND MS_PRIVATE \<noteq> 0 then (allowed, Inl SpecUnsafePropagation)
         else case rfold addNamespace (SlNamespaces l) (CfNamespaces config) of
           Inl e \<Rightarrow> (allowed, Inl e)
         | Inr n \<Rightarrow>
             (let config = linuxNetwork (config\<lparr>CfRootPropagation := prop, CfNamespaces := n\<rparr>)
              in if nsContains NEWUSER n
                 then (case setupUserNamespace spec allowed config of
                         (allowed', Inl e) \<Rightarrow> (allowed', Inl e)
                       | (allowed', Inr config) \<Rightarrow> (allowed', linuxTail l config))
                 else (allowed, linuxTail l config)))"

definition hasRwCgroupfs :: "ConfigMount list \<Rightarrow> bool" where
  "hasRwCgroupfs ms = list_ex (\<lambda>m. CmSource m = ''cgroup'' \<and> Clean (CmDestination m) = ''/sys/fs/cgroup'' \<and>
     CmFlags m AND MS_RDONLY = 0) ms"

definition cgroupOwner :: "Spec \<Rightarrow> 'v Config \<Rightarrow> 'v Config" where
  "cgroupOwner spec config =
     (let hasCgroupNS = (nsContains NEWCGROUP (CfNamespaces config) \<and> PathOf NEWCGROUP (CfNamespaces config) = []);
          processUid = (case SProcess spec of None \<Rightarrow> 0 | Some p \<Rightarrow> uint (SpUID p))
      in if hasCgroupNS \<and> hasRwCgroupfs (CfMounts config)
         then (case HostUID config processUid of
                 Inl _ \<Rightarrow> config
               | Inr ownerUid \<Rightarrow> config\<lparr>CfCgroups := map_option (\<lambda>c. c\<lparr>CgOwnerUID := Some ownerUid\<rparr>) (CfCgroups config)\<rparr>)
         else config)"

definition processConfig :: "SpecProcess \<Rightarrow> 'v Config \<Rightarrow> 'v Config" where
  "processConfig p config =
     (let config = config\<lparr>CfOomScoreAdj := SpOOMScoreAdj p, CfNoNewPrivileges := SpNoNewPrivileges p, CfUmask := SpUmask p,
                          CfProcessLabel := SpSelinuxLabel p\<rparr>
      in case SpCapabilities p of
           None \<Rightarrow> config
         | Some c \<Rightarrow> config\<lparr>CfCapabilities := Some \<lparr>Bounding = Bounding c, Effective = Effective c, Inheritable = Inheritable c,
                          Permitted = Permitted c, Ambient = Ambient c\<rparr>\<rparr>)"

definition finishConfig :: "string \<Rightarrow> Spec \<Rightarrow> 'v Config \<Rightarrow> 'v Config" where
  "finishConfig version spec config =
     (whenSome processConfig (SProcess spec) (cgroupOwner spec config))\<lparr>CfHooks := createHooks spec, CfVersion := version\<rparr>"

definition baseConfig :: "CreateOpts \<Rightarrow> string \<Rightarrow> string \<times> bool \<Rightarrow> 'v Config" where
  "baseConfig opts cwd root = zeroConfig\<lparr>
     CfRootfs := (if IsAbs (fst root) then fst root else JoinPath [cwd, fst root]), CfNoPivotRoot := NoPivotRoot opts,
     CfReadonlyfs := snd root, CfHostname := SHostname (OptSpec opts),
     CfLabels := annotationLabels (sorted_list_of_fmap (SAnnotations (OptSpec opts))) cwd,
     CfNoNewKeyring := NoNewKeyring opts, CfRootlessEUID := RootlessEUIDOpt opts, CfRootlessCgroups := RootlessCgroups opts\<rparr>"

text \<open>The steps before the Linux section; they do not write the global list.\<close>

definition specConfig ::
  "'d SystemdEnv \<Rightarrow> (errno, string) result \<Rightarrow> CreateOpts \<Rightarrow> ConfigDevice list \<Rightarrow> (spec_error, 'd Variant Config) result" where
  "specConfig env getwd opts allowed = (case getwd of
       Inl e \<Rightarrow> Inl (SpecGetwd e)
     | Inr rcwd \<Rightarrow>
         (let cwd = Clean rcwd; spec = OptSpec opts
          in case SRoot spec of
               None \<Rightarrow> Inl SpecNoRoot
             | Some root \<Rightarrow>
                 rbind (rmap (\<lambda>m. case createLibcontainerMount cwd m of Inl e \<Rightarrow> Inl (SpecMountErr e) | Inr cm \<Rightarrow> Inr cm) (SMounts spec)) (\<lambda>ms.
                 rbind (createDevices allowed spec) (\<lambda>(defaultDevs, devs).
                 rbind (CreateCgroupConfig env opts defaultDevs) (\<lambda>c.
                   Inr ((baseConfig opts cwd root)\<lparr>CfMounts := ms, CfDevices := devs, CfCgroups := Some c\<rparr>))))))"

definition CreateLibcontainerConfig ::
  "'d SystemdEnv \<Rightarrow> string \<Rightarrow> (errno, string) result \<Rightarrow> CreateOpts \<Rightarrow> ConfigDevice list \<Rightarrow>
   ConfigDevice list \<times> (spec_error, 'd Variant Config) result" where
  "CreateLibcontainerConfig env version getwd opts allowed = (case specConfig env getwd opts allowed of
       Inl e \<Rightarrow> (allowed, Inl e)
     | Inr config \<Rightarrow>
         (case (case SLinux (OptSpec opts) of None \<Rightarrow> (allowed, Inr config) | Some l \<Rightarrow> linuxConfig (OptSpec opts) l allowed config) of
            (allowed', Inl e) \<Rightarrow> (allowed', Inl e)
          | (allowed', Inr config) \<Rightarrow> (allowed', Inr (finishConfig version (OptSpec opts) config))))"

section \<open>Well-formed configurations\<close>

definition S_IFMT :: "32 word" where "S_IFMT = 61440"

definition mountWF :: "ConfigMount \<Rightarrow> bool" where
  "mountWF m \<longleftrightarrow> CHR 0x00 \<notin> set (CmSource m) \<union> set (CmDestination m) \<union> set (CmDevice m) \<and> (IsBind m \<longrightarrow> IsAbs (CmSource m))"

definition deviceWF :: "ConfigDevice \<Rightarrow> bool" where
  "deviceWF d \<longleftrightarrow> CanMknod (Type (DevRule d)) \<and> DevFileMode d AND S_IFMT = 0"

definition allowedWF :: "ConfigDevice list \<Rightarrow> bool" where
  "allowedWF ds \<longleftrightarrow> (\<forall>d \<in> set ds. deviceWF d \<and> CanCgroup (Type (DevRule d)))"

definition cgroupWF :: "'v Cgroup \<Rightarrow> bool" where
  "cgroupWF c \<longleftrightarrow> \<not> ((CgName c \<noteq> [] \<or> CgParent c \<noteq> []) \<and> CgPath c \<noteq> []) \<and>
     (\<exists>r. CgResources c = Some r \<and> (\<forall>rule \<in> set (RDevices r). CanCgroup (Type rule)))"

definition mapsWF :: "'v Config \<Rightarrow> bool" where
  "mapsWF c \<longleftrightarrow> (\<forall>m \<in> set (mappingsOf (CfUidMappings c)) \<union> set (mappingsOf (CfGidMappings c)). map32 m) \<and>
     (CfUidMappings c \<noteq> None \<or> CfGidMappings c \<noteq> None \<longrightarrow> nsContains NEWUSER (CfNamespaces c))"

definition namespacesWF :: "'v Config \<Rightarrow> bool" where
  "namespacesWF c \<longleftrightarrow> nsDistinct (CfNamespaces c) \<and> NsType ` set (CfNamespaces c) \<subseteq> set NamespaceTypes \<and>
     CfRoutes c = [] \<and> (CfNetworks c \<noteq> [] \<longrightarrow> nsContains NEWNET (CfNamespaces c))"

definition configWF :: "'v Config \<Rightarrow> bool" where
  "configWF c \<longleftrightarrow> IsAbs (CfRootfs c) \<and> (\<forall>m \<in> set (CfMounts c). mountWF m) \<and> (\<forall>d \<in> set (CfDevices c). deviceWF d) \<and>
     (\<exists>cg. CfCgroups c = Some cg \<and> cgroupWF cg) \<and> mapsWF c \<and> namespacesWF c"

lemmas wf_defs = configWF_def mapsWF_def namespacesWF_def

lemma AllowedDevices_WF: "allowedWF AllowedDevices"
  by (simp add: allowedWF_def AllowedDevices_def allowRule_def allowNode_def devRule_def deviceWF_def CanMknod_def CanCgroup_def
      S_IFMT_def CharDevice_def BlockDevice_def)

lemma rmap_elem: "rmap f xs = Inr ys \<Longrightarrow> y \<in> set ys \<Longrightarrow> \<exists>x \<in> set xs. f x = Inr y"
  unfolding rmap_Inr by (induction rule: list_all2_induct) auto

lemma convertDevice_WF: "convertDevice d = Inr c \<Longrightarrow> deviceWF c"
  by (auto simp: convertDevice_def result_simps deviceWF_def S_IFMT_def stringToDeviceRune_def CanMknod_def and.assoc
      split: option.splits if_splits)

lemma createDevices_WF:
  assumes "createDevices allowed spec = Inr (ds, devs)" and "allowedWF allowed"
  shows "(\<forall>d \<in> set devs. deviceWF d) \<and> (\<forall>d \<in> set ds. CanCgroup (Type (DevRule d)))"
proof -
  from assms(1) obtain cs where "rmap convertDevice (specDevices spec) = Inr cs"
    and "ds = filter (keptDefault spec) allowed" "devs = filter (\<lambda>ad. DevPath ad \<noteq> []) ds @ cs"
    by (auto simp: createDevices_def result_simps Let_def)
  then show ?thesis using assms(2) rmap_elem convertDevice_WF by (fastforce simp: allowedWF_def)
qed

lemma createMount_WF: "createLibcontainerMount cwd m = Inr c \<Longrightarrow> IsAbs cwd \<Longrightarrow> mountWF c"
proof -
  assume c: "createLibcontainerMount cwd m = Inr c" and "IsAbs cwd"
  then have abs: "IsAbs (JoinPath [cwd, s])" for s
    by (cases "s = []") (auto simp: JoinPath_def IsAbs_append)
  show ?thesis using c abs by (auto simp: mountWF_def createLibcontainerMount_def Let_def IsBind_def result_simps split: if_splits)
qed

lemma cgroupRule_WF: "cgroupRule i d = Inr r \<Longrightarrow> CanCgroup (Type r)"
  by (auto simp: cgroupRule_def result_simps stringToCgroupDeviceRune_def CanCgroup_def split: if_splits)

lemma resourcesOf_devices: "RDevices (resourcesOf s r) = RDevices r"
  by (simp add: resourcesOf_def Let_def whenSome_def memoryResources_def cpuResources_def blockIOResources_def networkResources_def
      split: option.splits)

lemma cgroupNames_WF:
  assumes "cgroupNames opts c = Inr c'" and "CgName c = []" "CgParent c = []" "CgPath c = []"
  shows "\<not> ((CgName c' \<noteq> [] \<or> CgParent c' \<noteq> []) \<and> CgPath c' \<noteq> [])"
  using assms by (auto simp: cgroupNames_def Let_def result_simps split: if_splits)

lemma CreateCgroupConfig_WF:
  assumes "CreateCgroupConfig env opts ds = Inr c" and "\<forall>d \<in> set ds. CanCgroup (Type (DevRule d))"
  shows "cgroupWF c"
proof -
  from assms(1) obtain sp c0 r where n: "cgroupNames opts (zeroCgroup\<lparr>CgSystemd := UseSystemdCgroup opts, CgRootless := RootlessCgroups opts,
      CgSystemdProps := sp\<rparr>) = Inr c0"
    and r: "(case specResources (OptSpec opts) of
              None \<Rightarrow> Inr zeroResources
            | Some s \<Rightarrow>
                rbind (rmap (\<lambda>(i, d). cgroupRule i d) (enumerate 0 (SrDevices s))) (\<lambda>rules.
                  Inr (resourcesOf s (zeroResources\<lparr>RDevices := rules\<rparr>)))) = Inr r"
    and c: "c = c0\<lparr>CgResources := Some (r\<lparr>RDevices := RDevices r @ map DevRule ds\<rparr>)\<rparr>"
    unfolding CreateCgroupConfig_def by (auto simp only: rbind_Inr_iff sum.inject)
  have "\<forall>rule \<in> set (RDevices r). CanCgroup (Type rule)"
  proof (cases "specResources (OptSpec opts)")
    case None
    with r show ?thesis by (auto simp: zeroResources_def)
  next
    case (Some s)
    with r obtain rules where rules: "rmap (\<lambda>(i, d). cgroupRule i d) (enumerate 0 (SrDevices s)) = Inr rules"
      and "r = resourcesOf s (zeroResources\<lparr>RDevices := rules\<rparr>)" by (auto simp: rbind_Inr_iff)
    then have "RDevices r = rules" by (simp add: resourcesOf_devices)
    then show ?thesis using rmap_elem [OF rules] cgroupRule_WF by fastforce
  qed
  with assms(2) c cgroupNames_WF [OF n] show ?thesis by (auto simp: cgroupWF_def zeroCgroup_def)
qed

lemma specConfig_WF:
  assumes "specConfig env getwd opts allowed = Inr c" and "allowedWF allowed" and "\<And>d. getwd = Inr d \<Longrightarrow> IsAbs d"
  shows "configWF c \<and> CfNamespaces c = [] \<and> CfUidMappings c = None \<and> CfGidMappings c = None"
proof -
  obtain rcwd root where g: "getwd = Inr rcwd" "SRoot (OptSpec opts) = Some root"
    using assms(1) by (auto simp: specConfig_def Let_def split: sum.splits option.splits)
  let ?mk = "\<lambda>m. case createLibcontainerMount (Clean rcwd) m of Inl e \<Rightarrow> Inl (SpecMountErr e) | Inr cm \<Rightarrow> Inr cm"
  obtain ms ds devs cg where ms: "rmap ?mk (SMounts (OptSpec opts)) = Inr ms"
    and dv: "createDevices allowed (OptSpec opts) = Inr (ds, devs)" and cg: "CreateCgroupConfig env opts ds = Inr cg"
    and c: "c = (baseConfig opts (Clean rcwd) root)\<lparr>CfMounts := ms, CfDevices := devs, CfCgroups := Some cg\<rparr>"
    using assms(1) g unfolding specConfig_def by (auto simp add: Let_def rbind_Inr_iff split: prod.splits)
  have abs: "IsAbs (Clean rcwd)" using assms(3) g by simp
  then have root: "IsAbs (CfRootfs (baseConfig opts (Clean rcwd) root))"
    by (cases "fst root = []") (auto simp: baseConfig_def JoinPath_def IsAbs_append)
  have "mountWF m" if mm: "m \<in> set ms" for m
  proof -
    obtain x where "?mk x = Inr m" using rmap_elem [OF ms mm] by blast
    then have "createLibcontainerMount (Clean rcwd) x = Inr m" by (cases "createLibcontainerMount (Clean rcwd) x") simp_all
    then show ?thesis using abs by (rule createMount_WF)
  qed
  with createDevices_WF [OF dv assms(2)] CreateCgroupConfig_WF [OF cg] root show ?thesis
    unfolding c wf_defs by (simp add: baseConfig_def zeroConfig_def mappingsOf_def nsDistinct_def)
qed

lemma addNamespace_Inr:
  assumes "addNamespace ns n = Inr n'"
  obtains t where "map_of namespaceMapping (fst ns) = Some t" "\<not> nsContains t n" "n' = nsAdd t (snd ns) n"
  using assms by (auto simp: addNamespace_def result_simps split: option.splits)

lemma namespaceMapping_types: "map_of namespaceMapping s = Some t \<Longrightarrow> t \<in> set NamespaceTypes"
  by (drule map_of_SomeD) (auto simp: namespaceMapping_def NamespaceTypes_def)

lemma nsAdd_types: "NsType ` set (nsAdd t p n) \<subseteq> insert t (NsType ` set n)"
proof (cases "nsIndex t n")
  case (Some i)
  then have "i < length n" using nsIndex_Some by blast
  then have "NsType ` set (n[i := (n ! i)\<lparr>NsPath := p\<rparr>]) \<subseteq> NsType ` insert ((n ! i)\<lparr>NsPath := p\<rparr>) (set n)"
    by (intro image_mono set_update_subset_insert)
  with Some \<open>i < length n\<close> show ?thesis by (auto simp: nsAdd_def)
qed (simp add: nsAdd_def)

lemma addNamespaces_WF:
  assumes "rfold addNamespace nss n = Inr n'" and "nsDistinct n" "NsType ` set n \<subseteq> set NamespaceTypes"
  shows "nsDistinct n' \<and> NsType ` set n' \<subseteq> set NamespaceTypes"
proof (rule rfold_invariant [where I = "\<lambda>n. nsDistinct n \<and> NsType ` set n \<subseteq> set NamespaceTypes", OF assms(1)])
  fix ns :: "string \<times> string" and n n' :: Namespaces
  assume n: "nsDistinct n \<and> NsType ` set n \<subseteq> set NamespaceTypes" and "addNamespace ns n = Inr n'"
  then obtain t where t: "map_of namespaceMapping (fst ns) = Some t" "n' = nsAdd t (snd ns) n" by (elim addNamespace_Inr)
  have "t \<in> set NamespaceTypes" by (rule namespaceMapping_types [OF t(1)])
  with n t(2) ns_list.add_inv nsAdd_types [of t "snd ns" n] show "nsDistinct n' \<and> NsType ` set n' \<subseteq> set NamespaceTypes" by blast
qed (use assms in blast)

text \<open>The table of namespaces a specification asks for.\<close>

definition specTable :: "(string \<times> string) list \<Rightarrow> NamespaceType \<Rightarrow> string option" where
  "specTable nss = map_of (map (\<lambda>(s, p). (the (map_of namespaceMapping s), p)) nss)"

lemma addNamespaces_table:
  "rfold addNamespace nss n = Inr n' \<Longrightarrow> nsMap n' = specTable nss ++ nsMap n"
proof (induction nss arbitrary: n)
  case (Cons ns nss)
  then obtain n1 where s: "addNamespace ns n = Inr n1" and r: "rfold addNamespace nss n1 = Inr n'" by (auto simp: result_simps)
  from s obtain t where t: "map_of namespaceMapping (fst ns) = Some t" "\<not> nsContains t n" "n1 = nsAdd t (snd ns) n"
    by (rule addNamespace_Inr)
  have "nsMap n t = None" using t(2) by (simp add: ns_list.contains_view)
  then show ?case
    using Cons.IH [OF r] t by (auto simp: specTable_def ns_list.add_view case_prod_unfold map_add_def fun_eq_iff split: option.splits)
qed (simp add: specTable_def)

lemma createIDMap_32: "map32 (createIDMap m)"
proof -
  have "uint w < 2 ^ 32" for w :: "32 word" using uint_lt2p [of w] by simp
  then show ?thesis by (simp add: map32_def createIDMap_def)
qed

lemma ownDevice_WF: "deviceWF (ownDevice u g d) = deviceWF d" "DevRule (ownDevice u g d) = DevRule d" "DevPath (ownDevice u g d) = DevPath d"
  by (simp_all add: ownDevice_def deviceWF_def)

lemma setupUserNamespace_WF:
  assumes "setupUserNamespace spec allowed c = (allowed', r)" and "allowedWF allowed"
  shows "allowedWF allowed' \<and> (\<forall>c'. r = Inr c' \<longrightarrow> configWF c \<longrightarrow> nsContains NEWUSER (CfNamespaces c) \<longrightarrow>
    configWF c' \<and> CfNamespaces c' = CfNamespaces c)"
proof -
  obtain us gs where ug: "(case SLinux spec of None \<Rightarrow> ([], []) | Some l \<Rightarrow> (SlUIDMappings l, SlGIDMappings l)) = (us, gs)" by fastforce
  have m: "set (mappingsOf (appendMaps old ms)) \<subseteq> set (mappingsOf old) \<union> Collect map32" for old ms
    using createIDMap_32 by (auto simp: appendMaps_def mappingsOf_def)
  let ?c = "c\<lparr>CfUidMappings := appendMaps (CfUidMappings c) us, CfGidMappings := appendMaps (CfGidMappings c) gs\<rparr>"
  have maps: "mapsWF ?c" if "mapsWF c" "nsContains NEWUSER (CfNamespaces c)"
    using that m [of "CfUidMappings c" us] m [of "CfGidMappings c" gs] by (auto simp: mapsWF_def)
  show ?thesis
  proof (cases "HostRootUID ?c")
    case (Inl e)
    with assms ug show ?thesis by (auto simp: setupUserNamespace_def)
  next
    case u: (Inr u)
    show ?thesis
    proof (cases "HostRootGID ?c")
      case (Inl e)
      with assms ug u show ?thesis by (auto simp: setupUserNamespace_def)
    next
      case (Inr g)
      with assms ug u have a: "allowed' = map (\<lambda>ad. if keptDefault spec ad \<and> DevPath ad \<noteq> [] then ownDevice u g ad else ad) allowed"
        and r: "r = Inr (?c\<lparr>CfDevices := map (ownDevice u g) (CfDevices ?c)\<rparr>)" by (auto simp: setupUserNamespace_def)
      have "allowedWF allowed'" using assms(2) by (auto simp: a allowedWF_def ownDevice_WF)
      with maps show ?thesis by (auto simp: r configWF_def mapsWF_def namespacesWF_def ownDevice_WF)
    qed
  qed
qed

text \<open>Well-formedness only looks at some fields.\<close>

lemma configWF_frame:
  "CfRootfs c' = CfRootfs c \<Longrightarrow> CfMounts c' = CfMounts c \<Longrightarrow> CfDevices c' = CfDevices c \<Longrightarrow> CfCgroups c' = CfCgroups c \<Longrightarrow>
   CfUidMappings c' = CfUidMappings c \<Longrightarrow> CfGidMappings c' = CfGidMappings c \<Longrightarrow> CfNamespaces c' = CfNamespaces c \<Longrightarrow>
   CfRoutes c' = CfRoutes c \<Longrightarrow> CfNetworks c' = CfNetworks c \<Longrightarrow> configWF c \<Longrightarrow> configWF c'"
  unfolding wf_defs by simp

lemma linuxTail_WF:
  assumes "linuxTail l c = Inr c'" and "configWF c"
  shows "configWF c' \<and> CfNamespaces c' = CfNamespaces c"
proof -
  obtain s where "SetupSeccomp (SlSeccomp l) = Inr s"
    using assms(1) by (cases "SetupSeccomp (SlSeccomp l)") (simp_all add: linuxTail_def)
  with assms(1) have c': "c' = c\<lparr>CfMaskPaths := SlMaskedPaths l, CfReadonlyPaths := SlReadonlyPaths l, CfMountLabel := SlMountLabel l,
      CfSysctl := SlSysctl l, CfSeccomp := s,
      CfIntelRdt := map_option (\<lambda>r. \<lparr>ClosID = ClosID r, L3CacheSchema = L3CacheSchema r, MemBwSchema = MemBwSchema r\<rparr>) (SlIntelRdt l)\<rparr>"
    by (simp add: linuxTail_def)
  have "configWF c'" by (rule configWF_frame [OF _ _ _ _ _ _ _ _ _ assms(2)]) (simp_all add: c')
  then show ?thesis by (simp add: c')
qed

lemma linuxNetwork_WF: "configWF c \<Longrightarrow> configWF (linuxNetwork c) \<and> CfNamespaces (linuxNetwork c) = CfNamespaces c"
  by (auto simp: linuxNetwork_def wf_defs)

lemma linuxConfig_WF:
  assumes "linuxConfig spec l allowed c = (allowed', r)" and "allowedWF allowed" and "configWF c"
    and "CfNamespaces c = []" "CfUidMappings c = None" "CfGidMappings c = None"
  shows "allowedWF allowed' \<and> (\<forall>c'. r = Inr c' \<longrightarrow> configWF c' \<and> nsMap (CfNamespaces c') = specTable (SlNamespaces l))"
proof (cases "map_of mountPropagationMapping (SlRootfsPropagation l)")
  case None
  with assms show ?thesis by (auto simp: linuxConfig_def)
next
  case pr: (Some pf)
  show ?thesis
  proof (cases "CfNoPivotRoot c \<and> pf AND MS_PRIVATE \<noteq> 0 \<or> (\<exists>e. rfold addNamespace (SlNamespaces l) (CfNamespaces c) = Inl e)")
    case True
    then have "allowed' = allowed \<and> (\<exists>e. r = Inl e)"
      using assms(1) pr by (auto simp: linuxConfig_def split: if_splits)
    with assms(2) show ?thesis by auto
  next
    case False
    then obtain n where n: "rfold addNamespace (SlNamespaces l) (CfNamespaces c) = Inr n"
      by (cases "rfold addNamespace (SlNamespaces l) (CfNamespaces c)") auto
    let ?c = "linuxNetwork (c\<lparr>CfRootPropagation := pf, CfNamespaces := n\<rparr>)"
    have nwf: "nsDistinct n" "NsType ` set n \<subseteq> set NamespaceTypes"
      using addNamespaces_WF [OF n] assms(4) by (auto simp: nsDistinct_def)
    have tab: "nsMap n = specTable (SlNamespaces l)"
      using addNamespaces_table [OF n] assms(4) by (simp add: nsMap_def)
    have "CfNetworks c = []" using assms(3,4) by (auto simp: wf_defs nsContains_def)
    then have w: "configWF (c\<lparr>CfRootPropagation := pf, CfNamespaces := n\<rparr>)" using assms(3,5,6) nwf by (auto simp: wf_defs)
    have c: "configWF ?c" "CfNamespaces ?c = n" using linuxNetwork_WF [OF w] by simp_all
    show ?thesis
    proof (cases "nsContains NEWUSER n")
      case True
      obtain a1 r1 where su: "setupUserNamespace spec allowed ?c = (a1, r1)" by fastforce
      note wf = setupUserNamespace_WF [OF su assms(2)]
      show ?thesis
      proof (cases r1)
        case (Inl e)
        with assms(1) pr False n True su wf show ?thesis by (auto simp: linuxConfig_def Let_def)
      next
        case (Inr c1)
        with assms(1) pr False n True su have e: "allowed' = a1" "r = linuxTail l c1" by (auto simp: linuxConfig_def Let_def)
        have "configWF c1" "CfNamespaces c1 = n" using wf Inr c True by auto
        with e wf tab linuxTail_WF show ?thesis by metis
      qed
    next
      case notUser: False
      with assms(1) pr False n have "allowed' = allowed" "r = linuxTail l ?c" by (auto simp: linuxConfig_def Let_def)
      with assms(2) c tab linuxTail_WF show ?thesis by metis
    qed
  qed
qed

lemma cgroupOwner_WF: "configWF c \<Longrightarrow> configWF (cgroupOwner spec c) \<and> CfNamespaces (cgroupOwner spec c) = CfNamespaces c"
proof -
  assume c: "configWF c"
  then obtain cg where cg: "CfCgroups c = Some cg" "cgroupWF cg" by (auto simp: configWF_def)
  have "configWF (c\<lparr>CfCgroups := map_option (\<lambda>c. c\<lparr>CgOwnerUID := Some u\<rparr>) (CfCgroups c)\<rparr>)" for u
    using c cg by (simp add: wf_defs cgroupWF_def)
  with c show ?thesis by (simp add: cgroupOwner_def Let_def split: sum.split)
qed

lemma processConfig_frame:
  "CfRootfs (processConfig p c) = CfRootfs c" "CfMounts (processConfig p c) = CfMounts c" "CfDevices (processConfig p c) = CfDevices c"
  "CfCgroups (processConfig p c) = CfCgroups c" "CfUidMappings (processConfig p c) = CfUidMappings c"
  "CfGidMappings (processConfig p c) = CfGidMappings c" "CfNamespaces (processConfig p c) = CfNamespaces c"
  "CfRoutes (processConfig p c) = CfRoutes c" "CfNetworks (processConfig p c) = CfNetworks c"
  by (simp_all add: processConfig_def Let_def split: option.split)

lemma finishConfig_WF: "configWF c \<Longrightarrow> configWF (finishConfig v spec c) \<and> CfNamespaces (finishConfig v spec c) = CfNamespaces c"
proof -
  assume "configWF c"
  then have o: "configWF (cgroupOwner spec c)" "CfNamespaces (cgroupOwner spec c) = CfNamespaces c" using cgroupOwner_WF by auto
  have "configWF (finishConfig v spec c)"
    by (rule configWF_frame [OF _ _ _ _ _ _ _ _ _ o(1)])
      (simp_all add: finishConfig_def whenSome_def processConfig_frame split: option.split)
  with o(2) show ?thesis by (simp add: finishConfig_def whenSome_def processConfig_frame split: option.split)
qed

lemma CreateLibcontainerConfig_configWF:
  assumes "CreateLibcontainerConfig env version getwd opts allowed = (allowed', Inr c)"
    and "allowedWF allowed" and "\<And>d. getwd = Inr d \<Longrightarrow> IsAbs d"
  shows "configWF c \<and> allowedWF allowed' \<and>
    (\<forall>l. SLinux (OptSpec opts) = Some l \<longrightarrow> nsMap (CfNamespaces c) = specTable (SlNamespaces l))"
proof -
  obtain c0 where c0: "specConfig env getwd opts allowed = Inr c0"
    using assms(1) by (cases "specConfig env getwd opts allowed") (simp_all add: CreateLibcontainerConfig_def)
  note w0 = specConfig_WF [OF c0 assms(2,3)]
  obtain c1 where l: "(case SLinux (OptSpec opts) of None \<Rightarrow> (allowed, Inr c0) | Some l \<Rightarrow> linuxConfig (OptSpec opts) l allowed c0) = (allowed', Inr c1)"
    and c: "c = finishConfig version (OptSpec opts) c1"
    using assms(1) c0 by (auto simp: CreateLibcontainerConfig_def split: prod.splits sum.splits)
  show ?thesis
  proof (cases "SLinux (OptSpec opts)")
    case None
    with l c w0 assms(2) finishConfig_WF [of c1] show ?thesis by simp
  next
    case (Some sl)
    with l have "linuxConfig (OptSpec opts) sl allowed c0 = (allowed', Inr c1)" by simp
    from linuxConfig_WF [OF this assms(2)] w0 have "allowedWF allowed'" "configWF c1" "nsMap (CfNamespaces c1) = specTable (SlNamespaces sl)"
      by auto
    with Some c finishConfig_WF [of c1] show ?thesis by simp
  qed
qed

text \<open>
  C9.  Every configuration made from a specification is well formed, whatever the specification says: an
  absolute root, mounts without null bytes and bind mounts with absolute sources, devices of types
  that can be created and whose mode carries no type bits, cgroup rules of types that the cgroup
  understands, a cgroup given by path or by name but not both, id mappings of 32-bit numbers and only
  with a user namespace, and every namespace at most once.  The shared list of default devices stays
  well formed, so this also holds for every later conversion.
\<close>

theorem CreateLibcontainerConfig_WF:
  assumes "CreateLibcontainerConfig env version getwd opts allowed = (allowed', Inr c)"
    and "allowedWF allowed" and "\<And>d. getwd = Inr d \<Longrightarrow> IsAbs d"
  shows "configWF c \<and> allowedWF allowed' \<and>
    (\<forall>l. SLinux (OptSpec opts) = Some l \<longrightarrow> nsMap (CfNamespaces c) = specTable (SlNamespaces l))"
  using CreateLibcontainerConfig_configWF [OF assms] .

definition exampleOpts :: "CreateOpts" where
  "exampleOpts = \<lparr>CgroupName = ''c1'', UseSystemdCgroup = False, NoPivotRoot = False, NoNewKeyring = False,
     OptSpec = \<lparr>SRoot = Some (''rootfs'', False), SHostname = ''box'',
       SMounts = [\<lparr>SmDestination = ''/data'', SmType = ''bind'', SmSource = ''data'', SmOptions = [''bind'', ''ro'']\<rparr>],
       SHooks = None, SAnnotations = fmempty,
       SLinux = Some \<lparr>SlUIDMappings = [\<lparr>SimContainerID = 0, SimHostID = 100000, SimSize = 65536\<rparr>],
         SlGIDMappings = [\<lparr>SimContainerID = 0, SimHostID = 100000, SimSize = 65536\<rparr>], SlSysctl = fmempty, SlResources = None,
         SlCgroupsPath = ''/pod/c1'', SlNamespaces = [(''pid'', []), (''network'', []), (''user'', [])], SlDevices = [], SlSeccomp = None,
         SlRootfsPropagation = [], SlMaskedPaths = [''/proc/kcore''], SlReadonlyPaths = [''/proc/sys''], SlMountLabel = [],
         SlIntelRdt = None\<rparr>,
       SProcess = None\<rparr>,
     RootlessEUIDOpt = False, RootlessCgroups = False\<rparr>"

definition noSystemd :: "unit SystemdEnv" where
  "noSystemd = \<lparr>parseVariant = (\<lambda>_. None), floatMicros = (\<lambda>_. 0)\<rparr>"

definition exampleResult :: "ConfigDevice list \<times> (spec_error, unit Variant Config) result" where
  "exampleResult = CreateLibcontainerConfig noSystemd ''1.0.2'' (Inr ''/run/b'') exampleOpts AllowedDevices"

theorem CreateLibcontainerConfig_WF_witness:
  "\<exists>allowed' c. exampleResult = (allowed', Inr c) \<and> CfRootfs c = ''/run/b/rootfs'' \<and> length (CfDevices c) = 6 \<and> configWF c \<and>
     allowedWF allowed' \<and> nsMap (CfNamespaces c) = specTable [(''pid'', []), (''network'', []), (''user'', [])]"
proof -
  have "case snd exampleResult of Inl _ \<Rightarrow> False | Inr c \<Rightarrow> CfRootfs c = ''/run/b/rootfs'' \<and> length (CfDevices c) = 6" by code_simp
  then obtain c where c: "snd exampleResult = Inr c" "CfRootfs c = ''/run/b/rootfs''" "length (CfDevices c) = 6" by (auto split: sum.splits)
  then obtain allowed' where r: "exampleResult = (allowed', Inr c)" by (metis prod.collapse)
  have "IsAbs ''/run/b''" by code_simp
  then have "configWF c \<and> allowedWF allowed' \<and>
      (\<forall>l. SLinux (OptSpec exampleOpts) = Some l \<longrightarrow> nsMap (CfNamespaces c) = specTable (SlNamespaces l))"
    by (intro CreateLibcontainerConfig_WF [OF r [unfolded exampleResult_def] AllowedDevices_WF]) simp_all
  with c r show ?thesis by (auto simp: exampleOpts_def)
qed

section \<open>Labels\<close>

lemma linuxNetwork_labels [simp]: "CfLabels (linuxNetwork c) = CfLabels c"
  by (simp add: linuxNetwork_def)

lemma linuxTail_labels: "linuxTail l c = Inr c' \<Longrightarrow> CfLabels c' = CfLabels c"
  by (cases "SetupSeccomp (SlSeccomp l)") (auto simp: linuxTail_def)

lemma setupUserNamespace_labels: "setupUserNamespace spec al c = (al', Inr c') \<Longrightarrow> CfLabels c' = CfLabels c"
  unfolding setupUserNamespace_def Let_def
  by (cases "SLinux spec") (auto split: sum.splits)

lemma linuxConfig_labels:
  assumes "linuxConfig spec l al c = (al', Inr c')"
  shows "CfLabels c' = CfLabels c"
proof -
  obtain q where q: "map_of mountPropagationMapping (SlRootfsPropagation l) = Some q" "\<not> (CfNoPivotRoot c \<and> q AND MS_PRIVATE \<noteq> 0)"
    using assms by (auto simp: linuxConfig_def split: option.splits if_splits)
  obtain n where n: "rfold addNamespace (SlNamespaces l) (CfNamespaces c) = Inr n"
    using assms q by (cases "rfold addNamespace (SlNamespaces l) (CfNamespaces c)") (simp_all add: linuxConfig_def)
  let ?c = "linuxNetwork (c\<lparr>CfRootPropagation := q, CfNamespaces := n\<rparr>)"
  show ?thesis
  proof (cases "nsContains NEWUSER n")
    case True
    obtain a1 r where s: "setupUserNamespace spec al ?c = (a1, r)" by fastforce
    with assms q n True obtain c1 where "r = Inr c1" "linuxTail l c1 = Inr c'"
      by (cases r) (simp_all add: linuxConfig_def)
    with s show ?thesis using linuxTail_labels setupUserNamespace_labels by fastforce
  next
    case False
    with assms q n have "linuxTail l ?c = Inr c'" by (simp add: linuxConfig_def)
    then show ?thesis using linuxTail_labels by fastforce
  qed
qed

lemma cgroupOwner_labels: "CfLabels (cgroupOwner spec c) = CfLabels c"
  by (simp add: cgroupOwner_def Let_def split: sum.split)

lemma processConfig_labels: "CfLabels (processConfig p c) = CfLabels c"
  by (simp add: processConfig_def Let_def split: option.split)

lemma finishConfig_labels: "CfLabels (finishConfig v spec c) = CfLabels c"
  by (simp add: finishConfig_def whenSome_def processConfig_labels cgroupOwner_labels split: option.split)

lemma specConfig_labels:
  assumes "specConfig env (Inr d) opts al = Inr c"
  shows "CfLabels c = annotationLabels (sorted_list_of_fmap (SAnnotations (OptSpec opts))) (Clean d)"
proof -
  obtain root where "SRoot (OptSpec opts) = Some root"
    using assms by (cases "SRoot (OptSpec opts)") (simp_all add: specConfig_def Let_def)
  with assms obtain ms devs cg where "c = (baseConfig opts (Clean d) root)\<lparr>CfMounts := ms, CfDevices := devs, CfCgroups := cg\<rparr>"
    by (auto simp: specConfig_def Let_def rbind_Inr_iff split: prod.splits)
  then show ?thesis by (simp add: baseConfig_def)
qed

text \<open>
  The annotations survive the conversion: when no annotation key contains an equals sign or is the
  word \<open>bundle\<close>, reading the labels of the configuration back gives the bundle directory and exactly the
  annotations of the specification.
\<close>

theorem CreateLibcontainerConfig_labels:
  assumes "CreateLibcontainerConfig env version (Inr d) opts al = (al', Inr c)"
    and "\<And>k. k |\<in>| fmdom (SAnnotations (OptSpec opts)) \<Longrightarrow> CHR ''='' \<notin> set k \<and> k \<noteq> ''bundle''"
  shows "Annotations (CfLabels c) = (Clean d, SAnnotations (OptSpec opts))"
proof -
  obtain c0 where c0: "specConfig env (Inr d) opts al = Inr c0"
    using assms(1) by (cases "specConfig env (Inr d) opts al") (simp_all add: CreateLibcontainerConfig_def)
  obtain a1 r1 where l: "(case SLinux (OptSpec opts) of None \<Rightarrow> (al, Inr c0) | Some l \<Rightarrow> linuxConfig (OptSpec opts) l al c0) = (a1, r1)"
    by fastforce
  with assms(1) c0 obtain c1 where r1: "r1 = Inr c1" and c: "c = finishConfig version (OptSpec opts) c1"
    by (cases r1) (simp_all add: CreateLibcontainerConfig_def)
  from l r1 have "CfLabels c1 = CfLabels c0"
    using linuxConfig_labels by (cases "SLinux (OptSpec opts)") auto
  then have "CfLabels c = annotationLabels (sorted_list_of_fmap (SAnnotations (OptSpec opts))) (Clean d)"
    using c specConfig_labels [OF c0] by (simp add: finishConfig_labels)
  moreover have "\<forall>(k, v) \<in> set (sorted_list_of_fmap (SAnnotations (OptSpec opts))). CHR ''='' \<notin> set k \<and> k \<noteq> ''bundle''"
    using assms(2) by (auto simp: sorted_list_of_fmap_def)
  ultimately show ?thesis
    using Annotations_labels [OF distinct_sorted_list_of_fmap] by (auto intro!: prod_eqI fmap_ext)
qed

definition annotatedOpts :: CreateOpts where
  "annotatedOpts = exampleOpts\<lparr>OptSpec := (OptSpec exampleOpts)\<lparr>SAnnotations := fmap_of_list [(''b'', ''2=3''), (''a'', ''1'')]\<rparr>\<rparr>"

theorem CreateLibcontainerConfig_labels_witness:
  "\<exists>al c. CreateLibcontainerConfig noSystemd ''1.0.2'' (Inr ''/run//b'') annotatedOpts AllowedDevices = (al, Inr c) \<and>
     CfLabels c = [''a=1'', ''b=2=3'', ''bundle=/run/b''] \<and>
     Annotations (CfLabels c) = (''/run/b'', fmap_of_list [(''b'', ''2=3''), (''a'', ''1'')])"
proof -
  have "case CreateLibcontainerConfig noSystemd ''1.0.2'' (Inr ''/run//b'') annotatedOpts AllowedDevices of
      (_, Inl _) \<Rightarrow> False | (_, Inr c) \<Rightarrow> CfLabels c = [''a=1'', ''b=2=3'', ''bundle=/run/b'']" by code_simp
  then obtain al c where r: "CreateLibcontainerConfig noSystemd ''1.0.2'' (Inr ''/run//b'') annotatedOpts AllowedDevices = (al, Inr c)"
    and "CfLabels c = [''a=1'', ''b=2=3'', ''bundle=/run/b'']" by (auto split: prod.splits sum.splits)
  moreover have "Annotations (CfLabels c) = (Clean ''/run//b'', SAnnotations (OptSpec annotatedOpts))"
    by (rule CreateLibcontainerConfig_labels [OF r]) (auto simp: annotatedOpts_def split: if_splits)
  moreover have "Clean ''/run//b'' = ''/run/b''" by code_simp
  ultimately show ?thesis by (simp add: annotatedOpts_def)
qed

section \<open>Checks that a converted configuration passes\<close>

text \<open>
  Of the checks of the validator, a converted configuration always passes those that only relate
  its own fields: it has networks only with a network namespace, id mappings only with a user
  namespace, and a cgroup path only without a cgroup name.
\<close>

theorem CreateLibcontainerConfig_validates:
  assumes "CreateLibcontainerConfig env version getwd opts AllowedDevices = (allowed, Inr c)" and "\<And>d. getwd = Inr d \<Longrightarrow> IsAbs d"
  shows "checkNetwork c = Inr () \<and> checkUsernamespace venv c \<noteq> Inl VMappingsWithoutUserNs \<and> checkCgroups venv c \<noteq> Inl VCgroupPath"
proof -
  have "configWF c" using CreateLibcontainerConfig_configWF [OF assms(1) AllowedDevices_WF assms(2)] by simp
  then obtain cg where "CfCgroups c = Some cg" "cgroupWF cg" "mapsWF c" "namespacesWF c" by (auto simp: configWF_def)
  moreover from this have "checkNetwork c = Inr ()" by (auto simp: checkNetwork_def namespacesWF_def rguard_def)
  moreover from calculation have "checkUsernamespace venv c \<noteq> Inl VMappingsWithoutUserNs"
    by (auto simp: checkUsernamespace_def mapsWF_def rguard_def)
  moreover from calculation have "checkCgroups venv c \<noteq> Inl VCgroupPath"
    by (auto simp: checkCgroups_def cgroupWF_def rguard_def split: option.splits sum.splits)
  ultimately show ?thesis by simp
qed

theorem CreateLibcontainerConfig_validates_witness:
  "\<exists>al c. exampleResult = (al, Inr c) \<and> CfNetworks c \<noteq> [] \<and> CfUidMappings c \<noteq> None \<and> checkNetwork c = Inr ()"
proof -
  have "case snd exampleResult of Inl _ \<Rightarrow> False | Inr c \<Rightarrow> CfNetworks c \<noteq> [] \<and> CfUidMappings c \<noteq> None" by code_simp
  then obtain c where c: "snd exampleResult = Inr c" "CfNetworks c \<noteq> []" "CfUidMappings c \<noteq> None" by (auto split: sum.splits)
  then obtain al where r: "exampleResult = (al, Inr c)" by (metis prod.collapse)
  have "IsAbs ''/run/b''" by code_simp
  then have "checkNetwork c = Inr ()" using CreateLibcontainerConfig_validates [OF r [unfolded exampleResult_def]] by simp
  with r c show ?thesis by blast
qed

section \<open>Two limits of the conversion\<close>

text \<open>
  The annotation \<open>org.systemd.property.Sec\<close> passes the check of property names, and then the character
  before the suffix is read although there is none.
\<close>

lemma systemdProp_Sec_panics: "parseVariant env v = Some x \<Longrightarrow> systemdProp env ''Sec'' v = Inl SpecIndexPanic"
  by (simp add: systemdProp_def checkPropertyName_def rguard_def TrimSuffix_def suffix_def Let_def)

text \<open>
  The owner of the default devices is written to the shared list, so that a container converted
  afterwards in the same process gets devices that belong to the root user of the previous one.
\<close>

definition hostOpts :: CreateOpts where
  "hostOpts = exampleOpts\<lparr>OptSpec := (OptSpec exampleOpts)\<lparr>SLinux := None\<rparr>\<rparr>"

definition devicesOf :: "ConfigDevice list \<Rightarrow> 32 word list" where
  "devicesOf al = (case CreateLibcontainerConfig noSystemd ''1.0.2'' (Inr ''/run/b'') hostOpts al of
     (_, Inl _) \<Rightarrow> [] | (_, Inr c) \<Rightarrow> map DevUid (CfDevices c))"

lemma CreateLibcontainerConfig_leaks_owner:
  "devicesOf AllowedDevices = replicate 6 0" "devicesOf (fst exampleResult) = replicate 6 100000"
  by code_simp+

end
