(* ===== verification/Go_Bpf.thy ===== *)
theory Go_Bpf
  imports Prelude
begin

text \<open>
  Classic BPF as the vendored package \<open>golang.org/x/net/bpf\<close> has it: the instructions, the assembler and the
  disassembler, and the virtual machine that runs a program against a packet.  The constants of
  \<open>constants.go\<close> that build operation codes are abbreviations with their names.  Registers are 32-bit words, skips of
  conditional jumps are bytes, and operation codes are 16-bit words, as in the source.
\<close>

unbundle bit_operations_syntax

section \<open>Instructions\<close>

datatype Register = RegA | RegX

datatype ALUOp =
    ALUOpAdd | ALUOpSub | ALUOpMul | ALUOpDiv | ALUOpOr | ALUOpAnd | ALUOpShiftLeft | ALUOpShiftRight | ALUOpMod | ALUOpXor

datatype JumpTest =
    JumpEqual | JumpNotEqual | JumpGreaterThan | JumpLessThan | JumpGreaterOrEqual | JumpLessOrEqual | JumpBitsSet | JumpBitsNotSet

record RawInstruction =
  Op :: "16 word"
  Jt :: "8 word"
  Jf :: "8 word"
  K :: "32 word"

text \<open>Sizes, scratch slots and extension numbers have type \<open>int\<close> in the source.\<close>

datatype Instruction =
    LoadConstant Register "32 word"
  | LoadScratch Register int
  | LoadAbsolute "32 word" int
  | LoadIndirect "32 word" int
  | LoadMemShift "32 word"
  | LoadExtension int
  | StoreScratch Register int
  | ALUOpConstant ALUOp "32 word"
  | ALUOpX ALUOp
  | NegateA
  | Jump "32 word"
  | JumpIf JumpTest "32 word" "8 word" "8 word"
  | JumpIfX JumpTest "8 word" "8 word"
  | RetA
  | RetConstant "32 word"
  | TXA
  | TAX
  | Raw RawInstruction

text \<open>
  An execution fails on an instruction that the machine does not know, or panics: on a division by zero,
  a scratch slot out of range, a load size other than 1, 2 and 4, or an extension.
\<close>

datatype bpf_error = UnknownInstruction | BpfPanic

datatype assemble_error = InvalidScratchSlot int | InvalidLoadLength int

section \<open>The assembler\<close>

abbreviation opMaskCls :: "16 word" where "opMaskCls \<equiv> 0x7"
abbreviation opMaskLoadDest :: "16 word" where "opMaskLoadDest \<equiv> 0x01"
abbreviation opMaskLoadWidth :: "16 word" where "opMaskLoadWidth \<equiv> 0x18"
abbreviation opMaskLoadMode :: "16 word" where "opMaskLoadMode \<equiv> 0xe0"
abbreviation opMaskOperand :: "16 word" where "opMaskOperand \<equiv> 0x08"
abbreviation opMaskOperator :: "16 word" where "opMaskOperator \<equiv> 0xf0"
abbreviation opClsLoadA :: "16 word" where "opClsLoadA \<equiv> 0"
abbreviation opClsLoadX :: "16 word" where "opClsLoadX \<equiv> 1"
abbreviation opClsStoreA :: "16 word" where "opClsStoreA \<equiv> 2"
abbreviation opClsStoreX :: "16 word" where "opClsStoreX \<equiv> 3"
abbreviation opClsALU :: "16 word" where "opClsALU \<equiv> 4"
abbreviation opClsJump :: "16 word" where "opClsJump \<equiv> 5"
abbreviation opClsReturn :: "16 word" where "opClsReturn \<equiv> 6"
abbreviation opClsMisc :: "16 word" where "opClsMisc \<equiv> 7"
abbreviation opAddrModeImmediate :: "16 word" where "opAddrModeImmediate \<equiv> 0x00"
abbreviation opAddrModeAbsolute :: "16 word" where "opAddrModeAbsolute \<equiv> 0x20"
abbreviation opAddrModeIndirect :: "16 word" where "opAddrModeIndirect \<equiv> 0x40"
abbreviation opAddrModeScratch :: "16 word" where "opAddrModeScratch \<equiv> 0x60"
abbreviation opAddrModePacketLen :: "16 word" where "opAddrModePacketLen \<equiv> 0x80"
abbreviation opAddrModeMemShift :: "16 word" where "opAddrModeMemShift \<equiv> 0xa0"
abbreviation opLoadWidth4 :: "16 word" where "opLoadWidth4 \<equiv> 0x00"
abbreviation opLoadWidth2 :: "16 word" where "opLoadWidth2 \<equiv> 0x08"
abbreviation opLoadWidth1 :: "16 word" where "opLoadWidth1 \<equiv> 0x10"
abbreviation opOperandConstant :: "16 word" where "opOperandConstant \<equiv> 0x00"
abbreviation opOperandX :: "16 word" where "opOperandX \<equiv> 0x08"
abbreviation opJumpAlways :: "16 word" where "opJumpAlways \<equiv> 0x00"
abbreviation opJumpEqual :: "16 word" where "opJumpEqual \<equiv> 0x10"
abbreviation opJumpGT :: "16 word" where "opJumpGT \<equiv> 0x20"
abbreviation opJumpGE :: "16 word" where "opJumpGE \<equiv> 0x30"
abbreviation opJumpSet :: "16 word" where "opJumpSet \<equiv> 0x40"
abbreviation opRetSrcConstant :: "16 word" where "opRetSrcConstant \<equiv> 0x00"
abbreviation opRetSrcA :: "16 word" where "opRetSrcA \<equiv> 0x10"
abbreviation opMiscTAX :: "16 word" where "opMiscTAX \<equiv> 0x00"
abbreviation opMiscTXA :: "16 word" where "opMiscTXA \<equiv> 0x80"
abbreviation aluOpNeg :: "16 word" where "aluOpNeg \<equiv> 0x80"
abbreviation extOffset :: int where "extOffset \<equiv> - 0x1000"
abbreviation ExtLen :: int where "ExtLen \<equiv> 1"

fun aluCode :: "ALUOp \<Rightarrow> 16 word" where
  "aluCode ALUOpAdd = 0x00"
| "aluCode ALUOpSub = 0x10"
| "aluCode ALUOpMul = 0x20"
| "aluCode ALUOpDiv = 0x30"
| "aluCode ALUOpOr = 0x40"
| "aluCode ALUOpAnd = 0x50"
| "aluCode ALUOpShiftLeft = 0x60"
| "aluCode ALUOpShiftRight = 0x70"
| "aluCode ALUOpMod = 0x90"
| "aluCode ALUOpXor = 0xa0"

abbreviation rawInsn :: "16 word \<Rightarrow> 32 word \<Rightarrow> RawInstruction" where
  "rawInsn op k \<equiv> \<lparr>Op = op, Jt = 0, Jf = 0, K = k\<rparr>"

definition assembleLoad :: "Register \<Rightarrow> int \<Rightarrow> 16 word \<Rightarrow> 32 word \<Rightarrow> (assemble_error, RawInstruction) result" where
  "assembleLoad dst loadSize mode k =
    (let cls = (case dst of RegA \<Rightarrow> opClsLoadA | RegX \<Rightarrow> opClsLoadX) in
     if loadSize = 1 then Inr (rawInsn (cls OR opLoadWidth1 OR mode) k)
     else if loadSize = 2 then Inr (rawInsn (cls OR opLoadWidth2 OR mode) k)
     else if loadSize = 4 then Inr (rawInsn (cls OR opLoadWidth4 OR mode) k)
     else Inl (InvalidLoadLength loadSize))"

fun jumpCode :: "JumpTest \<Rightarrow> 16 word \<times> bool" where
  "jumpCode JumpEqual = (opJumpEqual, False)"
| "jumpCode JumpNotEqual = (opJumpEqual, True)"
| "jumpCode JumpGreaterThan = (opJumpGT, False)"
| "jumpCode JumpLessThan = (opJumpGE, True)"
| "jumpCode JumpGreaterOrEqual = (opJumpGE, False)"
| "jumpCode JumpLessOrEqual = (opJumpGT, True)"
| "jumpCode JumpBitsSet = (opJumpSet, False)"
| "jumpCode JumpBitsNotSet = (opJumpSet, True)"

definition jumpToRaw :: "JumpTest \<Rightarrow> 16 word \<Rightarrow> 32 word \<Rightarrow> 8 word \<Rightarrow> 8 word \<Rightarrow> RawInstruction" where
  "jumpToRaw test operand k skipTrue skipFalse =
    (case jumpCode test of (cond, flip) \<Rightarrow>
      \<lparr>Op = opClsJump OR cond OR operand,
       Jt = (if flip then skipFalse else skipTrue),
       Jf = (if flip then skipTrue else skipFalse),
       K = k\<rparr>)"

fun AssembleInsn :: "Instruction \<Rightarrow> (assemble_error, RawInstruction) result" where
  "AssembleInsn (LoadConstant dst v) = assembleLoad dst 4 opAddrModeImmediate v"
| "AssembleInsn (LoadScratch dst n) =
    (if n < 0 \<or> 15 < n then Inl (InvalidScratchSlot n) else assembleLoad dst 4 opAddrModeScratch (word_of_int n))"
| "AssembleInsn (LoadAbsolute off sz) = assembleLoad RegA sz opAddrModeAbsolute off"
| "AssembleInsn (LoadIndirect off sz) = assembleLoad RegA sz opAddrModeIndirect off"
| "AssembleInsn (LoadMemShift off) = assembleLoad RegX 1 opAddrModeMemShift off"
| "AssembleInsn (LoadExtension n) =
    (if n = ExtLen then assembleLoad RegA 4 opAddrModePacketLen 0
     else assembleLoad RegA 4 opAddrModeAbsolute (word_of_int (extOffset + n)))"
| "AssembleInsn (StoreScratch src n) =
    (if n < 0 \<or> 15 < n then Inl (InvalidScratchSlot n)
     else Inr (rawInsn (case src of RegA \<Rightarrow> opClsStoreA | RegX \<Rightarrow> opClsStoreX) (word_of_int n)))"
| "AssembleInsn (ALUOpConstant op v) = Inr (rawInsn (opClsALU OR opOperandConstant OR aluCode op) v)"
| "AssembleInsn (ALUOpX op) = Inr (rawInsn (opClsALU OR opOperandX OR aluCode op) 0)"
| "AssembleInsn NegateA = Inr (rawInsn (opClsALU OR aluOpNeg) 0)"
| "AssembleInsn (Jump skip) = Inr (rawInsn (opClsJump OR opJumpAlways) skip)"
| "AssembleInsn (JumpIf test v t f) = Inr (jumpToRaw test opOperandConstant v t f)"
| "AssembleInsn (JumpIfX test t f) = Inr (jumpToRaw test opOperandX 0 t f)"
| "AssembleInsn RetA = Inr (rawInsn (opClsReturn OR opRetSrcA) 0)"
| "AssembleInsn (RetConstant v) = Inr (rawInsn (opClsReturn OR opRetSrcConstant) v)"
| "AssembleInsn TXA = Inr (rawInsn (opClsMisc OR opMiscTXA) 0)"
| "AssembleInsn TAX = Inr (rawInsn (opClsMisc OR opMiscTAX) 0)"
| "AssembleInsn (Raw ri) = Inr ri"

fun Assemble :: "Instruction list \<Rightarrow> (assemble_error, RawInstruction list) result" where
  "Assemble [] = Inr []"
| "Assemble (i # is) = rbind (AssembleInsn i) (\<lambda>r. rbind (Assemble is) (\<lambda>rs. Inr (r # rs)))"

section \<open>The disassembler\<close>

definition jumpOpToTest :: "16 word \<Rightarrow> 8 word \<Rightarrow> 8 word \<Rightarrow> JumpTest \<times> 8 word \<times> 8 word" where
  "jumpOpToTest op skipTrue skipFalse =
    (if skipTrue = 0 then
       (if op = opJumpEqual then JumpNotEqual
        else if op = opJumpGT then JumpLessOrEqual
        else if op = opJumpGE then JumpLessThan
        else if op = opJumpSet then JumpBitsNotSet
        else JumpEqual, skipFalse, 0)
     else
       (if op = opJumpEqual then JumpEqual
        else if op = opJumpGT then JumpGreaterThan
        else if op = opJumpGE then JumpGreaterOrEqual
        else if op = opJumpSet then JumpBitsSet
        else JumpEqual, skipTrue, skipFalse))"

definition aluOps :: "(16 word \<times> ALUOp) list" where
  "aluOps = map (\<lambda>op. (aluCode op, op))
    [ALUOpAdd, ALUOpSub, ALUOpMul, ALUOpDiv, ALUOpOr, ALUOpAnd, ALUOpShiftLeft, ALUOpShiftRight, ALUOpMod, ALUOpXor]"

text \<open>
  The two classes of loads.  The comparison with the offset of the extensions is one of 32-bit numbers, and the
  number of an extension is computed with wrap-around.
\<close>

definition disassembleLoad :: "RawInstruction \<Rightarrow> Instruction" where
  "disassembleLoad ri =
    (let reg = (if Op ri AND opMaskLoadDest = 0 then RegA else RegX);
         width = Op ri AND opMaskLoadWidth;
         sz = (if width = opLoadWidth4 then 4 else if width = opLoadWidth2 then 2 else if width = opLoadWidth1 then 1 else 0 :: int);
         mode = Op ri AND opMaskLoadMode in
     if sz = 0 then Raw ri
     else if mode = opAddrModeImmediate then if sz \<noteq> 4 then Raw ri else LoadConstant reg (K ri)
     else if mode = opAddrModeScratch then if sz \<noteq> 4 \<or> 15 < K ri then Raw ri else LoadScratch reg (uint (K ri))
     else if mode = opAddrModeAbsolute then
       if 0xffffefff < K ri then LoadExtension (uint (0x1000 + K ri)) else LoadAbsolute (K ri) sz
     else if mode = opAddrModeIndirect then LoadIndirect (K ri) sz
     else if mode = opAddrModePacketLen then if sz \<noteq> 4 then Raw ri else LoadExtension ExtLen
     else if mode = opAddrModeMemShift then LoadMemShift (K ri)
     else Raw ri)"

definition disassembleJump :: "RawInstruction \<Rightarrow> Instruction" where
  "disassembleJump ri =
    (let op = Op ri AND opMaskOperator in
     if op = opJumpAlways then Jump (K ri)
     else if op \<in> {opJumpEqual, opJumpGT, opJumpGE, opJumpSet} then
       case jumpOpToTest op (Jt ri) (Jf ri) of (cond, skipTrue, skipFalse) \<Rightarrow>
         if Op ri AND opMaskOperand = opOperandX then JumpIfX cond skipTrue skipFalse else JumpIf cond (K ri) skipTrue skipFalse
     else Raw ri)"

definition disassembleALU :: "RawInstruction \<Rightarrow> Instruction" where
  "disassembleALU ri =
    (let code = Op ri AND opMaskOperator in
     case map_of aluOps code of
       Some op \<Rightarrow> if Op ri AND opMaskOperand = opOperandX then ALUOpX op else ALUOpConstant op (K ri)
     | None \<Rightarrow> if code = aluOpNeg then NegateA else Raw ri)"

definition DisassembleInsn :: "RawInstruction \<Rightarrow> Instruction" where
  "DisassembleInsn ri =
    (let cls = Op ri AND opMaskCls in
     if cls = opClsLoadA \<or> cls = opClsLoadX then disassembleLoad ri
     else if cls = opClsStoreA then if Op ri \<noteq> opClsStoreA \<or> 15 < K ri then Raw ri else StoreScratch RegA (uint (K ri))
     else if cls = opClsStoreX then if Op ri \<noteq> opClsStoreX \<or> 15 < K ri then Raw ri else StoreScratch RegX (uint (K ri))
     else if cls = opClsALU then disassembleALU ri
     else if cls = opClsJump then disassembleJump ri
     else if cls = opClsReturn then
       if Op ri = (opClsReturn OR opRetSrcA) then RetA
       else if Op ri = (opClsReturn OR opRetSrcConstant) then RetConstant (K ri)
       else Raw ri
     else
       if Op ri = (opClsMisc OR opMiscTAX) then TAX
       else if Op ri = (opClsMisc OR opMiscTXA) then TXA
       else Raw ri)"

fun isRaw :: "Instruction \<Rightarrow> bool" where
  "isRaw (Raw _) = True"
| "isRaw _ = False"

definition Disassemble :: "RawInstruction list \<Rightarrow> Instruction list \<times> bool" where
  "Disassemble raw = (let insts = map DisassembleInsn raw in (insts, \<not> list_ex isRaw insts))"

section \<open>The virtual machine\<close>

record vmRegs =
  regA :: "32 word"
  regX :: "32 word"
  regScratch :: "32 word list"

definition vmInit :: vmRegs where
  "vmInit = \<lparr>regA = 0, regX = 0, regScratch = replicate 16 0\<rparr>"

text \<open>What one turn of the loop of \<open>VM.Run\<close> does: go on after skipping instructions, stop, return, or fail.\<close>

datatype vmStep = Next vmRegs nat | Stop | Ret "32 word" | Fail bpf_error

fun aluOpCommon :: "ALUOp \<Rightarrow> 32 word \<Rightarrow> 32 word \<Rightarrow> 32 word option" where
  "aluOpCommon ALUOpAdd a v = Some (a + v)"
| "aluOpCommon ALUOpSub a v = Some (a - v)"
| "aluOpCommon ALUOpMul a v = Some (a * v)"
| "aluOpCommon ALUOpDiv a v = (if v = 0 then None else Some (a div v))"
| "aluOpCommon ALUOpOr a v = Some (a OR v)"
| "aluOpCommon ALUOpAnd a v = Some (a AND v)"
| "aluOpCommon ALUOpShiftLeft a v = Some (push_bit (unat v) a)"
| "aluOpCommon ALUOpShiftRight a v = Some (drop_bit (unat v) a)"
| "aluOpCommon ALUOpMod a v = (if v = 0 then None else Some (a mod v))"
| "aluOpCommon ALUOpXor a v = Some (a XOR v)"

fun jumpHolds :: "JumpTest \<Rightarrow> 32 word \<Rightarrow> 32 word \<Rightarrow> bool" where
  "jumpHolds JumpEqual a v \<longleftrightarrow> a = v"
| "jumpHolds JumpNotEqual a v \<longleftrightarrow> a \<noteq> v"
| "jumpHolds JumpGreaterThan a v \<longleftrightarrow> v < a"
| "jumpHolds JumpLessThan a v \<longleftrightarrow> a < v"
| "jumpHolds JumpGreaterOrEqual a v \<longleftrightarrow> v \<le> a"
| "jumpHolds JumpLessOrEqual a v \<longleftrightarrow> a \<le> v"
| "jumpHolds JumpBitsSet a v \<longleftrightarrow> (a AND v) \<noteq> 0"
| "jumpHolds JumpBitsNotSet a v \<longleftrightarrow> (a AND v) = 0"

definition jumpIfCommon :: "JumpTest \<Rightarrow> 8 word \<Rightarrow> 8 word \<Rightarrow> 32 word \<Rightarrow> 32 word \<Rightarrow> nat" where
  "jumpIfCommon cond skipTrue skipFalse a v = (if jumpHolds cond a v then unat skipTrue else unat skipFalse)"

definition bigEndian :: "8 word list \<Rightarrow> 32 word" where
  "bigEndian bs = foldl (\<lambda>n b. n * 256 + ucast b) 0 bs"

text \<open>A load past the end of the packet stops the program; a size that is not 1, 2 or 4 panics.\<close>

definition loadCommon :: "8 word list \<Rightarrow> nat \<Rightarrow> int \<Rightarrow> (32 word \<Rightarrow> vmStep) \<Rightarrow> vmStep" where
  "loadCommon inp offset sz k =
    (if int offset + sz > int (length inp) then Stop
     else if sz \<in> {1, 2, 4} then k (bigEndian (take (nat sz) (drop offset inp)))
     else Fail BpfPanic)"

definition regSet :: "Register \<Rightarrow> 32 word \<Rightarrow> vmRegs \<Rightarrow> vmRegs" where
  "regSet dst v r = (case dst of RegA \<Rightarrow> r\<lparr>regA := v\<rparr> | RegX \<Rightarrow> r\<lparr>regX := v\<rparr>)"

definition regGet :: "Register \<Rightarrow> vmRegs \<Rightarrow> 32 word" where
  "regGet src r = (case src of RegA \<Rightarrow> regA r | RegX \<Rightarrow> regX r)"

definition aluStep :: "ALUOp \<Rightarrow> 32 word \<Rightarrow> vmRegs \<Rightarrow> vmStep" where
  "aluStep op v r = (case aluOpCommon op (regA r) v of None \<Rightarrow> Fail BpfPanic | Some a \<Rightarrow> Next (r\<lparr>regA := a\<rparr>) 0)"

fun vmExec :: "Instruction \<Rightarrow> 8 word list \<Rightarrow> vmRegs \<Rightarrow> vmStep" where
  "vmExec (ALUOpConstant op v) inp r = aluStep op v r"
| "vmExec (ALUOpX op) inp r =
    (if regX r = 0 \<and> op \<in> {ALUOpDiv, ALUOpMod} then Stop else aluStep op (regX r) r)"
| "vmExec (Jump skip) inp r = Next r (unat skip)"
| "vmExec (JumpIf test v t f) inp r = Next r (jumpIfCommon test t f (regA r) v)"
| "vmExec (JumpIfX test t f) inp r = Next r (jumpIfCommon test t f (regA r) (regX r))"
| "vmExec (LoadAbsolute off sz) inp r = loadCommon inp (unat off) sz (\<lambda>v. Next (r\<lparr>regA := v\<rparr>) 0)"
| "vmExec (LoadConstant dst v) inp r = Next (regSet dst v r) 0"
| "vmExec (LoadExtension n) inp r = (if n = ExtLen then Next (r\<lparr>regA := of_nat (length inp)\<rparr>) 0 else Fail BpfPanic)"
| "vmExec (LoadIndirect off sz) inp r = loadCommon inp (unat off + unat (regX r)) sz (\<lambda>v. Next (r\<lparr>regA := v\<rparr>) 0)"
| "vmExec (LoadMemShift off) inp r =
    (if unat off + 1 > length inp then Stop else Next (r\<lparr>regX := ucast (inp ! unat off AND 0x0f) * 4\<rparr>) 0)"
| "vmExec (LoadScratch dst n) inp r =
    (if 0 \<le> n \<and> n < int (length (regScratch r)) then Next (regSet dst (regScratch r ! nat n) r) 0 else Fail BpfPanic)"
| "vmExec (StoreScratch src n) inp r =
    (if 0 \<le> n \<and> n < int (length (regScratch r)) then Next (r\<lparr>regScratch := (regScratch r)[nat n := regGet src r]\<rparr>) 0
     else Fail BpfPanic)"
| "vmExec RetA inp r = Ret (regA r)"
| "vmExec (RetConstant v) inp r = Ret v"
| "vmExec TAX inp r = Next (r\<lparr>regX := regA r\<rparr>) 0"
| "vmExec TXA inp r = Next (r\<lparr>regA := regX r\<rparr>) 0"
| "vmExec NegateA inp r = Fail UnknownInstruction"
| "vmExec (Raw ri) inp r = Fail UnknownInstruction"

text \<open>The loop of \<open>VM.Run\<close> from index \<open>i\<close> on.  A program that runs off its end accepts nothing.\<close>

function vmLoop :: "Instruction list \<Rightarrow> 8 word list \<Rightarrow> nat \<Rightarrow> vmRegs \<Rightarrow> (bpf_error, 32 word) result" where
  "vmLoop code inp i r =
    (if i < length code then
       (case vmExec (code ! i) inp r of
          Next r' skip \<Rightarrow> vmLoop code inp (i + skip + 1) r'
        | Stop \<Rightarrow> Inr 0
        | Ret v \<Rightarrow> Inr v
        | Fail e \<Rightarrow> Inl e)
     else Inr 0)"
  by auto

termination
  by (relation "measure (\<lambda>(code, inp, i, r). length code - i)") auto

declare vmLoop.simps [simp del]

definition Run :: "Instruction list \<Rightarrow> 8 word list \<Rightarrow> (bpf_error, 32 word) result" where
  "Run code inp = vmLoop code inp 0 vmInit"

section \<open>Running a suffix\<close>

text \<open>
  Jumps only go forwards and are relative, so a program that has come to an index behaves like the rest of it from
  there.  All reasoning about programs goes through this view.
\<close>

abbreviation runFrom :: "Instruction list \<Rightarrow> 8 word list \<Rightarrow> vmRegs \<Rightarrow> (bpf_error, 32 word) result" where
  "runFrom code inp r \<equiv> vmLoop code inp 0 r"

lemma vmLoop_append: "vmLoop (xs @ code) inp (length xs + i) r = vmLoop code inp i r"
proof (induction code inp i r rule: vmLoop.induct)
  case (1 code inp i r)
  show ?case
  proof (cases "i < length code \<and> (\<exists>r' k. vmExec (code ! i) inp r = Next r' k)")
    case True
    then obtain r' k where i: "i < length code" and s: "vmExec (code ! i) inp r = Next r' k" by blast
    from 1 [OF i s] have "vmLoop (xs @ code) inp (length xs + i + k + 1) r' = vmLoop code inp (i + k + 1) r'"
      by (simp add: add.assoc)
    with i s show ?thesis by (simp add: vmLoop.simps [of "xs @ code" inp "length xs + i"] vmLoop.simps [of code inp i])
  next
    case False
    then show ?thesis
      by (auto simp: vmLoop.simps [of "xs @ code" inp "length xs + i"] vmLoop.simps [of code inp i] split: vmStep.split)
  qed
qed

lemma vmLoop_drop: "vmLoop code inp i r = runFrom (drop i code) inp r"
proof (cases "i \<le> length code")
  case True
  then show ?thesis using vmLoop_append [of "take i code" "drop i code" inp 0 r] by simp
next
  case False
  then show ?thesis by (simp add: vmLoop.simps [of code] vmLoop.simps [of "[]"])
qed

lemma runFrom_Nil: "runFrom [] inp r = Inr 0"
  by (simp add: vmLoop.simps)

lemma runFrom_Cons:
  "runFrom (x # code) inp r =
    (case vmExec x inp r of
       Next r' k \<Rightarrow> runFrom (drop k code) inp r'
     | Stop \<Rightarrow> Inr 0 | Ret v \<Rightarrow> Inr v | Fail e \<Rightarrow> Inl e)"
proof -
  have "vmLoop (x # code) inp (k + 1) r' = runFrom (drop k code) inp r'" for k r'
    using vmLoop_drop [of "x # code" inp "k + 1" r'] by simp
  then show ?thesis by (simp add: vmLoop.simps [of "x # code"] split: vmStep.split)
qed

lemma runFrom_cong:
  assumes "list_all2 (\<lambda>x y. vmExec x = vmExec y) code code'"
  shows "runFrom code inp r = runFrom code' inp r"
  using assms
proof (induction "length code" arbitrary: code code' r rule: less_induct)
  case less
  show ?case
  proof (cases code)
    case Nil
    with less.prems show ?thesis by simp
  next
    case (Cons x xs)
    with less.prems obtain y ys where c': "code' = y # ys" and h: "vmExec x = vmExec y" and t: "list_all2 (\<lambda>x y. vmExec x = vmExec y) xs ys"
      by (auto simp: list_all2_Cons1)
    have "runFrom (drop k xs) inp r' = runFrom (drop k ys) inp r'" for k r'
      by (rule less.hyps) (use Cons t in \<open>auto intro: list_all2_dropI\<close>)
    with Cons c' h show ?thesis by (simp add: runFrom_Cons split: vmStep.split)
  qed
qed

section \<open>Assembling keeps the meaning\<close>

text \<open>
  The instructions that the disassembler produces.  Assembling such an instruction succeeds, and disassembling the
  result gives an instruction that does the same, although it may be another one: a comparison whose
  first skip is zero comes back negated.
\<close>

fun canonical :: "Instruction \<Rightarrow> bool" where
  "canonical (LoadScratch _ n) \<longleftrightarrow> 0 \<le> n \<and> n \<le> 15"
| "canonical (StoreScratch _ n) \<longleftrightarrow> 0 \<le> n \<and> n \<le> 15"
| "canonical (LoadAbsolute off sz) \<longleftrightarrow> off \<le> 0xffffefff \<and> sz \<in> {1, 2, 4}"
| "canonical (LoadIndirect _ sz) \<longleftrightarrow> sz \<in> {1, 2, 4}"
| "canonical (LoadExtension n) \<longleftrightarrow> 0 \<le> n \<and> n < 0x1000"
| "canonical (Raw _) \<longleftrightarrow> False"
| "canonical _ \<longleftrightarrow> True"

lemma aluOps_code: "map_of aluOps (aluCode op) = Some op"
  by (cases op) (simp_all add: aluOps_def)

lemma slot_word: "0 \<le> n \<Longrightarrow> n \<le> 15 \<Longrightarrow> uint (word_of_int n :: 32 word) = n \<and> (word_of_int n :: 32 word) \<le> 15"
  by (simp add: uint_word_of_int word_le_def)

lemma jump_roundtrip:
  "jumpOpToTest (fst (jumpCode test)) (if snd (jumpCode test) then f else t) (if snd (jumpCode test) then t else f) = (test', t', f')
    \<Longrightarrow> jumpIfCommon test' t' f' a v = jumpIfCommon test t f a v"
  by (cases test) (auto simp: jumpOpToTest_def jumpIfCommon_def not_less not_le split: if_splits)

lemma jumpToRaw_parts:
  assumes "operand \<in> {opOperandConstant, opOperandX}"
  shows "Op (jumpToRaw test operand k t f) AND opMaskCls = opClsJump"
    and "Op (jumpToRaw test operand k t f) AND opMaskOperator = fst (jumpCode test)"
    and "Op (jumpToRaw test operand k t f) AND opMaskOperand = operand"
    and "Jt (jumpToRaw test operand k t f) = (if snd (jumpCode test) then f else t)"
    and "Jf (jumpToRaw test operand k t f) = (if snd (jumpCode test) then t else f)"
    and "K (jumpToRaw test operand k t f) = k"
  using assms by (cases test; auto simp: jumpToRaw_def)+

lemma fst_jumpCode: "fst (jumpCode test) \<in> {opJumpEqual, opJumpGT, opJumpGE, opJumpSet}" "fst (jumpCode test) \<noteq> opJumpAlways"
  by (cases test; simp)+

lemma jump_reassembled:
  "vmExec (DisassembleInsn (jumpToRaw test opOperandConstant v t f)) = vmExec (JumpIf test v t f)"
  "vmExec (DisassembleInsn (jumpToRaw test opOperandX 0 t f)) = vmExec (JumpIfX test t f)"
  "\<not> isRaw (DisassembleInsn (jumpToRaw test opOperandConstant v t f))"
  "\<not> isRaw (DisassembleInsn (jumpToRaw test opOperandX 0 t f))"
proof -
  obtain test' t' f' where d:
    "jumpOpToTest (fst (jumpCode test)) (if snd (jumpCode test) then f else t) (if snd (jumpCode test) then t else f) = (test', t', f')"
    by (cases "jumpOpToTest (fst (jumpCode test)) (if snd (jumpCode test) then f else t) (if snd (jumpCode test) then t else f)") auto
  have "DisassembleInsn (jumpToRaw test opOperandConstant v t f) = JumpIf test' v t' f'"
    "DisassembleInsn (jumpToRaw test opOperandX 0 t f) = JumpIfX test' t' f'"
    using fst_jumpCode [of test] by (simp_all add: DisassembleInsn_def disassembleJump_def jumpToRaw_parts d Let_def)
  with jump_roundtrip [OF d] show
    "vmExec (DisassembleInsn (jumpToRaw test opOperandConstant v t f)) = vmExec (JumpIf test v t f)"
    "vmExec (DisassembleInsn (jumpToRaw test opOperandX 0 t f)) = vmExec (JumpIfX test t f)"
    "\<not> isRaw (DisassembleInsn (jumpToRaw test opOperandConstant v t f))"
    "\<not> isRaw (DisassembleInsn (jumpToRaw test opOperandX 0 t f))"
    by (simp_all add: fun_eq_iff)
qed

lemma extension_word:
  assumes "0 \<le> n" "n < 0x1000"
  shows "0xffffefff < (word_of_int (extOffset + n) :: 32 word)" "uint (0x1000 + word_of_int (extOffset + n) :: 32 word) = n"
proof -
  have "(extOffset + n) mod 0x100000000 = (extOffset + n + 0x100000000) mod 0x100000000" by (rule mod_add_self2 [symmetric])
  also have "\<dots> = 0xfffff000 + n" using assms by simp
  finally have "uint (word_of_int (extOffset + n) :: 32 word) = 0xfffff000 + n"
    unfolding uint_word_of_int by (simp add: take_bit_eq_mod)
  then show "0xffffefff < (word_of_int (extOffset + n) :: 32 word)" using assms(1) by (simp add: word_less_def)
  have "0x1000 + word_of_int (extOffset + n) = (word_of_int n :: 32 word)" by simp
  then show "uint (0x1000 + word_of_int (extOffset + n) :: 32 word) = n" using assms by (simp add: uint_word_of_int)
qed

lemma load_reassembled:
  assumes "canonical i" "i \<in> {LoadConstant dst v, LoadScratch dst n, LoadAbsolute off sz, LoadIndirect off sz, LoadMemShift off, LoadExtension n}"
  shows "\<exists>r. AssembleInsn i = Inr r \<and> DisassembleInsn r = i"
  using assms slot_word [of n] extension_word [of n]
  by (cases dst; auto simp: assembleLoad_def; auto simp: DisassembleInsn_def disassembleLoad_def Let_def not_less)

lemma alu_reassembled:
  "DisassembleInsn (rawInsn (opClsALU OR opOperandConstant OR aluCode op) v) = ALUOpConstant op v"
  "DisassembleInsn (rawInsn (opClsALU OR opOperandX OR aluCode op) 0) = ALUOpX op"
  by (cases op; simp add: DisassembleInsn_def disassembleALU_def aluOps_def)+

lemma store_reassembled:
  assumes "0 \<le> n" "n \<le> 15"
  shows "DisassembleInsn (rawInsn opClsStoreA (word_of_int n)) = StoreScratch RegA n" "DisassembleInsn (rawInsn opClsStoreX (word_of_int n)) = StoreScratch RegX n"
  using slot_word [OF assms] by (simp_all add: DisassembleInsn_def not_less)

lemma fixed_reassembled:
  "DisassembleInsn (rawInsn (opClsALU OR aluOpNeg) 0) = NegateA"
  "DisassembleInsn (rawInsn (opClsJump OR opJumpAlways) skip) = Jump skip"
  "DisassembleInsn (rawInsn (opClsReturn OR opRetSrcA) 0) = RetA"
  "DisassembleInsn (rawInsn (opClsReturn OR opRetSrcConstant) v) = RetConstant v"
  "DisassembleInsn (rawInsn (opClsMisc OR opMiscTXA) 0) = TXA"
  "DisassembleInsn (rawInsn (opClsMisc OR opMiscTAX) 0) = TAX"
  by (simp_all add: DisassembleInsn_def disassembleALU_def disassembleJump_def aluOps_def)

lemma reassembledI:
  assumes "\<exists>r. AssembleInsn i = Inr r \<and> DisassembleInsn r = i" "\<not> isRaw i"
  shows "\<exists>r. AssembleInsn i = Inr r \<and> vmExec (DisassembleInsn r) = vmExec i \<and> \<not> isRaw (DisassembleInsn r)"
  using assms by auto

lemma AssembleInsn_canonical:
  assumes "canonical i"
  shows "\<exists>r. AssembleInsn i = Inr r \<and> vmExec (DisassembleInsn r) = vmExec i \<and> \<not> isRaw (DisassembleInsn r)"
proof (cases i)
  case (StoreScratch src n)
  with assms show ?thesis by (cases src) (simp_all add: store_reassembled)
next
  case (LoadConstant dst v)
  show ?thesis by (rule reassembledI [OF load_reassembled [OF assms, of dst v]]) (simp_all add: LoadConstant)
next
  case (LoadScratch dst n)
  show ?thesis by (rule reassembledI [OF load_reassembled [OF assms, of dst undefined n]]) (simp_all add: LoadScratch)
next
  case (LoadAbsolute off sz)
  show ?thesis by (rule reassembledI [OF load_reassembled [OF assms, of undefined undefined undefined off sz]]) (simp_all add: LoadAbsolute)
next
  case (LoadIndirect off sz)
  show ?thesis by (rule reassembledI [OF load_reassembled [OF assms, of undefined undefined undefined off sz]]) (simp_all add: LoadIndirect)
next
  case (LoadMemShift off)
  show ?thesis by (rule reassembledI [OF load_reassembled [OF assms, of undefined undefined undefined off]]) (simp_all add: LoadMemShift)
next
  case (LoadExtension n)
  show ?thesis by (rule reassembledI [OF load_reassembled [OF assms, of undefined undefined n]]) (simp_all add: LoadExtension)
next
  case (ALUOpConstant op v)
  show ?thesis unfolding ALUOpConstant by (rule reassembledI, intro exI conjI, rule AssembleInsn.simps(8), rule alu_reassembled(1), simp)
next
  case (ALUOpX op)
  show ?thesis unfolding ALUOpX by (rule reassembledI, intro exI conjI, rule AssembleInsn.simps(9), rule alu_reassembled(2), simp)
next
  case NegateA
  show ?thesis unfolding NegateA by (rule reassembledI, intro exI conjI, rule AssembleInsn.simps(10), rule fixed_reassembled(1), simp)
next
  case (Jump skip)
  show ?thesis unfolding Jump by (rule reassembledI, intro exI conjI, rule AssembleInsn.simps(11), rule fixed_reassembled(2), simp)
next
  case RetA
  show ?thesis unfolding RetA by (rule reassembledI, intro exI conjI, rule AssembleInsn.simps(14), rule fixed_reassembled(3), simp)
next
  case (RetConstant v)
  show ?thesis unfolding RetConstant by (rule reassembledI, intro exI conjI, rule AssembleInsn.simps(15), rule fixed_reassembled(4), simp)
next
  case TXA
  show ?thesis unfolding TXA by (rule reassembledI, intro exI conjI, rule AssembleInsn.simps(16), rule fixed_reassembled(5), simp)
next
  case TAX
  show ?thesis unfolding TAX by (rule reassembledI, intro exI conjI, rule AssembleInsn.simps(17), rule fixed_reassembled(6), simp)
next
  case (JumpIf test v t f)
  show ?thesis unfolding JumpIf by (intro exI conjI, rule AssembleInsn.simps(12), rule jump_reassembled(1), rule jump_reassembled(3))
next
  case (JumpIfX test t f)
  show ?thesis unfolding JumpIfX by (intro exI conjI, rule AssembleInsn.simps(13), rule jump_reassembled(2), rule jump_reassembled(4))
next
  case (Raw ri)
  with assms show ?thesis by simp
qed

lemma extension_number:
  assumes "0xffffefff < (k :: 32 word)"
  shows "0 \<le> uint (0x1000 + k) \<and> uint (0x1000 + k) < 0x1000"
proof -
  have "0xffffefff < uint k" "uint k < 0x100000000"
    using assms uint_lt2p [of k] by (simp_all add: word_less_def)
  moreover have "(0x1000 + uint k) mod 0x100000000 = (0x1000 + uint k - 0x100000000) mod 0x100000000" by (rule minus_mod_self2 [symmetric])
  moreover have "uint (0x1000 + k) = (0x1000 + uint k) mod 0x100000000" by (simp add: uint_word_ariths)
  ultimately show ?thesis by simp
qed

lemma slot_uint: "\<not> 15 < (k :: 32 word) \<Longrightarrow> 0 \<le> uint k \<and> uint k \<le> 15"
  by (simp add: word_less_def)

definition decoded :: "Instruction \<Rightarrow> bool" where
  "decoded i \<longleftrightarrow> isRaw i \<or> canonical i"

lemma decoded_if: "(c \<Longrightarrow> decoded i) \<Longrightarrow> (\<not> c \<Longrightarrow> decoded j) \<Longrightarrow> decoded (if c then i else j)"
  by simp

lemma disassembleLoad_decoded: "decoded (disassembleLoad ri)"
  using extension_number [of "K ri"] slot_uint [of "K ri"]
  by (unfold disassembleLoad_def Let_def, intro decoded_if) (auto simp: decoded_def split: if_splits)

lemma disassembleALU_decoded: "decoded (disassembleALU ri)"
  by (auto simp: disassembleALU_def Let_def decoded_def split: option.split)

lemma disassembleJump_decoded: "decoded (disassembleJump ri)"
  by (auto simp: disassembleJump_def Let_def decoded_def split: prod.split)

lemma DisassembleInsn_decoded: "decoded (DisassembleInsn ri)"
  using slot_uint [of "K ri"]
  by (unfold DisassembleInsn_def Let_def, intro decoded_if disassembleLoad_decoded disassembleALU_decoded disassembleJump_decoded)
    (simp_all add: decoded_def)

lemma DisassembleInsn_canonical: "\<not> isRaw (DisassembleInsn ri) \<Longrightarrow> canonical (DisassembleInsn ri)"
  using DisassembleInsn_decoded [of ri] by (simp add: decoded_def)

lemma Disassemble_canonical: "Disassemble raw = (code, True) \<Longrightarrow> list_all canonical code"
  using DisassembleInsn_canonical by (simp add: Disassemble_def Let_def list_all_iff list_ex_iff) force

text \<open>
  A program of such instructions can be assembled, and the machine code, read back, runs as the program does.
\<close>

lemma Assemble_runs:
  assumes "list_all canonical code"
  shows "\<exists>raw code'. Assemble code = Inr raw \<and> Disassemble raw = (code', True) \<and> (\<forall>inp r. runFrom code' inp r = runFrom code inp r)"
proof -
  have "\<exists>raw. Assemble code = Inr raw \<and> list_all2 (\<lambda>x y. vmExec x = vmExec y) (map DisassembleInsn raw) code \<and> \<not> list_ex isRaw (map DisassembleInsn raw)"
    using assms
  proof (induction code)
    case (Cons i code)
    then obtain raw where "Assemble code = Inr raw" "list_all2 (\<lambda>x y. vmExec x = vmExec y) (map DisassembleInsn raw) code" "\<not> list_ex isRaw (map DisassembleInsn raw)"
      by auto
    moreover obtain r where "AssembleInsn i = Inr r" "vmExec (DisassembleInsn r) = vmExec i" "\<not> isRaw (DisassembleInsn r)"
      using AssembleInsn_canonical Cons.prems by fastforce
    ultimately show ?case by (intro exI [of _ "r # raw"]) simp
  qed simp
  then show ?thesis by (auto simp: Disassemble_def Let_def intro: runFrom_cong)
qed

end
