(* ===== verification/Spec2Isabelle.thy ===== *)
theory Spec2Isabelle
  imports Devices_Emulator Device_Filter Lifecycle Lite_Copy Snapshotter User Container_State Specconv Go_Bpf
begin

text \<open>
  A verification development for the \<open>sysbox\<close> repository: system containers on Kubernetes whose root
  file system can live on a persistent volume.  Paths below are relative to \<open>src/\<close>.

  \<^bold>\<open>The program and how its parts interact.\<close>  The webhook \<open>sysbox-admission\<close> sees every pod that uses a
  sysbox runtime class.  It validates the annotation \<open>sysbox/rootfs-rw-layer\<close>, which names for some
  containers a volume and a path on it, and adds a sidecar container that mounts these volumes.  On the
  node, the containerd plugin \<open>sysbox-snapshotter\<close> asks containerd which container a snapshot belongs to,
  reads the annotation of its pod, finds the mount of the volume in the sidecar, prepares the upper and work
  directories of the layer and returns the overlay mount; for special directories that must persist it leaves a
  handoff file.  The runtime \<open>sysbox-runc-lite\<close> (a fork of runc) reads the handoff file, adds the special
  mounts to the OCI specification (\<open>lite.go\<close>), converts the specification to a container configuration
  (\<open>libcontainer/specconv\<close>), validates it (\<open>configs/validate\<close>) and limits the devices of the container by cgroup v1
  rules (\<open>cgroups/devices\<close>) or a cgroup v2 eBPF program (\<open>cgroups/ebpf/devicefilter\<close>).

  \<^bold>\<open>How code is modelled.\<close>  A Go function is a HOL function of the same name.  A struct is a record, an
  integer of fixed width is a word or an integer with its wrap-around written out (\<open>wrap64\<close>), a string or byte slice is a list of
  bytes, a nil pointer or slice that the code tells apart is \<open>None\<close>, a map is a finite map.  A function that returns an
  error is a value of a sum type (\<open>Prelude\<close>: \<open>rbind\<close>, \<open>rguard\<close>, \<open>rfold\<close>), and a panic is one of its errors.
  Code that changes the world takes the world and returns it: the file system of \<open>Go_Os\<close>, the
  metadata store, the global list of default devices.  Where Go visits a map in an unspecified order, the model
  visits it in ascending order of keys, and says so.  Services and libraries outside the repository (containerd, the metadata store,
  the Kubernetes API, D-Bus) are parameters, records of functions, and what a theorem needs of them is a
  hypothesis of the theorem.

  \<^bold>\<open>Theories.\<close>
  \<^item> \<open>Prelude\<close>, \<open>Go_Strings\<close>, \<open>Go_Filepath\<close>, \<open>Go_Json\<close>, \<open>Go_Crypto\<close>, \<open>Go_Os\<close>: the parts of the Go standard library that
    the sources use: string splitting and numbers with the overflow rules of \<open>strconv\<close>, lexical paths with
    the normal form that \<open>Clean\<close> computes, JSON text and the decoding into structs, SHA-256, and a file system with directories,
    links and path resolution.
  \<^item> \<open>Device\<close>, \<open>Devices_Emulator\<close>, \<open>Device_Filter\<close>: device rules and permission sets (\<open>libcontainer/devices/device.go\<close>), the emulator of the
    cgroup v1 device list and the transition between two device lists (\<open>devices_emulator.go\<close>), and the compiler to eBPF
    (\<open>devicefilter.go\<close>) with a semantics of the instructions it emits.  The locale \<open>permission_algebra\<close> is the contract of
    permission strings.  The transition reaches its target whenever it is accepted, it is accepted except in the case that the code
    documents, and the eBPF program decides every access as the emulator does.
  \<^item> \<open>Admission\<close>: \<open>mutate.go\<close>, \<open>sidecar.go\<close>, \<open>patch.go\<close>, \<open>server.go\<close>, \<open>webhook.go\<close>.  Mutation is idempotent, admitted pods are valid and
    carry the sidecar, the JSON patch has the effect of the mutation, and the server fails closed.
  \<^item> \<open>Go_X509\<close>, \<open>Lifecycle\<close>: the certificates of the webhook and its registration (\<open>certs.go\<close>, \<open>cert_health.go\<close>,
    \<open>certificate_resources.go\<close>, \<open>lifecycle.go\<close>, \<open>rotation.go\<close>, \<open>tls_reload.go\<close>), with certificates in the symbolic model of cryptography and the
    Kubernetes API as a parameter whose documented laws are \<open>apiOK\<close> and \<open>attempts\<close>.  When the manager reports success, API servers trust the certificate that
    is served; certificates are renewed on schedule; a failing renewal never takes the server down.
  \<^item> \<open>Rootfs_Api\<close>, \<open>Rootfs\<close>, \<open>Rootfs_Resolve\<close>, \<open>Handoff\<close>: package \<open>sysbox-snapshotter/rootfs\<close>.  Preparing a layer
    never leaves the volume and never follows a link; the volume path is read exactly from the kernel's mount table; handoff
    files are replaced atomically.  The locales \<open>rootfs_preparer\<close> and \<open>handoff_store\<close> are the contracts that the snapshotter relies on.
  \<^item> \<open>Snapshotter\<close>: \<open>fuseoverlayfs.go\<close>, every operation of the plugin over the metadata store.
  \<^item> \<open>Lite\<close>, \<open>Lite_Copy\<close>: \<open>sysbox-runc-lite/lite.go\<close>, reading the handoff, detecting volumes, the special mounts, and the
    copy of a directory tree.
  \<^item> \<open>User\<close>: \<open>libcontainer/user\<close>, parsing user and group tables and resolving the user of a container.
  \<^item> \<open>Configs\<close>, \<open>Runc_Utils\<close>, \<open>Validator\<close>: \<open>libcontainer/configs\<close>, \<open>libcontainer/utils\<close> and \<open>configs/validate\<close>.
    The locale \<open>namespace_table\<close> is the contract of the namespace list.
  \<^item> \<open>Proc\<close>, \<open>Container_State\<close>: \<open>libcontainer/system/proc.go\<close>, \<open>state_linux.go\<close> and the operations of \<open>container_linux.go\<close> that use the state
    machine, as a step relation over the operations and the events of the host.  The reported status is the true one, and a running container is not
    destroyed by mistake.
  \<^item> \<open>Specconv_Mounts\<close>, \<open>Specconv_Seccomp\<close>, \<open>Specconv\<close>: \<open>libcontainer/specconv/spec_linux.go\<close> and \<open>seccomp/config.go\<close>.  Every
    configuration made from a specification is well formed.

  \<^bold>\<open>Bounds and fuel.\<close>  Path resolution follows at most 40 symbolic links, the limit of the kernel.
  The JSON reader carries fuel; every recursive call consumes a byte, and the fuel it is given is proved to be enough
  (\<open>Go_Json\<close>, section \<open>The fuel is enough\<close>).  The retry loop of \<open>LoadSidecarSpec\<close> runs as often as the code says.
  The directory walk of \<open>copyDir\<close> may not end when it copies into its own source, so it carries fuel too; on disjoint
  directories enough fuel is proved to exist and the copy is exact (\<open>Lite_Copy\<close>).  The loops of \<open>Lifecycle\<close>, which wait for ticks or draw
  random numbers, are partial functions: \<open>None\<close> means that the loop never returns.

  \<^bold>\<open>Not modelled.\<close>  Process creation (\<open>process_linux.go\<close>, the rest of \<open>container_linux.go\<close>, \<open>init_linux.go\<close>,
  \<open>factory_linux.go\<close>, \<open>nsenter\<close>, checkpointing), the mounts made inside the container (\<open>rootfs_linux.go\<close>), the cgroup
  managers and statistics (\<open>cgroups/fs\<close>, \<open>cgroups/fs2\<close>, \<open>cgroups/systemd\<close>), \<open>intelrdt\<close>, loading of seccomp filters and their patching: they are
  sequences of system calls, C code, or text formats of the kernel whose behaviour lies outside the repository.  The
  command line programs read flags and call the modelled functions.  Leader election is done by the Kubernetes client library.  Concurrency is modelled only where the code relies on it, as
  sequences of operations: retries, interrupted writes, and failing services.
\<close>

section \<open>Agreement of the admission webhook and the snapshotter\<close>

text \<open>
  C14.  The admission webhook and the snapshotter agree on which layer paths are allowed: the webhook
  accepts a path exactly when the snapshotter can use it, and then the snapshotter uses the volume
  itself or the cleaned path below it.  A pod that was admitted is therefore never refused later
  because of its layer path, and the webhook refuses no path that the snapshotter would accept.
\<close>

theorem layer_path_checks_agree:
  "validateRelativePath p = Inr () \<longleftrightarrow> (\<exists>c. safeLayerPath p = Inr c \<and> c = (if Clean p = ''.'' then [] else Clean p))"
proof -
  show ?thesis
    unfolding validateRelativePath_ok safeLayerPath_Inr by (auto simp: comps_Nil_iff dot_def)
qed

end
